theory Spec2Isabelle
  imports Complex_Main "HOL-Library.Word" "HOL-Library.Sublist" "HOL-Library.Log_Nat"
begin

unbundle bit_operations_syntax

section \<open>Silence trimmer: configuration\<close>

text \<open>
  Embedding of \<^verbatim>\<open>src/utils/audioSilenceTrimmer.ts\<close>. A JavaScript number is an IEEE 754
  double, modelled as the \<^typ>\<open>real\<close> it denotes (the infinities have no counterpart;
  the NaN that a configuration property with the value \<^verbatim>\<open>undefined\<close> brings about is
  carried in the section on configuration objects; the samples are numbers). A number that the code has passed through \<^verbatim>\<open>Math.floor\<close> or
  \<^verbatim>\<open>Math.round\<close>, and every sample index derived from such numbers, is an \<^typ>\<open>int\<close>.
  A \<^verbatim>\<open>Float32Array\<close> is a \<^typ>\<open>real list\<close>.

  Sample counts and durations are computed as the code computes them: a decimal literal is
  the double nearest to it, and a product or quotient of a sample rate and a duration is
  rounded to the nearest double (\<open>fl\<close>) before \<^verbatim>\<open>Math.floor\<close> or \<^verbatim>\<open>Math.round\<close>
  is applied. Sums and differences of sample indices are exact in double arithmetic
  (below \<open>2^53\<close>). Amplitudes (the squares, their sum and its root in \<^verbatim>\<open>computeRMS\<close>,
  the products of thresholds) are computed in exact arithmetic.
\<close>

text \<open>
  Rounding to the nearest double, ties to the even significand: a double has 53 significant
  bits, so the doubles of magnitude \<open>2^e \<le> \<bar>x\<bar> < 2^(e+1)\<close> are the integer multiples of
  \<open>2^(e-52)\<close>. The exponent range is not bounded (no overflow, no subnormal numbers).
  \<open>exponent x\<close> is the \<open>e\<close> of a number that is not zero, from the bit length of its
  integer part, or of the integer part of its inverse.
\<close>

definition roundTiesToEven :: "real \<Rightarrow> int" where
  "roundTiesToEven x =
     (let n = \<lfloor>x\<rfloor>; r = x - real_of_int n
      in if r < 1 / 2 then n else if 1 / 2 < r then n + 1
         else if even n then n else n + 1)"

definition exponent :: "real \<Rightarrow> int" where
  "exponent x =
     (if 1 \<le> \<bar>x\<bar> then bitlen \<lfloor>\<bar>x\<bar>\<rfloor> - 1 else - bitlen (\<lceil>1 / \<bar>x\<bar>\<rceil> - 1))"

definition fl :: "real \<Rightarrow> real" where
  "fl x = (if x = 0 then 0
           else (let e = exponent x - 52
                 in real_of_int (roundTiesToEven (x / 2 powi e)) * 2 powi e))"

text \<open>\<^verbatim>\<open>Required<TrimConfig>\<close>: every option present.\<close>

record RequiredTrimConfig =
  silenceThreshold :: real
  endThresholdMultiplier :: real
  windowSize :: real
  minSilenceDuration :: real
  trimTrailing :: bool
  maxLeadingTrim :: real
  maxTrailingTrim :: real
  trailingPadding :: real
  minAudioDuration :: real

text \<open>
  \<^verbatim>\<open>TrimConfig\<close>: every option may be omitted (\<open>None\<close>). The field names carry the
  prefix \<open>opt_\<close> because a record field is a constant of the theory. An option that is
  present holds a number (or a boolean); the configurations with a property that is present
  and \<^verbatim>\<open>undefined\<close> are the subject of the section on configuration objects below.
\<close>

record TrimConfig =
  opt_silenceThreshold :: "real option"
  opt_endThresholdMultiplier :: "real option"
  opt_windowSize :: "real option"
  opt_minSilenceDuration :: "real option"
  opt_trimTrailing :: "bool option"
  opt_maxLeadingTrim :: "real option"
  opt_maxTrailingTrim :: "real option"
  opt_trailingPadding :: "real option"
  opt_minAudioDuration :: "real option"

definition DEFAULT_CONFIG :: RequiredTrimConfig where
  "DEFAULT_CONFIG =
     \<lparr> silenceThreshold = fl 0.01,
       endThresholdMultiplier = fl 0.6,
       windowSize = fl 0.05,
       minSilenceDuration = fl 0.2,
       trimTrailing = False,
       maxLeadingTrim = 3,
       maxTrailingTrim = 8,
       trailingPadding = fl 0.35,
       minAudioDuration = 1.0 \<rparr>"

text \<open>The empty object \<^verbatim>\<open>{}\<close>, the default value of the \<^verbatim>\<open>config\<close> parameter.\<close>

definition emptyConfig :: TrimConfig where
  "emptyConfig =
     \<lparr> opt_silenceThreshold = None,
       opt_endThresholdMultiplier = None,
       opt_windowSize = None,
       opt_minSilenceDuration = None,
       opt_trimTrailing = None,
       opt_maxLeadingTrim = None,
       opt_maxTrailingTrim = None,
       opt_trailingPadding = None,
       opt_minAudioDuration = None \<rparr>"

text \<open>
  The object spread \<^verbatim>\<open>{ ...DEFAULT_CONFIG, ...config }\<close>: a property present in
  \<^verbatim>\<open>config\<close> replaces the one copied from the defaults.
\<close>

definition orElse :: "'a option \<Rightarrow> 'a \<Rightarrow> 'a" where
  "orElse given dflt = (case given of None \<Rightarrow> dflt | Some v \<Rightarrow> v)"

definition spread :: "RequiredTrimConfig \<Rightarrow> TrimConfig \<Rightarrow> RequiredTrimConfig" where
  "spread dflt config =
     \<lparr> silenceThreshold = orElse (opt_silenceThreshold config) (silenceThreshold dflt),
       endThresholdMultiplier =
         orElse (opt_endThresholdMultiplier config) (endThresholdMultiplier dflt),
       windowSize = orElse (opt_windowSize config) (windowSize dflt),
       minSilenceDuration = orElse (opt_minSilenceDuration config) (minSilenceDuration dflt),
       trimTrailing = orElse (opt_trimTrailing config) (trimTrailing dflt),
       maxLeadingTrim = orElse (opt_maxLeadingTrim config) (maxLeadingTrim dflt),
       maxTrailingTrim = orElse (opt_maxTrailingTrim config) (maxTrailingTrim dflt),
       trailingPadding = orElse (opt_trailingPadding config) (trailingPadding dflt),
       minAudioDuration = orElse (opt_minAudioDuration config) (minAudioDuration dflt) \<rparr>"

section \<open>Silence trimmer: window energy and the two scans\<close>

text \<open>
  \<^verbatim>\<open>computeRMS(samples, start, length)\<close>. The summation loop runs over the indices
  \<open>start \<le> i < end\<close>; both scans call it with \<open>0 \<le> start\<close> whenever the slice is not
  empty, so every read is inside the array.
\<close>

definition computeRMS :: "real list \<Rightarrow> int \<Rightarrow> int \<Rightarrow> real" where
  "computeRMS samples start len =
     (let end = min (start + len) (int (length samples));
          actualLength = end - start
      in if actualLength \<le> 0 then 0
         else sqrt (sum_list (map (\<lambda>x. x * x)
                      (take (nat actualLength) (drop (nat start) samples)))
                    / real_of_int actualLength))"

text \<open>
  The \<^verbatim>\<open>for\<close> loop of \<^verbatim>\<open>findSpeechStart\<close>, with the loop variables \<open>i\<close> and
  \<open>silentSamples\<close> as arguments. With \<open>windowSamples \<le> 0\<close> the loop of the source need not
  end; the result \<open>None\<close> stands for a call that never returns.
\<close>

partial_function (option) findSpeechStart_loop ::
  "real list \<Rightarrow> real \<Rightarrow> int \<Rightarrow> int \<Rightarrow> int \<Rightarrow> int \<Rightarrow> int \<Rightarrow> int option" where
  "findSpeechStart_loop samples threshold windowSamples maxTrimSamples minSilenceSamples
       i silentSamples =
     (if i < int (length samples) \<and> i < maxTrimSamples then
        (if threshold \<le> computeRMS samples i windowSamples then
           (if minSilenceSamples \<le> silentSamples
            then Some (max 0 (i - windowSamples div 2))
            else Some 0)
         else findSpeechStart_loop samples threshold windowSamples maxTrimSamples
                minSilenceSamples (i + windowSamples) (silentSamples + windowSamples))
      else if minSilenceSamples \<le> silentSamples
           then Some (min silentSamples maxTrimSamples)
           else Some 0)"

definition findSpeechStart :: "real list \<Rightarrow> real \<Rightarrow> RequiredTrimConfig \<Rightarrow> int option" where
  "findSpeechStart samples sampleRate config =
     (let windowSamples = \<lfloor>fl (sampleRate * windowSize config)\<rfloor>;
          maxTrimSamples = \<lfloor>fl (sampleRate * maxLeadingTrim config)\<rfloor>;
          minSilenceSamples = \<lfloor>fl (sampleRate * minSilenceDuration config)\<rfloor>
      in findSpeechStart_loop samples (silenceThreshold config) windowSamples maxTrimSamples
           minSilenceSamples 0 0)"

text \<open>
  The energy slope test of \<^verbatim>\<open>findSpeechEnd\<close>: the window is quieter than the window
  scanned before it by more than a fifth, and still above three tenths of the end threshold.
\<close>

definition isDecrescendo :: "real \<Rightarrow> real \<Rightarrow> real \<Rightarrow> bool" where
  "isDecrescendo previousRMS rms endThreshold \<longleftrightarrow>
     0 < previousRMS \<and> 0 < rms \<and> rms < previousRMS * 0.8 \<and> endThreshold * 0.3 < rms"

text \<open>
  The backward \<^verbatim>\<open>for\<close> loop of \<^verbatim>\<open>findSpeechEnd\<close>, with the loop variables \<open>i\<close>,
  \<open>silentSamples\<close> and \<open>previousRMS\<close> as arguments.
\<close>

partial_function (option) findSpeechEnd_loop ::
  "real list \<Rightarrow> real \<Rightarrow> int \<Rightarrow> int \<Rightarrow> int \<Rightarrow> int \<Rightarrow> int \<Rightarrow> int \<Rightarrow> real \<Rightarrow> int option" where
  "findSpeechEnd_loop samples endThreshold windowSamples minSilenceSamples
       maxTrailingTrimSamples trailingPaddingSamples i silentSamples previousRMS =
     (if 0 \<le> i then
        (if maxTrailingTrimSamples < silentSamples then Some (int (length samples))
         else if endThreshold \<le> computeRMS samples i windowSamples
                 \<or> isDecrescendo previousRMS (computeRMS samples i windowSamples) endThreshold
         then (if minSilenceSamples \<le> silentSamples
               then Some (min (int (length samples))
                              (i + windowSamples + trailingPaddingSamples))
               else Some (int (length samples)))
         else findSpeechEnd_loop samples endThreshold windowSamples minSilenceSamples
                maxTrailingTrimSamples trailingPaddingSamples
                (i - windowSamples) (silentSamples + windowSamples)
                (computeRMS samples i windowSamples))
      else Some (int (length samples)))"

definition findSpeechEnd :: "real list \<Rightarrow> real \<Rightarrow> RequiredTrimConfig \<Rightarrow> int option" where
  "findSpeechEnd samples sampleRate config =
     (let windowSamples = \<lfloor>fl (sampleRate * windowSize config)\<rfloor>;
          minSilenceSamples = \<lfloor>fl (sampleRate * minSilenceDuration config)\<rfloor>;
          maxTrailingTrimSamples = \<lfloor>fl (sampleRate * maxTrailingTrim config)\<rfloor>;
          trailingPaddingSamples = \<lfloor>fl (sampleRate * trailingPadding config)\<rfloor>;
          endThreshold = silenceThreshold config * endThresholdMultiplier config
      in findSpeechEnd_loop samples endThreshold windowSamples minSilenceSamples
           maxTrailingTrimSamples trailingPaddingSamples
           (int (length samples) - windowSamples) 0 0)"


section \<open>Audio buffers, blobs and the failures of the platform\<close>

text \<open>
  The exceptions that the platform calls used by the trimmer can throw (promise rejections
  included): \<open>DecodeError\<close> stands for any failure of \<^verbatim>\<open>Blob.arrayBuffer\<close>, of the
  \<^verbatim>\<open>AudioContext\<close> constructor and of \<^verbatim>\<open>decodeAudioData\<close>.
\<close>

datatype js_error = DecodeError | IndexSizeError | NotSupportedError | RangeError

text \<open>A \<^verbatim>\<open>Blob\<close>: its bytes and its MIME type.\<close>

datatype blob = Blob (blob_bytes: "8 word list") (blob_type: string)

text \<open>
  A Web Audio \<^verbatim>\<open>AudioBuffer\<close>: \<open>frameCount\<close> is its \<^verbatim>\<open>length\<close> property,
  \<open>channelData\<close> holds one \<^verbatim>\<open>Float32Array\<close> per channel, and
  \<^verbatim>\<open>numberOfChannels\<close> is the number of those arrays.
\<close>

record AudioBuffer =
  frameCount :: nat
  sampleRate :: real
  channelData :: "real list list"

definition numberOfChannels :: "AudioBuffer \<Rightarrow> nat" where
  "numberOfChannels b = length (channelData b)"

text \<open>The invariant the platform keeps for every \<^verbatim>\<open>AudioBuffer\<close> it hands out.\<close>

definition wellFormed :: "AudioBuffer \<Rightarrow> bool" where
  "wellFormed b \<longleftrightarrow>
     0 < numberOfChannels b \<and> 0 < sampleRate b
     \<and> list_all (\<lambda>c. length c = frameCount b) (channelData b)"

definition getChannelData :: "AudioBuffer \<Rightarrow> nat \<Rightarrow> js_error + real list" where
  "getChannelData b ch =
     (if ch < numberOfChannels b then Inr (channelData b ! ch) else Inl IndexSizeError)"

text \<open>
  \<^verbatim>\<open>BaseAudioContext.createBuffer\<close>: a zero-filled buffer; \<^verbatim>\<open>NotSupportedError\<close> when an
  argument is zero or negative.
\<close>

definition createBuffer :: "nat \<Rightarrow> int \<Rightarrow> real \<Rightarrow> js_error + AudioBuffer" where
  "createBuffer channels len rate =
     (if channels = 0 \<or> len \<le> 0 \<or> rate \<le> 0 then Inl NotSupportedError
      else Inr \<lparr> frameCount = nat len, sampleRate = rate,
                 channelData = replicate channels (replicate (nat len) 0) \<rparr>)"

text \<open>
  A read \<^verbatim>\<open>array[k]\<close> of a \<^verbatim>\<open>Float32Array\<close>. Outside the array JavaScript yields
  \<^verbatim>\<open>undefined\<close>, which a \<^verbatim>\<open>Float32Array\<close> stores as NaN and which
  \<^verbatim>\<open>DataView.setInt16\<close> finally writes as 0; the model reads 0 there, which is written
  as 0 too.
\<close>

definition sampleAt :: "real list \<Rightarrow> int \<Rightarrow> real" where
  "sampleAt array k = (if 0 \<le> k \<and> k < int (length array) then array ! nat k else 0)"

text \<open>Sequencing of calls that may throw.\<close>

definition bindE :: "js_error + 'a \<Rightarrow> ('a \<Rightarrow> js_error + 'b) \<Rightarrow> js_error + 'b" where
  "bindE m f = (case m of Inl e \<Rightarrow> Inl e | Inr v \<Rightarrow> f v)"

section \<open>WAV encoding\<close>

text \<open>
  The conversions that \<^verbatim>\<open>DataView\<close> applies to a number before it stores it: the
  fraction is dropped (towards zero) and the integer is reduced modulo the width.
\<close>

definition ToInteger :: "real \<Rightarrow> int" where
  "ToInteger x = (if 0 \<le> x then \<lfloor>x\<rfloor> else \<lceil>x\<rceil>)"

definition ToUint8 :: "real \<Rightarrow> 8 word" where
  "ToUint8 x = word_of_int (ToInteger x)"

definition ToUint16 :: "real \<Rightarrow> 16 word" where
  "ToUint16 x = word_of_int (ToInteger x)"

definition ToUint32 :: "real \<Rightarrow> 32 word" where
  "ToUint32 x = word_of_int (ToInteger x)"

definition ToInt16 :: "real \<Rightarrow> 16 word" where
  "ToInt16 x = word_of_int (ToInteger x)"

text \<open>Little-endian byte order (every multi-byte write passes \<^verbatim>\<open>true\<close>).\<close>

definition le16 :: "16 word \<Rightarrow> 8 word list" where
  "le16 w = [ucast w, ucast (drop_bit 8 w)]"

definition le32 :: "32 word \<Rightarrow> 8 word list" where
  "le32 w = [ucast w, ucast (drop_bit 8 w), ucast (drop_bit 16 w), ucast (drop_bit 24 w)]"

text \<open>
  A \<^verbatim>\<open>DataView\<close> over an \<^verbatim>\<open>ArrayBuffer\<close> is the list of its bytes. A write that does
  not fit inside the buffer throws \<^verbatim>\<open>RangeError\<close>.
\<close>

definition setBytes :: "8 word list \<Rightarrow> nat \<Rightarrow> 8 word list \<Rightarrow> js_error + 8 word list" where
  "setBytes view offset bytes =
     (if offset + length bytes \<le> length view
      then Inr (take offset view @ bytes @ drop (offset + length bytes) view)
      else Inl RangeError)"

definition setUint8 :: "8 word list \<Rightarrow> nat \<Rightarrow> real \<Rightarrow> js_error + 8 word list" where
  "setUint8 view offset v = setBytes view offset [ToUint8 v]"

definition setUint16 :: "8 word list \<Rightarrow> nat \<Rightarrow> real \<Rightarrow> js_error + 8 word list" where
  "setUint16 view offset v = setBytes view offset (le16 (ToUint16 v))"

definition setUint32 :: "8 word list \<Rightarrow> nat \<Rightarrow> real \<Rightarrow> js_error + 8 word list" where
  "setUint32 view offset v = setBytes view offset (le32 (ToUint32 v))"

definition setInt16 :: "8 word list \<Rightarrow> nat \<Rightarrow> real \<Rightarrow> js_error + 8 word list" where
  "setInt16 view offset v = setBytes view offset (le16 (ToInt16 v))"

text \<open>\<^verbatim>\<open>writeString\<close>: one \<^verbatim>\<open>setUint8\<close> per character code.\<close>

fun writeString :: "8 word list \<Rightarrow> nat \<Rightarrow> string \<Rightarrow> js_error + 8 word list" where
  "writeString view offset [] = Inr view"
| "writeString view offset (c # str) =
     bindE (setUint8 view offset (real (of_char c)))
       (\<lambda>view. writeString view (Suc offset) str)"

text \<open>The body of the sample loop: clamp to \<open>[-1, 1]\<close>, then scale.\<close>

definition intSample :: "real \<Rightarrow> real" where
  "intSample x =
     (let sample = max (- 1) (min 1 x)
      in if sample < 0 then sample * 32768 else sample * 32767)"

text \<open>
  The nested sample loops visit the frames in order and, inside a frame, the channels in
  order: \<open>interleaved\<close> lists the values \<^verbatim>\<open>channels[ch][i]\<close> in that order, and
  \<open>writeSamples\<close> is the loop body with the running \<^verbatim>\<open>offset\<close>.
\<close>

definition interleaved :: "AudioBuffer \<Rightarrow> real list" where
  "interleaved buffer =
     concat (map (\<lambda>i. map (\<lambda>ch. sampleAt (channelData buffer ! ch) (int i))
                         [0 ..< numberOfChannels buffer])
                 [0 ..< frameCount buffer])"

fun writeSamples :: "8 word list \<Rightarrow> nat \<Rightarrow> real list \<Rightarrow> js_error + 8 word list" where
  "writeSamples view offset [] = Inr view"
| "writeSamples view offset (x # xs) =
     bindE (setInt16 view offset (intSample x))
       (\<lambda>view. writeSamples view (offset + 2) xs)"

definition audioBufferToWav :: "AudioBuffer \<Rightarrow> js_error + blob" where
  "audioBufferToWav buffer =
     (let numChannels = numberOfChannels buffer;
          sampleRate = sampleRate buffer;
          bitsPerSample = 16;
          bytesPerSample = bitsPerSample div 8;
          blockAlign = numChannels * bytesPerSample;
          byteRate = fl (sampleRate * real blockAlign);
          dataLength = frameCount buffer * blockAlign;
          headerLength = 44;
          totalLength = headerLength + dataLength;
          view = replicate totalLength (0 :: 8 word)
      in bindE (writeString view 0 ''RIFF'') (\<lambda>view.
         bindE (setUint32 view 4 (real totalLength - 8)) (\<lambda>view.
         bindE (writeString view 8 ''WAVE'') (\<lambda>view.
         bindE (writeString view 12 ''fmt '') (\<lambda>view.
         bindE (setUint32 view 16 16) (\<lambda>view.
         bindE (setUint16 view 20 1) (\<lambda>view.
         bindE (setUint16 view 22 (real numChannels)) (\<lambda>view.
         bindE (setUint32 view 24 sampleRate) (\<lambda>view.
         bindE (setUint32 view 28 byteRate) (\<lambda>view.
         bindE (setUint16 view 32 (real blockAlign)) (\<lambda>view.
         bindE (setUint16 view 34 (real bitsPerSample)) (\<lambda>view.
         bindE (writeString view 36 ''data'') (\<lambda>view.
         bindE (setUint32 view 40 (real dataLength)) (\<lambda>view.
         bindE (writeSamples view 44 (interleaved buffer)) (\<lambda>view.
         Inr (Blob view ''audio/wav''))))))))))))))))"


section \<open>Silence trimmer: \<^verbatim>\<open>trimSilence\<close> and \<^verbatim>\<open>trimLeadingSilence\<close>\<close>

record TrimResult =
  blob :: blob
  trimmedLeadingMs :: int
  trimmedTrailingMs :: int

text \<open>\<^verbatim>\<open>Math.round\<close>: to the nearest integer, a half upwards.\<close>

definition Math_round :: "real \<Rightarrow> int" where
  "Math_round x = \<lfloor>x + 1 / 2\<rfloor>"

text \<open>
  "Get mono samples": channel 0 alone, or the average of channels 0 and 1. The channels of
  an \<^verbatim>\<open>AudioBuffer\<close> have the same length, so the reads of \<^verbatim>\<open>right[i]\<close> are inside
  the array.
\<close>

definition monoSamples :: "AudioBuffer \<Rightarrow> js_error + real list" where
  "monoSamples audioBuffer =
     (if numberOfChannels audioBuffer = 1 then getChannelData audioBuffer 0
      else bindE (getChannelData audioBuffer 0) (\<lambda>left.
           bindE (getChannelData audioBuffer 1) (\<lambda>right.
           Inr (map (\<lambda>i. (sampleAt left (int i) + sampleAt right (int i)) / 2)
                    [0 ..< length left]))))"

text \<open>
  The copy loops: for every channel, \<^verbatim>\<open>target[i] = original[speechStart + i]\<close> for
  \<open>i < trimmedSamples\<close>. A write outside a typed array is ignored, as \<open>list_update\<close> is.
\<close>

fun copyChannels ::
  "AudioBuffer \<Rightarrow> AudioBuffer \<Rightarrow> int \<Rightarrow> int \<Rightarrow> nat list \<Rightarrow> js_error + AudioBuffer" where
  "copyChannels audioBuffer trimmedBuffer speechStart trimmedSamples [] = Inr trimmedBuffer"
| "copyChannels audioBuffer trimmedBuffer speechStart trimmedSamples (ch # chs) =
     bindE (getChannelData audioBuffer ch) (\<lambda>original.
     bindE (getChannelData trimmedBuffer ch) (\<lambda>target.
     copyChannels audioBuffer
       (trimmedBuffer\<lparr>channelData := (channelData trimmedBuffer)
          [ch := fold (\<lambda>i t. t[i := sampleAt original (speechStart + int i)])
                      [0 ..< nat trimmedSamples] target]\<rparr>)
       speechStart trimmedSamples chs))"

definition passthrough :: "blob \<Rightarrow> TrimResult" where
  "passthrough audioBlob =
     \<lparr> blob = audioBlob, trimmedLeadingMs = 0, trimmedTrailingMs = 0 \<rparr>"

text \<open>
  The part of the \<^verbatim>\<open>try\<close> block that follows the two scans: the safety check, the
  "no meaningful trim" check, and the re-encoding of the samples
  \<open>speechStart \<le> i < speechEnd\<close>.
\<close>

definition trimBetween ::
  "blob \<Rightarrow> AudioBuffer \<Rightarrow> real list \<Rightarrow> RequiredTrimConfig \<Rightarrow> int \<Rightarrow> int
     \<Rightarrow> js_error + TrimResult" where
  "trimBetween audioBlob audioBuffer samples cfg speechStart speechEnd =
     (let sampleRate = sampleRate audioBuffer;
          minSamples = \<lfloor>fl (sampleRate * minAudioDuration cfg)\<rfloor>;
          trimmedSamples = speechEnd - speechStart
      in if trimmedSamples < minSamples then Inr (passthrough audioBlob)
         else if speechStart = 0 \<and> speechEnd = int (length samples)
         then Inr (passthrough audioBlob)
         else
           (let leadingMs = Math_round (fl (fl (real_of_int speechStart / sampleRate) * 1000));
                trailingMs = max 0 (Math_round
                  (fl (fl (real_of_int (int (length samples) - speechEnd) / sampleRate)
                       * 1000)))
            in bindE (createBuffer (numberOfChannels audioBuffer) trimmedSamples sampleRate)
                 (\<lambda>trimmedBuffer.
               bindE (copyChannels audioBuffer trimmedBuffer speechStart trimmedSamples
                        [0 ..< numberOfChannels audioBuffer])
                 (\<lambda>trimmedBuffer.
               bindE (audioBufferToWav trimmedBuffer)
                 (\<lambda>wavBlob.
               Inr \<lparr> blob = wavBlob, trimmedLeadingMs = leadingMs,
                     trimmedTrailingMs = trailingMs \<rparr>)))))"

text \<open>
  The \<^verbatim>\<open>try\<close> block. \<open>decodeAudioData\<close> is the platform's decoder (the three awaited
  calls that lead from the blob to the \<^verbatim>\<open>AudioBuffer\<close>), a parameter of the model.
  \<open>None\<close>: a scan never returns. \<open>Some (Inl e)\<close>: the block throws \<open>e\<close>.
\<close>

definition speechEndOf :: "real list \<Rightarrow> real \<Rightarrow> RequiredTrimConfig \<Rightarrow> int option" where
  "speechEndOf samples rate cfg =
     (if trimTrailing cfg then findSpeechEnd samples rate cfg
      else Some (int (length samples)))"

definition trimSilence_try ::
  "(blob \<Rightarrow> js_error + AudioBuffer) \<Rightarrow> blob \<Rightarrow> RequiredTrimConfig
     \<Rightarrow> (js_error + TrimResult) option" where
  "trimSilence_try decodeAudioData audioBlob cfg =
     (case decodeAudioData audioBlob of
        Inl e \<Rightarrow> Some (Inl e)
      | Inr audioBuffer \<Rightarrow>
          (case monoSamples audioBuffer of
             Inl e \<Rightarrow> Some (Inl e)
           | Inr samples \<Rightarrow>
               (case findSpeechStart samples (sampleRate audioBuffer) cfg of
                  None \<Rightarrow> None
                | Some speechStart \<Rightarrow>
                    (case speechEndOf samples (sampleRate audioBuffer) cfg of
                       None \<Rightarrow> None
                     | Some speechEnd \<Rightarrow>
                         Some (trimBetween audioBlob audioBuffer samples cfg
                                 speechStart speechEnd)))))"

text \<open>The \<^verbatim>\<open>catch\<close> clause turns every exception of the block into the passthrough.\<close>

definition trimSilence_cfg ::
  "(blob \<Rightarrow> js_error + AudioBuffer) \<Rightarrow> blob \<Rightarrow> RequiredTrimConfig \<Rightarrow> TrimResult option" where
  "trimSilence_cfg decodeAudioData audioBlob cfg =
     (case trimSilence_try decodeAudioData audioBlob cfg of
        None \<Rightarrow> None
      | Some (Inl err) \<Rightarrow> Some (passthrough audioBlob)
      | Some (Inr result) \<Rightarrow> Some result)"

definition trimSilence ::
  "(blob \<Rightarrow> js_error + AudioBuffer) \<Rightarrow> blob \<Rightarrow> TrimConfig \<Rightarrow> TrimResult option" where
  "trimSilence decodeAudioData audioBlob config =
     trimSilence_cfg decodeAudioData audioBlob (spread DEFAULT_CONFIG config)"

text \<open>\<^verbatim>\<open>trimLeadingSilence\<close> returns \<^verbatim>\<open>{ blob, trimmedMs }\<close>, here a pair.\<close>

definition trimLeadingSilence ::
  "(blob \<Rightarrow> js_error + AudioBuffer) \<Rightarrow> blob \<Rightarrow> TrimConfig \<Rightarrow> (blob \<times> int) option" where
  "trimLeadingSilence decodeAudioData audioBlob config =
     map_option (\<lambda>r. (blob r, trimmedLeadingMs r))
       (trimSilence decodeAudioData audioBlob (config\<lparr>opt_trimTrailing := Some False\<rparr>))"


section \<open>Configurations with undefined properties\<close>

text \<open>
  The records \<open>TrimConfig\<close> and \<open>RequiredTrimConfig\<close> above hold numbers: they embed the
  code for the configurations in which every property that is present has a number (or a
  boolean) as its value. The type \<^verbatim>\<open>TrimConfig\<close> of the source also admits a property that
  is present with the value \<^verbatim>\<open>undefined\<close>. The object spread copies such a property over
  the default, the merged configuration then holds \<^verbatim>\<open>undefined\<close>, and the arithmetic of
  the scans yields NaN. This section embeds \<^verbatim>\<open>trimSilence\<close> and the functions it calls
  for every configuration object. A property of the object is \<open>Absent\<close> (the object has no
  own enumerable property of that name), \<open>Undefined\<close> (present, with the value
  \<^verbatim>\<open>undefined\<close>) or a \<open>Value\<close>;
  a number that may be NaN is an \<open>option\<close>, with \<open>None\<close> for NaN and for
  \<^verbatim>\<open>undefined\<close> (in every place where the code uses an option, the value
  \<^verbatim>\<open>undefined\<close> acts as NaN does, or as false does for \<^verbatim>\<open>trimTrailing\<close>).
\<close>

datatype 'a property = Absent | Undefined | Value 'a

record TrimConfigObject =
  prop_silenceThreshold :: "real property"
  prop_endThresholdMultiplier :: "real property"
  prop_windowSize :: "real property"
  prop_minSilenceDuration :: "real property"
  prop_trimTrailing :: "bool property"
  prop_maxLeadingTrim :: "real property"
  prop_maxTrailingTrim :: "real property"
  prop_trailingPadding :: "real property"
  prop_minAudioDuration :: "real property"

definition emptyObject :: TrimConfigObject where
  "emptyObject =
     \<lparr> prop_silenceThreshold = Absent,
       prop_endThresholdMultiplier = Absent,
       prop_windowSize = Absent,
       prop_minSilenceDuration = Absent,
       prop_trimTrailing = Absent,
       prop_maxLeadingTrim = Absent,
       prop_maxTrailingTrim = Absent,
       prop_trailingPadding = Absent,
       prop_minAudioDuration = Absent \<rparr>"

text \<open>The merged object \<^verbatim>\<open>cfg\<close>, as it is at run time.\<close>

record MergedConfig =
  cfg_silenceThreshold :: "real option"
  cfg_endThresholdMultiplier :: "real option"
  cfg_windowSize :: "real option"
  cfg_minSilenceDuration :: "real option"
  cfg_trimTrailing :: "bool option"
  cfg_maxLeadingTrim :: "real option"
  cfg_maxTrailingTrim :: "real option"
  cfg_trailingPadding :: "real option"
  cfg_minAudioDuration :: "real option"

text \<open>
  \<^verbatim>\<open>{ ...DEFAULT_CONFIG, ...config }\<close>: every own property of \<^verbatim>\<open>config\<close> is copied over
  the default, whatever its value.
\<close>

definition spreadProperty :: "'a \<Rightarrow> 'a property \<Rightarrow> 'a option" where
  "spreadProperty dflt given =
     (case given of Absent \<Rightarrow> Some dflt | Undefined \<Rightarrow> None | Value v \<Rightarrow> Some v)"

definition spreadObject :: "RequiredTrimConfig \<Rightarrow> TrimConfigObject \<Rightarrow> MergedConfig" where
  "spreadObject dflt config =
     \<lparr> cfg_silenceThreshold =
         spreadProperty (silenceThreshold dflt) (prop_silenceThreshold config),
       cfg_endThresholdMultiplier =
         spreadProperty (endThresholdMultiplier dflt) (prop_endThresholdMultiplier config),
       cfg_windowSize = spreadProperty (windowSize dflt) (prop_windowSize config),
       cfg_minSilenceDuration =
         spreadProperty (minSilenceDuration dflt) (prop_minSilenceDuration config),
       cfg_trimTrailing = spreadProperty (trimTrailing dflt) (prop_trimTrailing config),
       cfg_maxLeadingTrim = spreadProperty (maxLeadingTrim dflt) (prop_maxLeadingTrim config),
       cfg_maxTrailingTrim =
         spreadProperty (maxTrailingTrim dflt) (prop_maxTrailingTrim config),
       cfg_trailingPadding =
         spreadProperty (trailingPadding dflt) (prop_trailingPadding config),
       cfg_minAudioDuration =
         spreadProperty (minAudioDuration dflt) (prop_minAudioDuration config) \<rparr>"

text \<open>
  Arithmetic with NaN: an operation with a NaN operand yields NaN (so do \<^verbatim>\<open>Math.min\<close> and
  \<^verbatim>\<open>Math.max\<close>), and a comparison with a NaN operand is false.
\<close>

definition liftJS :: "('a \<Rightarrow> 'b \<Rightarrow> 'c) \<Rightarrow> 'a option \<Rightarrow> 'b option \<Rightarrow> 'c option" where
  "liftJS f x y = (case (x, y) of (Some a, Some b) \<Rightarrow> Some (f a b) | _ \<Rightarrow> None)"

definition lessJS :: "'a :: linorder option \<Rightarrow> 'a option \<Rightarrow> bool" where
  "lessJS x y = (case (x, y) of (Some a, Some b) \<Rightarrow> a < b | _ \<Rightarrow> False)"

definition lessEqJS :: "'a :: linorder option \<Rightarrow> 'a option \<Rightarrow> bool" where
  "lessEqJS x y = (case (x, y) of (Some a, Some b) \<Rightarrow> a \<le> b | _ \<Rightarrow> False)"

text \<open>\<^verbatim>\<open>Math.floor(sampleRate * seconds)\<close>.\<close>

definition floorTimesJS :: "real \<Rightarrow> real option \<Rightarrow> int option" where
  "floorTimesJS rate seconds = map_option (\<lambda>v. \<lfloor>fl (rate * v)\<rfloor>) seconds"

text \<open>
  \<^verbatim>\<open>computeRMS\<close> with a NaN argument: \<^verbatim>\<open>end\<close> and \<^verbatim>\<open>actualLength\<close> are NaN, the test
  \<^verbatim>\<open>actualLength <= 0\<close> is false, the loop has no iteration and the result is
  \<^verbatim>\<open>Math.sqrt(0 / NaN)\<close>, that is NaN.
\<close>

definition computeRMS_JS :: "real list \<Rightarrow> int option \<Rightarrow> int option \<Rightarrow> real option" where
  "computeRMS_JS samples start len = liftJS (computeRMS samples) start len"

partial_function (option) findSpeechStart_loop_JS ::
  "real list \<Rightarrow> real option \<Rightarrow> int option \<Rightarrow> int option \<Rightarrow> int option
     \<Rightarrow> int option \<Rightarrow> int option \<Rightarrow> int option option" where
  "findSpeechStart_loop_JS samples threshold windowSamples maxTrimSamples minSilenceSamples
       i silentSamples =
     (if lessJS i (Some (int (length samples))) \<and> lessJS i maxTrimSamples then
        (if lessEqJS threshold (computeRMS_JS samples i windowSamples) then
           (if lessEqJS minSilenceSamples silentSamples
            then Some (liftJS max (Some 0)
                         (liftJS (-) i (map_option (\<lambda>w. w div 2) windowSamples)))
            else Some (Some 0))
         else findSpeechStart_loop_JS samples threshold windowSamples maxTrimSamples
                minSilenceSamples (liftJS (+) i windowSamples)
                (liftJS (+) silentSamples windowSamples))
      else if lessEqJS minSilenceSamples silentSamples
           then Some (liftJS min silentSamples maxTrimSamples)
           else Some (Some 0))"

definition findSpeechStart_JS :: "real list \<Rightarrow> real \<Rightarrow> MergedConfig \<Rightarrow> int option option" where
  "findSpeechStart_JS samples rate config =
     (let windowSamples = floorTimesJS rate (cfg_windowSize config);
          maxTrimSamples = floorTimesJS rate (cfg_maxLeadingTrim config);
          minSilenceSamples = floorTimesJS rate (cfg_minSilenceDuration config)
      in findSpeechStart_loop_JS samples (cfg_silenceThreshold config) windowSamples
           maxTrimSamples minSilenceSamples (Some 0) (Some 0))"

definition isDecrescendo_JS :: "real option \<Rightarrow> real option \<Rightarrow> real option \<Rightarrow> bool" where
  "isDecrescendo_JS previousRMS rms endThreshold \<longleftrightarrow>
     lessJS (Some 0) previousRMS \<and> lessJS (Some 0) rms
     \<and> lessJS rms (liftJS (*) previousRMS (Some 0.8))
     \<and> lessJS (liftJS (*) endThreshold (Some 0.3)) rms"

partial_function (option) findSpeechEnd_loop_JS ::
  "real list \<Rightarrow> real option \<Rightarrow> int option \<Rightarrow> int option \<Rightarrow> int option \<Rightarrow> int option
     \<Rightarrow> int option \<Rightarrow> int option \<Rightarrow> real option \<Rightarrow> int option option" where
  "findSpeechEnd_loop_JS samples endThreshold windowSamples minSilenceSamples
       maxTrailingTrimSamples trailingPaddingSamples i silentSamples previousRMS =
     (if lessEqJS (Some 0) i then
        (if lessJS maxTrailingTrimSamples silentSamples then Some (Some (int (length samples)))
         else if lessEqJS endThreshold (computeRMS_JS samples i windowSamples)
                 \<or> isDecrescendo_JS previousRMS (computeRMS_JS samples i windowSamples)
                      endThreshold
         then (if lessEqJS minSilenceSamples silentSamples
               then Some (liftJS min (Some (int (length samples)))
                            (liftJS (+) (liftJS (+) i windowSamples) trailingPaddingSamples))
               else Some (Some (int (length samples))))
         else findSpeechEnd_loop_JS samples endThreshold windowSamples minSilenceSamples
                maxTrailingTrimSamples trailingPaddingSamples
                (liftJS (-) i windowSamples) (liftJS (+) silentSamples windowSamples)
                (computeRMS_JS samples i windowSamples))
      else Some (Some (int (length samples))))"

definition findSpeechEnd_JS :: "real list \<Rightarrow> real \<Rightarrow> MergedConfig \<Rightarrow> int option option" where
  "findSpeechEnd_JS samples rate config =
     (let windowSamples = floorTimesJS rate (cfg_windowSize config);
          minSilenceSamples = floorTimesJS rate (cfg_minSilenceDuration config);
          maxTrailingTrimSamples = floorTimesJS rate (cfg_maxTrailingTrim config);
          trailingPaddingSamples = floorTimesJS rate (cfg_trailingPadding config);
          endThreshold = liftJS (*) (cfg_silenceThreshold config)
                           (cfg_endThresholdMultiplier config)
      in findSpeechEnd_loop_JS samples endThreshold windowSamples minSilenceSamples
           maxTrailingTrimSamples trailingPaddingSamples
           (liftJS (-) (Some (int (length samples))) windowSamples) (Some 0) (Some 0))"

text \<open>
  \<^verbatim>\<open>cfg.trimTrailing ? findSpeechEnd(...) : samples.length\<close>: \<^verbatim>\<open>undefined\<close> counts as
  false.
\<close>

definition speechEndOf_JS :: "real list \<Rightarrow> real \<Rightarrow> MergedConfig \<Rightarrow> int option option" where
  "speechEndOf_JS samples rate cfg =
     (if cfg_trimTrailing cfg = Some True then findSpeechEnd_JS samples rate cfg
      else Some (Some (int (length samples))))"

text \<open>
  The end of the \<^verbatim>\<open>try\<close> block, from the computation of \<^verbatim>\<open>trimmedLeadingMs\<close> on, for
  boundaries that are numbers.
\<close>

definition reencode :: "blob \<Rightarrow> AudioBuffer \<Rightarrow> real list \<Rightarrow> int \<Rightarrow> int \<Rightarrow> js_error + TrimResult" where
  "reencode audioBlob audioBuffer samples speechStart speechEnd =
     (let sampleRate = sampleRate audioBuffer;
          trimmedSamples = speechEnd - speechStart;
          leadingMs = Math_round (fl (fl (real_of_int speechStart / sampleRate) * 1000));
          trailingMs = max 0 (Math_round
            (fl (fl (real_of_int (int (length samples) - speechEnd) / sampleRate) * 1000)))
      in bindE (createBuffer (numberOfChannels audioBuffer) trimmedSamples sampleRate)
           (\<lambda>trimmedBuffer.
         bindE (copyChannels audioBuffer trimmedBuffer speechStart trimmedSamples
                  [0 ..< numberOfChannels audioBuffer])
           (\<lambda>trimmedBuffer.
         bindE (audioBufferToWav trimmedBuffer)
           (\<lambda>wavBlob.
         Inr \<lparr> blob = wavBlob, trimmedLeadingMs = leadingMs,
               trimmedTrailingMs = trailingMs \<rparr>))))"

text \<open>
  The two checks and the re-encoding. When a boundary is NaN, both checks are false,
  \<^verbatim>\<open>trimmedSamples\<close> is NaN, and \<^verbatim>\<open>createBuffer\<close>, which converts its length argument to
  an unsigned integer (NaN becomes 0), throws \<^verbatim>\<open>NotSupportedError\<close>.
\<close>

definition trimBetween_JS ::
  "blob \<Rightarrow> AudioBuffer \<Rightarrow> real list \<Rightarrow> MergedConfig \<Rightarrow> int option \<Rightarrow> int option
     \<Rightarrow> js_error + TrimResult" where
  "trimBetween_JS audioBlob audioBuffer samples cfg speechStart speechEnd =
     (let minSamples = floorTimesJS (sampleRate audioBuffer) (cfg_minAudioDuration cfg);
          trimmedSamples = liftJS (-) speechEnd speechStart
      in if lessJS trimmedSamples minSamples then Inr (passthrough audioBlob)
         else if speechStart = Some 0 \<and> speechEnd = Some (int (length samples))
         then Inr (passthrough audioBlob)
         else (case (speechStart, speechEnd) of
                 (Some s, Some e) \<Rightarrow> reencode audioBlob audioBuffer samples s e
               | _ \<Rightarrow> Inl NotSupportedError))"

definition trimSilence_try_JS ::
  "(blob \<Rightarrow> js_error + AudioBuffer) \<Rightarrow> blob \<Rightarrow> MergedConfig
     \<Rightarrow> (js_error + TrimResult) option" where
  "trimSilence_try_JS decodeAudioData audioBlob cfg =
     (case decodeAudioData audioBlob of
        Inl e \<Rightarrow> Some (Inl e)
      | Inr audioBuffer \<Rightarrow>
          (case monoSamples audioBuffer of
             Inl e \<Rightarrow> Some (Inl e)
           | Inr samples \<Rightarrow>
               (case findSpeechStart_JS samples (sampleRate audioBuffer) cfg of
                  None \<Rightarrow> None
                | Some speechStart \<Rightarrow>
                    (case speechEndOf_JS samples (sampleRate audioBuffer) cfg of
                       None \<Rightarrow> None
                     | Some speechEnd \<Rightarrow>
                         Some (trimBetween_JS audioBlob audioBuffer samples cfg
                                 speechStart speechEnd)))))"

definition trimSilence_JS ::
  "(blob \<Rightarrow> js_error + AudioBuffer) \<Rightarrow> blob \<Rightarrow> TrimConfigObject \<Rightarrow> TrimResult option" where
  "trimSilence_JS decodeAudioData audioBlob config =
     (case trimSilence_try_JS decodeAudioData audioBlob (spreadObject DEFAULT_CONFIG config) of
        None \<Rightarrow> None
      | Some (Inl err) \<Rightarrow> Some (passthrough audioBlob)
      | Some (Inr result) \<Rightarrow> Some result)"

text \<open>
  The merged configurations that hold numbers, as a \<open>RequiredTrimConfig\<close>; a
  \<^verbatim>\<open>trimTrailing\<close> that is \<^verbatim>\<open>undefined\<close> counts as false. And the configuration object
  of a \<open>TrimConfig\<close>.
\<close>

definition numbers :: "MergedConfig \<Rightarrow> RequiredTrimConfig option" where
  "numbers m =
     (case (cfg_silenceThreshold m, cfg_endThresholdMultiplier m, cfg_windowSize m,
            cfg_minSilenceDuration m, cfg_maxLeadingTrim m, cfg_maxTrailingTrim m,
            cfg_trailingPadding m, cfg_minAudioDuration m) of
        (Some st, Some etm, Some ws, Some msd, Some mlt, Some mtt, Some tp, Some mad) \<Rightarrow>
          Some \<lparr> silenceThreshold = st, endThresholdMultiplier = etm, windowSize = ws,
                 minSilenceDuration = msd, trimTrailing = (cfg_trimTrailing m = Some True),
                 maxLeadingTrim = mlt, maxTrailingTrim = mtt, trailingPadding = tp,
                 minAudioDuration = mad \<rparr>
      | _ \<Rightarrow> None)"

definition propertyOf :: "'a option \<Rightarrow> 'a property" where
  "propertyOf given = (case given of None \<Rightarrow> Absent | Some v \<Rightarrow> Value v)"

definition objectOf :: "TrimConfig \<Rightarrow> TrimConfigObject" where
  "objectOf config =
     \<lparr> prop_silenceThreshold = propertyOf (opt_silenceThreshold config),
       prop_endThresholdMultiplier = propertyOf (opt_endThresholdMultiplier config),
       prop_windowSize = propertyOf (opt_windowSize config),
       prop_minSilenceDuration = propertyOf (opt_minSilenceDuration config),
       prop_trimTrailing = propertyOf (opt_trimTrailing config),
       prop_maxLeadingTrim = propertyOf (opt_maxLeadingTrim config),
       prop_maxTrailingTrim = propertyOf (opt_maxTrailingTrim config),
       prop_trailingPadding = propertyOf (opt_trailingPadding config),
       prop_minAudioDuration = propertyOf (opt_minAudioDuration config) \<rparr>"


section \<open>Text similarity and the segment buffer\<close>

text \<open>
  Embedding of the text helpers and of the result handler of the speech recognition hook
  \<^verbatim>\<open>useBrowserAdaptiveSpeechRecognition\<close>. A JavaScript string is a \<^typ>\<open>string\<close>: a list
  of code units below 256, the characters U+0000 to U+00FF (strings with other characters
  have no counterpart). On these, \<^verbatim>\<open>toLowerCase\<close> maps \<open>A\<close>-\<open>Z\<close> (65-90) and the
  accented capitals U+00C0-U+00DE, the multiplication sign U+00D7 apart, to the character 32
  places further, and leaves every other character unchanged; the white space of
  \<^verbatim>\<open>trim\<close> and of the pattern \<^verbatim>\<open>\s\<close> is tab, line feed, vertical tab, form feed,
  carriage return, space and the no-break space U+00A0.
\<close>

definition isUpperCase :: "char \<Rightarrow> bool" where
  "isUpperCase c \<longleftrightarrow>
     (65 \<le> (of_char c :: nat) \<and> (of_char c :: nat) \<le> 90)
     \<or> (192 \<le> (of_char c :: nat) \<and> (of_char c :: nat) \<le> 222 \<and> (of_char c :: nat) \<noteq> 215)"

definition toLowerChar :: "char \<Rightarrow> char" where
  "toLowerChar c = (if isUpperCase c then char_of ((of_char c :: nat) + 32) else c)"

definition toLowerCase :: "string \<Rightarrow> string" where
  "toLowerCase text = map toLowerChar text"

definition isWhitespace :: "char \<Rightarrow> bool" where
  "isWhitespace c \<longleftrightarrow> (of_char c :: nat) \<in> {9, 10, 11, 12, 13, 32, 160}"

definition trim :: "string \<Rightarrow> string" where
  "trim text = rev (dropWhile isWhitespace (rev (dropWhile isWhitespace text)))"

text \<open>The character class \<^verbatim>\<open>[.,!?;:'"]\<close>.\<close>

definition isPunctuation :: "char \<Rightarrow> bool" where
  "isPunctuation c \<longleftrightarrow> (of_char c :: nat) \<in> {46, 44, 33, 63, 59, 58, 39, 34}"

text \<open>\<^verbatim>\<open>replace(/\s+/g, ' ')\<close>: every maximal run of white space becomes one space.\<close>

function collapseWhitespace :: "string \<Rightarrow> string" where
  "collapseWhitespace [] = []"
| "collapseWhitespace (c # cs) =
     (if isWhitespace c then CHR '' '' # collapseWhitespace (dropWhile isWhitespace cs)
      else c # collapseWhitespace cs)"
  by pat_completeness auto
termination
  by (relation "measure length") (auto simp: length_dropWhile_le less_Suc_eq_le)

definition normalizeForComparison :: "string \<Rightarrow> string" where
  "normalizeForComparison text =
     collapseWhitespace (filter (\<lambda>c. \<not> isPunctuation c) (trim (toLowerCase text)))"

text \<open>\<^verbatim>\<open>s.includes(t)\<close>: \<open>t\<close> occurs in \<open>s\<close> at some position.\<close>

fun str_includes :: "string \<Rightarrow> string \<Rightarrow> bool" where
  "str_includes [] t \<longleftrightarrow> t = []"
| "str_includes (c # s) t \<longleftrightarrow> prefix t (c # s) \<or> str_includes s t"

definition areSimilarTexts :: "string \<Rightarrow> string \<Rightarrow> bool" where
  "areSimilarTexts text1 text2 =
     (let norm1 = normalizeForComparison text1;
          norm2 = normalizeForComparison text2
      in if norm1 = norm2 then True
         else if str_includes norm1 norm2 \<or> str_includes norm2 norm1 then
           (let shorter = (if length norm1 < length norm2 then norm1 else norm2);
                longer = (if length norm1 \<ge> length norm2 then norm1 else norm2)
            in if real (length shorter) / real (length longer) > 0.8 then True else False)
         else False)"

text \<open>
  \<^verbatim>\<open>split(' ')\<close> (never the empty array), \<^verbatim>\<open>join(' ')\<close>, \<^verbatim>\<open>array.slice(-n)\<close>
  for \<open>n > 0\<close>, and \<^verbatim>\<open>string.slice(-n)\<close>, where \<^verbatim>\<open>slice(-0)\<close> is the whole string.
\<close>

fun splitSpace :: "string \<Rightarrow> string list" where
  "splitSpace [] = [[]]"
| "splitSpace (c # cs) =
     (if c = CHR '' '' then [] # splitSpace cs
      else (case splitSpace cs of [] \<Rightarrow> [[c]] | w # ws \<Rightarrow> (c # w) # ws))"

fun joinSpace :: "string list \<Rightarrow> string" where
  "joinSpace [] = []"
| "joinSpace [w] = w"
| "joinSpace (w # ws) = w @ CHR '' '' # joinSpace ws"

definition sliceLast :: "nat \<Rightarrow> 'a list \<Rightarrow> 'a list" where
  "sliceLast n xs = drop (length xs - n) xs"

definition stringSliceNeg :: "nat \<Rightarrow> string \<Rightarrow> string" where
  "stringSliceNeg n s = (if n = 0 then s else drop (length s - n) s)"

text \<open>
  The loop of \<^verbatim>\<open>getOverlapWithLastSegment\<close> over the prefix lengths
  \<open>i = 1, \<dots>, min 5 (length newWords - 1)\<close>.
\<close>

function getOverlap_loop :: "string \<Rightarrow> string \<Rightarrow> string list \<Rightarrow> nat \<Rightarrow> bool \<times> string" where
  "getOverlap_loop newText lastWords newWords i =
     (if int i \<le> min 5 (int (length newWords) - 1) then
        (let prefixStr = joinSpace (take i newWords)
         in if str_includes lastWords prefixStr
               \<or> str_includes prefixStr (stringSliceNeg (length prefixStr) lastWords)
            then (let trimmed = trim (joinSpace (drop i newWords))
                  in if length trimmed > 0 then (True, trimmed)
                     else getOverlap_loop newText lastWords newWords (i + 1))
            else getOverlap_loop newText lastWords newWords (i + 1))
      else (False, newText))"
  by pat_completeness auto
termination
  by (relation "measure (\<lambda>(newText, lastWords, newWords, i). 6 - i)") auto

definition getOverlapWithLastSegment :: "string \<Rightarrow> string \<Rightarrow> bool \<times> string" where
  "getOverlapWithLastSegment newText lastSegment =
     (if lastSegment = [] \<or> newText = [] then (False, newText)
      else
        (let normNew = normalizeForComparison newText;
             normLast = normalizeForComparison lastSegment;
             lastWords = joinSpace (sliceLast 5 (splitSpace normLast));
             newWords = splitSpace normNew
         in getOverlap_loop newText lastWords newWords 1))"

text \<open>
  The refs of the hook that hold the transcript: the append-only segment list, the memo of
  the last accepted final text, the latest and the pending interim text, the word list and
  the word counter. (Timers, failure counters and the pause tracker are left out: the
  transcript does not depend on them.)
\<close>

record TranscriptRefs =
  isRecording :: bool
  finalSegments :: "string list"
  lastFinalText :: string
  latestInterim :: string
  pendingInterim :: string
  wordIdCounter :: nat
  words :: "(string \<times> nat) list"

text \<open>One entry of the event's result list: its best transcript and its final flag.\<close>

record SpeechResult =
  transcript :: string
  isFinal :: bool

text \<open>\<^verbatim>\<open>split(/\s+/).filter(w => w.length > 0)\<close>: the words of a text.\<close>

function splitWords :: "string \<Rightarrow> string list" where
  "splitWords text =
     (let rest = dropWhile isWhitespace text
      in if rest = [] then []
         else takeWhile (\<lambda>c. \<not> isWhitespace c) rest
              # splitWords (dropWhile (\<lambda>c. \<not> isWhitespace c) rest))"
  by pat_completeness auto
termination
proof (relation "measure length")
  show "wf (measure length)" by simp
next
  fix s :: string and rest
  assume r: "rest = dropWhile isWhitespace s" and ne: "rest \<noteq> []"
  then obtain c cs where cs: "rest = c # cs" and c: "\<not> isWhitespace c"
    by (metis hd_dropWhile list.exhaust_sel)
  have "length (dropWhile (\<lambda>c. \<not> isWhitespace c) rest) \<le> length cs"
    using cs c by (simp add: length_dropWhile_le)
  moreover have "length rest \<le> length s"
    using r by (simp add: length_dropWhile_le)
  ultimately show "(dropWhile (\<lambda>c. \<not> isWhitespace c) rest, s) \<in> measure length"
    using cs by simp
qed

text \<open>
  The body of the result loop of \<^verbatim>\<open>handleResult\<close> for one result: a final result is
  dropped when it is similar to the last accepted final text, and is appended (after the
  overlap with the last segment is cut off) otherwise; an interim result only replaces the
  latest interim text.
\<close>

definition handleResult_step :: "SpeechResult \<Rightarrow> TranscriptRefs \<Rightarrow> TranscriptRefs" where
  "handleResult_step result refs =
     (if isFinal result then
        (let trimmed = trim (transcript result);
             refs = refs\<lparr>pendingInterim := [], latestInterim := []\<rparr>
         in if areSimilarTexts trimmed (lastFinalText refs) then refs
            else if length trimmed > 0 then
              (let lastSegment =
                     (if finalSegments refs = [] then [] else last (finalSegments refs));
                   (hasOverlap, trimmedText) = getOverlapWithLastSegment trimmed lastSegment;
                   textToAdd = (if hasOverlap then trimmedText else trimmed)
               in if length textToAdd > 0 then
                    (let finalWords = splitWords textToAdd
                     in refs\<lparr>lastFinalText := trimmed,
                             finalSegments := finalSegments refs @ [textToAdd],
                             words := words refs
                               @ zip finalWords
                                   [wordIdCounter refs ..<
                                      wordIdCounter refs + length finalWords],
                             wordIdCounter := wordIdCounter refs + length finalWords\<rparr>)
                  else refs)
            else refs)
      else refs\<lparr>latestInterim := transcript result\<rparr>)"

text \<open>
  \<^verbatim>\<open>handleResult\<close>: nothing happens while not recording; otherwise the results of the
  event, from \<^verbatim>\<open>resultIndex\<close> on, are handled in order.
\<close>

definition handleResult :: "SpeechResult list \<Rightarrow> TranscriptRefs \<Rightarrow> TranscriptRefs" where
  "handleResult results refs =
     (if \<not> isRecording refs then refs else fold handleResult_step results refs)"


section \<open>Notions used to state the properties\<close>

text \<open>
  The backward scan of \<^verbatim>\<open>findSpeechEnd\<close>, iteration by iteration: in iteration \<open>j\<close>
  (the first is \<open>j = 0\<close>) the loop variable \<open>i\<close> is \<open>scanStart j\<close>, the window examined is
  \<open>scanStart j \<le> index < scanStart j + w\<close>, \<open>silentSamples\<close> is \<open>j * w\<close>, and
  \<open>previousRMS\<close> is 0 in the first iteration and the RMS of the window of iteration
  \<open>j - 1\<close> afterwards. \<open>scanStops\<close> is the condition under which the loop body returns.
\<close>

definition scanStart :: "real list \<Rightarrow> int \<Rightarrow> nat \<Rightarrow> int" where
  "scanStart samples w j = int (length samples) - w - int j * w"

definition scanRMS :: "real list \<Rightarrow> int \<Rightarrow> nat \<Rightarrow> real" where
  "scanRMS samples w j = computeRMS samples (scanStart samples w j) w"

definition scanPrevious :: "real list \<Rightarrow> int \<Rightarrow> nat \<Rightarrow> real" where
  "scanPrevious samples w j = (if j = 0 then 0 else scanRMS samples w (j - 1))"

definition scanStops :: "real list \<Rightarrow> real \<Rightarrow> int \<Rightarrow> nat \<Rightarrow> bool" where
  "scanStops samples endThreshold w j \<longleftrightarrow>
     endThreshold \<le> scanRMS samples w j
     \<or> isDecrescendo (scanPrevious samples w j) (scanRMS samples w j) endThreshold"

text \<open>
  The decrescendo exception in the words of the specification: the RMS of the window is
  below the RMS of the window scanned before it by more than 20 percent, and above 30 percent
  of the end threshold. A window ends the silence run when it reaches the end threshold or
  is fading speech in this sense.
\<close>

definition fadingSpeech :: "real \<Rightarrow> real \<Rightarrow> real \<Rightarrow> bool" where
  "fadingSpeech previous rms endThreshold \<longleftrightarrow>
     rms < previous - 0.2 * previous \<and> 0.3 * endThreshold < rms"

definition speechOrFading :: "real list \<Rightarrow> real \<Rightarrow> int \<Rightarrow> nat \<Rightarrow> bool" where
  "speechOrFading samples endThreshold w j \<longleftrightarrow>
     endThreshold \<le> scanRMS samples w j
     \<or> (0 < j \<and> fadingSpeech (scanRMS samples w (j - 1)) (scanRMS samples w j) endThreshold)"

text \<open>
  Reading a WAV file back: \<^verbatim>\<open>getUint16\<close> and \<^verbatim>\<open>getUint32\<close> in little-endian byte
  order, and the layout of the 44 header bytes and of the sample data.
\<close>

definition readUint16 :: "8 word list \<Rightarrow> nat \<Rightarrow> int" where
  "readUint16 bytes offset = uint (bytes ! offset) + 256 * uint (bytes ! (offset + 1))"

definition readUint32 :: "8 word list \<Rightarrow> nat \<Rightarrow> int" where
  "readUint32 bytes offset =
     uint (bytes ! offset) + 256 * uint (bytes ! (offset + 1))
     + 65536 * uint (bytes ! (offset + 2)) + 16777216 * uint (bytes ! (offset + 3))"

text \<open>A little-endian word of sixteen bits read as a signed number.\<close>

definition readInt16 :: "8 word list \<Rightarrow> nat \<Rightarrow> int" where
  "readInt16 bytes offset =
     (if readUint16 bytes offset < 32768 then readUint16 bytes offset
      else readUint16 bytes offset - 65536)"

text \<open>
  The sixteen-bit value of a sample in the words of the specification: the sample is clamped
  to \<open>[-1, 1]\<close>, a negative value is scaled by \<open>0x8000\<close> and any other by \<open>0x7fff\<close>, and
  the integer part is kept.
\<close>

definition pcm16 :: "real \<Rightarrow> int" where
  "pcm16 x =
     (let clamped = (if x < - 1 then - 1 else if 1 < x then 1 else x)
      in if clamped < 0 then \<lceil>clamped * 32768\<rceil> else \<lfloor>clamped * 32767\<rfloor>)"

definition charCodes :: "string \<Rightarrow> 8 word list" where
  "charCodes str = map (\<lambda>c. ToUint8 (real (of_char c))) str"

definition wavHeader :: "AudioBuffer \<Rightarrow> 8 word list" where
  "wavHeader buffer =
     charCodes ''RIFF''
     @ le32 (ToUint32 (real (44 + frameCount buffer * (numberOfChannels buffer * 2)) - 8))
     @ charCodes ''WAVE''
     @ charCodes ''fmt ''
     @ le32 (ToUint32 16)
     @ le16 (ToUint16 1)
     @ le16 (ToUint16 (real (numberOfChannels buffer)))
     @ le32 (ToUint32 (sampleRate buffer))
     @ le32 (ToUint32 (fl (sampleRate buffer * real (numberOfChannels buffer * 2))))
     @ le16 (ToUint16 (real (numberOfChannels buffer * 2)))
     @ le16 (ToUint16 16)
     @ charCodes ''data''
     @ le32 (ToUint32 (real (frameCount buffer * (numberOfChannels buffer * 2))))"

definition wavData :: "AudioBuffer \<Rightarrow> 8 word list" where
  "wavData buffer = concat (map (\<lambda>x. le16 (ToInt16 (intSample x))) (interleaved buffer))"

text \<open>
  The fuzzy-duplicate predicate in the words of the specification: the normalized texts
  are equal, or one contains the other as a substring and the length of the shorter is more
  than 80 percent of the length of the longer.
\<close>

definition fuzzyDuplicate :: "string \<Rightarrow> string \<Rightarrow> bool" where
  "fuzzyDuplicate a b \<longleftrightarrow>
     normalizeForComparison a = normalizeForComparison b
     \<or> ((sublist (normalizeForComparison a) (normalizeForComparison b)
          \<or> sublist (normalizeForComparison b) (normalizeForComparison a))
        \<and> real (min (length (normalizeForComparison a)) (length (normalizeForComparison b)))
            > 0.8 * real (max (length (normalizeForComparison a))
                              (length (normalizeForComparison b))))"

text \<open>A finalized result with the given transcript.\<close>

definition finalResult :: "string \<Rightarrow> SpeechResult" where
  "finalResult t = \<lparr> transcript = t, isFinal = True \<rparr>"

text \<open>
  The resets of the transcript refs in \<^verbatim>\<open>startListening\<close>, and the refs of a hook that
  has not recorded yet.
\<close>

definition startListening :: "TranscriptRefs \<Rightarrow> TranscriptRefs" where
  "startListening refs =
     refs\<lparr> isRecording := True, wordIdCounter := 0, finalSegments := [],
           lastFinalText := [], pendingInterim := [] \<rparr>"

definition idleRefs :: TranscriptRefs where
  "idleRefs = \<lparr> isRecording = False, finalSegments = [], lastFinalText = [],
                latestInterim = [], pendingInterim = [], wordIdCounter = 0, words = [] \<rparr>"

declare splitWords.simps [simp del]
declare getOverlap_loop.simps [simp del]

section \<open>Double arithmetic\<close>

lemma fl_0 [simp]: "fl 0 = 0"
  by (simp add: fl_def)

text \<open>The exponent is that of the binade of \<open>x\<close>.\<close>

lemma powi_nat: "0 \<le> b \<Longrightarrow> (2 :: real) powi b = 2 ^ nat b"
  by (simp add: power_int_def)

lemma powi_neg: "0 \<le> b \<Longrightarrow> (2 :: real) powi (- b) = 1 / 2 ^ nat b"
  by (simp add: power_int_def field_simps)

lemma exponent_bounds:
  assumes "x \<noteq> 0"
  shows "2 powi exponent x \<le> \<bar>x\<bar> \<and> \<bar>x\<bar> < 2 powi (exponent x + 1)"
proof (cases "1 \<le> \<bar>x\<bar>")
  case True
  define n where "n = \<lfloor>\<bar>x\<bar>\<rfloor>"
  define b where "b = bitlen n"
  have n: "0 < n" using True unfolding n_def by linarith
  have b: "1 \<le> b" using n bitlen_eq_zero_iff[of n] bitlen_nonneg[of n] unfolding b_def by linarith
  have bb: "2 ^ nat (b - 1) \<le> n" "n < 2 ^ nat b"
    using bitlen_bounds[OF n] unfolding b_def by simp_all
  have e: "exponent x = b - 1" using True by (simp add: exponent_def n_def b_def)
  have "(2 :: real) ^ nat (b - 1) \<le> real_of_int n"
    using bb(1) by (metis of_int_le_iff of_int_numeral of_int_power)
  also have "\<dots> \<le> \<bar>x\<bar>" unfolding n_def by linarith
  finally have lo: "2 powi (b - 1) \<le> \<bar>x\<bar>" using b by (simp add: powi_nat)
  have "n + 1 \<le> 2 ^ nat b" using bb(2) by linarith
  then have "real_of_int (n + 1) \<le> (2 :: real) ^ nat b"
    by (metis of_int_le_iff of_int_numeral of_int_power)
  moreover have "\<bar>x\<bar> < real_of_int (n + 1)" unfolding n_def by linarith
  ultimately have "\<bar>x\<bar> < 2 ^ nat b" by linarith
  then have hi: "\<bar>x\<bar> < 2 powi b" using b by (simp add: powi_nat)
  show ?thesis using lo hi unfolding e by simp
next
  case False
  define y where "y = 1 / \<bar>x\<bar>"
  define m where "m = \<lceil>y\<rceil> - 1"
  define b where "b = bitlen m"
  have x: "0 < \<bar>x\<bar>" "\<bar>x\<bar> < 1" using assms False by simp_all
  have y: "1 < y" unfolding y_def using x by simp
  have m: "0 < m" unfolding m_def using y by linarith
  have b: "1 \<le> b" using m bitlen_eq_zero_iff[of m] bitlen_nonneg[of m] unfolding b_def by linarith
  have bb: "2 ^ nat (b - 1) \<le> m" "m < 2 ^ nat b"
    using bitlen_bounds[OF m] unfolding b_def by simp_all
  have e: "exponent x = - b" using False by (simp add: exponent_def y_def m_def b_def)
  have "m + 1 \<le> 2 ^ nat b" using bb(2) by linarith
  then have "real_of_int (m + 1) \<le> (2 :: real) ^ nat b"
    by (metis of_int_le_iff of_int_numeral of_int_power)
  moreover have "y \<le> real_of_int (m + 1)" unfolding m_def by simp
  ultimately have "y \<le> 2 ^ nat b" by linarith
  then have "1 / 2 ^ nat b \<le> \<bar>x\<bar>"
    unfolding y_def using x by (simp add: field_simps)
  then have lo: "2 powi (- b) \<le> \<bar>x\<bar>" using b by (simp add: powi_neg)
  have "(2 :: real) ^ nat (b - 1) \<le> real_of_int m"
    using bb(1) by (metis of_int_le_iff of_int_numeral of_int_power)
  moreover have "real_of_int m < y" unfolding m_def by linarith
  ultimately have "2 ^ nat (b - 1) < y" by linarith
  then have "\<bar>x\<bar> < 1 / 2 ^ nat (b - 1)"
    unfolding y_def using x by (simp add: field_simps)
  then have "\<bar>x\<bar> < 2 powi (- (b - 1))" using b powi_neg[of "b - 1"] by simp
  then have hi: "\<bar>x\<bar> < 2 powi (- b + 1)" by (simp add: algebra_simps)
  show ?thesis using lo hi unfolding e by simp
qed

lemma binade_unique:
  assumes "2 powi a \<le> (y :: real)" "y < 2 powi (a + 1)" "2 powi b \<le> y" "y < 2 powi (b + 1)"
  shows "a = b"
proof (rule ccontr)
  assume "a \<noteq> b"
  then consider "a + 1 \<le> b" | "b + 1 \<le> a" by linarith
  then show False
  proof cases
    case 1
    then have "(2 :: real) powi (a + 1) \<le> 2 powi b" by (intro power_int_increasing) simp_all
    then show False using assms(2,3) by linarith
  next
    case 2
    then have "(2 :: real) powi (b + 1) \<le> 2 powi a" by (intro power_int_increasing) simp_all
    then show False using assms(1,4) by linarith
  qed
qed

text \<open>The double nearest to \<open>x\<close>, from the binade of \<open>x\<close>.\<close>

lemma fl_eqI:
  assumes "2 powi k \<le> \<bar>x\<bar>" and "\<bar>x\<bar> < 2 powi (k + 1)"
    and "roundTiesToEven (x / 2 powi (k - 52)) = m"
  shows "fl x = real_of_int m * 2 powi (k - 52)"
proof -
  have "0 < \<bar>x\<bar>" using assms(1) by (smt (verit) zero_less_power_int)
  then have nz: "x \<noteq> 0" by simp
  have "exponent x = k"
    using exponent_bounds[OF nz] assms(1,2) by (intro binade_unique[of _ "\<bar>x\<bar>"]) simp_all
  then show ?thesis using nz assms(3) by (simp add: fl_def Let_def)
qed

lemma fl_nonneg:
  assumes "0 \<le> x"
  shows "0 \<le> fl x"
proof (cases "x = 0")
  case True
  then show ?thesis by simp
next
  case False
  let ?e = "exponent x - 52"
  have "0 \<le> x / 2 powi ?e" using assms by simp
  then have "0 \<le> \<lfloor>x / 2 powi ?e\<rfloor>" by simp
  then have "0 \<le> roundTiesToEven (x / 2 powi ?e)"
    by (simp add: roundTiesToEven_def Let_def)
  then show ?thesis using False by (simp add: fl_def Let_def)
qed

text \<open>Integers below \<open>2^53\<close> in magnitude are doubles.\<close>

lemma roundTiesToEven_of_int [simp]: "roundTiesToEven (real_of_int n) = n"
  by (simp add: roundTiesToEven_def)

lemma fl_of_int:
  assumes "\<bar>n\<bar> < 2 ^ 53"
  shows "fl (real_of_int n) = real_of_int n"
proof (cases "n = 0")
  case True
  then show ?thesis by (simp add: fl_def)
next
  case False
  define e where "e = exponent (real_of_int n) - 52"
  have nz: "real_of_int n \<noteq> 0" using False by simp
  have "\<bar>real_of_int n\<bar> < 2 ^ 53"
    using assms by (metis of_int_abs of_int_less_numeral_power_cancel_iff)
  then have "2 powi exponent (real_of_int n) < (2 :: real) powi 53"
    using exponent_bounds[OF nz] by simp
  then have "exponent (real_of_int n) < 53"
    by (smt (verit) power_int_increasing)
  then have "e \<le> 0" unfolding e_def by linarith
  then obtain j where j: "e = - int j" by (metis nonpos_int_cases)
  have "real_of_int n / 2 powi e = real_of_int (n * 2 ^ j)"
    unfolding j by (simp add: power_int_minus field_simps)
  then have "roundTiesToEven (real_of_int n / 2 powi e) = n * 2 ^ j"
    by (simp del: of_int_mult of_int_power)
  then have "fl (real_of_int n) = real_of_int (n * 2 ^ j) * 2 powi e"
    using False by (simp add: fl_def e_def[symmetric] Let_def del: of_int_mult of_int_power)
  also have "\<dots> = real_of_int n" unfolding j by (simp add: power_int_minus field_simps)
  finally show ?thesis .
qed

text \<open>
  The defaults as doubles, and the sample counts of the default durations at 8000 Hz and
  at 44100 Hz.
\<close>

lemma silenceThreshold_default: "silenceThreshold DEFAULT_CONFIG = 5764607523034235 / 576460752303423488"
proof -
  have "fl 0.01 = 5764607523034235 / 576460752303423488"
    by (rule fl_eqI[where k = "- 7" and m = 5764607523034235, THEN trans])
       (simp_all add: roundTiesToEven_def power_int_minus Let_def)
  then show ?thesis by (simp add: DEFAULT_CONFIG_def)
qed

lemma endThresholdMultiplier_default: "endThresholdMultiplier DEFAULT_CONFIG = 5404319552844595 / 9007199254740992"
proof -
  have "fl 0.6 = 5404319552844595 / 9007199254740992"
    by (rule fl_eqI[where k = "- 1" and m = 5404319552844595, THEN trans])
       (simp_all add: roundTiesToEven_def power_int_minus Let_def)
  then show ?thesis by (simp add: DEFAULT_CONFIG_def)
qed

lemma windowSize_default: "windowSize DEFAULT_CONFIG = 3602879701896397 / 72057594037927936"
proof -
  have "fl 0.05 = 3602879701896397 / 72057594037927936"
    by (rule fl_eqI[where k = "- 5" and m = 7205759403792794, THEN trans])
       (simp_all add: roundTiesToEven_def power_int_minus Let_def)
  then show ?thesis by (simp add: DEFAULT_CONFIG_def)
qed

lemma minSilenceDuration_default: "minSilenceDuration DEFAULT_CONFIG = 3602879701896397 / 18014398509481984"
proof -
  have "fl 0.2 = 3602879701896397 / 18014398509481984"
    by (rule fl_eqI[where k = "- 3" and m = 7205759403792794, THEN trans])
       (simp_all add: roundTiesToEven_def power_int_minus Let_def)
  then show ?thesis by (simp add: DEFAULT_CONFIG_def)
qed

lemma trailingPadding_default: "trailingPadding DEFAULT_CONFIG = 3152519739159347 / 9007199254740992"
proof -
  have "fl 0.35 = 3152519739159347 / 9007199254740992"
    by (rule fl_eqI[where k = "- 2" and m = 6305039478318694, THEN trans])
       (simp_all add: roundTiesToEven_def power_int_minus Let_def)
  then show ?thesis by (simp add: DEFAULT_CONFIG_def)
qed

lemma maxLeadingTrim_default: "maxLeadingTrim DEFAULT_CONFIG = 3"
  by (simp add: DEFAULT_CONFIG_def)

lemma maxTrailingTrim_default: "maxTrailingTrim DEFAULT_CONFIG = 8"
  by (simp add: DEFAULT_CONFIG_def)

lemma minAudioDuration_default: "minAudioDuration DEFAULT_CONFIG = 1"
  by (simp add: DEFAULT_CONFIG_def)

lemma windowSize_8000: "\<lfloor>fl (8000 * windowSize DEFAULT_CONFIG)\<rfloor> = 400"
proof -
  have v: "fl (8000 * windowSize DEFAULT_CONFIG) = 400"
    unfolding windowSize_default
    by (rule fl_eqI[where k = 8 and m = 7036874417766400, THEN trans])
       (simp_all add: roundTiesToEven_def power_int_minus Let_def)
  show ?thesis unfolding v by simp
qed

lemma minSilenceDuration_8000: "\<lfloor>fl (8000 * minSilenceDuration DEFAULT_CONFIG)\<rfloor> = 1600"
proof -
  have v: "fl (8000 * minSilenceDuration DEFAULT_CONFIG) = 1600"
    unfolding minSilenceDuration_default
    by (rule fl_eqI[where k = 10 and m = 7036874417766400, THEN trans])
       (simp_all add: roundTiesToEven_def power_int_minus Let_def)
  show ?thesis unfolding v by simp
qed

lemma maxLeadingTrim_8000: "\<lfloor>fl (8000 * maxLeadingTrim DEFAULT_CONFIG)\<rfloor> = 24000"
proof -
  have v: "fl (8000 * maxLeadingTrim DEFAULT_CONFIG) = 24000"
    unfolding maxLeadingTrim_default
    by (rule fl_eqI[where k = 14 and m = 6597069766656000, THEN trans])
       (simp_all add: roundTiesToEven_def power_int_minus Let_def)
  show ?thesis unfolding v by simp
qed

lemma maxTrailingTrim_8000: "\<lfloor>fl (8000 * maxTrailingTrim DEFAULT_CONFIG)\<rfloor> = 64000"
proof -
  have v: "fl (8000 * maxTrailingTrim DEFAULT_CONFIG) = 64000"
    unfolding maxTrailingTrim_default
    by (rule fl_eqI[where k = 15 and m = 8796093022208000, THEN trans])
       (simp_all add: roundTiesToEven_def power_int_minus Let_def)
  show ?thesis unfolding v by simp
qed

lemma trailingPadding_8000: "\<lfloor>fl (8000 * trailingPadding DEFAULT_CONFIG)\<rfloor> = 2800"
proof -
  have v: "fl (8000 * trailingPadding DEFAULT_CONFIG) = 2800"
    unfolding trailingPadding_default
    by (rule fl_eqI[where k = 11 and m = 6157265115545600, THEN trans])
       (simp_all add: roundTiesToEven_def power_int_minus Let_def)
  show ?thesis unfolding v by simp
qed

lemma minAudioDuration_8000: "\<lfloor>fl (8000 * minAudioDuration DEFAULT_CONFIG)\<rfloor> = 8000"
proof -
  have v: "fl (8000 * minAudioDuration DEFAULT_CONFIG) = 8000"
    unfolding minAudioDuration_default
    by (rule fl_eqI[where k = 12 and m = 8796093022208000, THEN trans])
       (simp_all add: roundTiesToEven_def power_int_minus Let_def)
  show ?thesis unfolding v by simp
qed

lemma windowSize_44100: "\<lfloor>fl (44100 * windowSize DEFAULT_CONFIG)\<rfloor> = 2205"
proof -
  have v: "fl (44100 * windowSize DEFAULT_CONFIG) = 2205"
    unfolding windowSize_default
    by (rule fl_eqI[where k = 11 and m = 4848846278492160, THEN trans])
       (simp_all add: roundTiesToEven_def power_int_minus Let_def)
  show ?thesis unfolding v by simp
qed

lemma minSilenceDuration_44100: "\<lfloor>fl (44100 * minSilenceDuration DEFAULT_CONFIG)\<rfloor> = 8820"
proof -
  have v: "fl (44100 * minSilenceDuration DEFAULT_CONFIG) = 8820"
    unfolding minSilenceDuration_default
    by (rule fl_eqI[where k = 13 and m = 4848846278492160, THEN trans])
       (simp_all add: roundTiesToEven_def power_int_minus Let_def)
  show ?thesis unfolding v by simp
qed

lemma maxTrailingTrim_44100: "\<lfloor>fl (44100 * maxTrailingTrim DEFAULT_CONFIG)\<rfloor> = 352800"
proof -
  have v: "fl (44100 * maxTrailingTrim DEFAULT_CONFIG) = 352800"
    unfolding maxTrailingTrim_default
    by (rule fl_eqI[where k = 18 and m = 6061057848115200, THEN trans])
       (simp_all add: roundTiesToEven_def power_int_minus Let_def)
  show ?thesis unfolding v by simp
qed

lemma trailingPadding_44100: "\<lfloor>fl (44100 * trailingPadding DEFAULT_CONFIG)\<rfloor> = 15434"
proof -
  have v: "fl (44100 * trailingPadding DEFAULT_CONFIG) = 8485480987361279 / 549755813888"
    unfolding trailingPadding_default
    by (rule fl_eqI[where k = 13 and m = 8485480987361279, THEN trans])
       (simp_all add: roundTiesToEven_def power_int_minus Let_def)
  show ?thesis unfolding v by simp
qed

lemmas samples_8000 = windowSize_8000 minSilenceDuration_8000 maxLeadingTrim_8000 maxTrailingTrim_8000 trailingPadding_8000 minAudioDuration_8000

lemmas samples_44100 = windowSize_44100 minSilenceDuration_44100 maxTrailingTrim_44100 trailingPadding_44100

lemmas amplitude_defaults = silenceThreshold_default endThresholdMultiplier_default

lemma trimTrailing_default: "trimTrailing DEFAULT_CONFIG = False"
  by (simp add: DEFAULT_CONFIG_def)

lemmas defaults_8000 = samples_8000 amplitude_defaults trimTrailing_default

text \<open>Sample 1800 at 8000 Hz, in milliseconds: \<open>(1800 / 8000) * 1000\<close> in doubles.\<close>

lemma ms_1800_8000: "fl (fl (9 / 40) * 1000) = 225"
proof -
  have q: "fl (9 / 40) = 8106479329266893 / 36028797018963968"
    by (rule fl_eqI[where k = "- 3" and m = 8106479329266893, THEN trans])
       (simp_all add: roundTiesToEven_def power_int_minus Let_def)
  show ?thesis unfolding q
    by (rule fl_eqI[where k = 7 and m = 7916483719987200, THEN trans])
       (simp_all add: roundTiesToEven_def power_int_minus Let_def)
qed

section \<open>Window energy\<close>

lemma sum_squares_nonneg: "0 \<le> sum_list (map (\<lambda>x. x * x) (xs :: real list))"
  by (rule sum_list_nonneg) auto

lemma computeRMS_nonneg: "0 \<le> computeRMS samples start len"
  unfolding computeRMS_def Let_def
  by (auto intro!: divide_nonneg_pos sum_squares_nonneg real_sqrt_ge_zero simp del: of_int_diff)

text \<open>A window of constant amplitude, and a window inside a run of zeros at the end.\<close>

lemma computeRMS_constant:
  assumes "0 \<le> start" "0 < len" "start + len \<le> int (length samples)"
    and "take (nat len) (drop (nat start) samples) = replicate (nat len) a"
  shows "computeRMS samples start len = \<bar>a\<bar>"
proof -
  have "sum_list (map (\<lambda>x. x * x) (replicate (nat len) a)) / real_of_int len = a * a"
    using assms(2) by (simp add: sum_list_replicate)
  then show ?thesis
    using assms by (simp add: computeRMS_def Let_def min_def)
qed

lemma computeRMS_silent_tail:
  assumes "int (length xs) \<le> start"
  shows "computeRMS (xs @ replicate n 0) start len = 0"
proof -
  have "drop (nat start) (xs @ replicate n 0) = replicate (n - (nat start - length xs)) 0"
    using assms by simp
  then show ?thesis by (simp add: computeRMS_def Let_def sum_list_replicate)
qed

section \<open>The forward scan\<close>

text \<open>With a positive window the forward scan ends, inside the leading-trim cap.\<close>

lemma findSpeechStart_loop_total:
  assumes "0 < w"
  shows "\<exists>r. findSpeechStart_loop samples thr w M S i s = Some r \<and> r \<le> max 0 M
           \<and> (0 \<le> s \<and> 0 \<le> M \<longrightarrow> 0 \<le> r)"
proof (induction "nat (int (length samples) - i)" arbitrary: i s rule: less_induct)
  case less
  have half: "0 \<le> w div 2" using assms by simp
  show ?case
  proof (cases "i < int (length samples) \<and> i < M \<and> \<not> thr \<le> computeRMS samples i w")
    case True
    have "nat (int (length samples) - (i + w)) < nat (int (length samples) - i)"
      using True assms by linarith
    from less[OF this, of "s + w"] obtain r where
      "findSpeechStart_loop samples thr w M S (i + w) (s + w) = Some r"
      "r \<le> max 0 M" "0 \<le> s + w \<and> 0 \<le> M \<longrightarrow> 0 \<le> r" by blast
    then show ?thesis using True assms by (subst findSpeechStart_loop.simps) auto
  next
    case False
    then show ?thesis using half by (subst findSpeechStart_loop.simps) auto
  qed
qed

lemma findSpeechStart_total:
  assumes "0 < \<lfloor>fl (rate * windowSize cfg)\<rfloor>"
  shows "\<exists>s. findSpeechStart samples rate cfg = Some s"
  using findSpeechStart_loop_total[OF assms] unfolding findSpeechStart_def Let_def by blast

lemma findSpeechStart_nonneg:
  assumes "0 < \<lfloor>fl (rate * windowSize cfg)\<rfloor>"
    and "0 \<le> \<lfloor>fl (rate * maxLeadingTrim cfg)\<rfloor>"
  shows "\<exists>s. findSpeechStart samples rate cfg = Some s \<and> 0 \<le> s"
  using findSpeechStart_loop_total[OF assms(1), of samples "silenceThreshold cfg"
      "\<lfloor>fl (rate * maxLeadingTrim cfg)\<rfloor>" "\<lfloor>fl (rate * minSilenceDuration cfg)\<rfloor>" 0 0]
    assms(2)
  unfolding findSpeechStart_def Let_def by auto

text \<open>
  With a window of no samples (\<open>sampleRate * windowSize < 1\<close>) and a positive threshold the
  loop variable never moves: the forward scan does not return.
\<close>

lemma computeRMS_empty_window [simp]: "computeRMS samples i 0 = 0"
  by (simp add: computeRMS_def Let_def)

lemma findSpeechStart_loop_zero_window_Some:
  assumes "findSpeechStart_loop samples thr w M S i s = Some r"
  shows "\<not> (w = 0 \<and> 0 < thr \<and> i < int (length samples) \<and> i < M)"
  using assms
proof (induction rule: findSpeechStart_loop.raw_induct[rotated 1, consumes 1])
  case (1 loop samples thr w M S i s r)
  show ?case
  proof
    assume h: "w = 0 \<and> 0 < thr \<and> i < int (length samples) \<and> i < M"
    then have "loop samples thr w M S i s = Some r" using 1(2) by simp
    from 1(1)[OF this] h show False by simp
  qed
qed

lemma findSpeechStart_zero_window:
  assumes "\<lfloor>fl (rate * windowSize config)\<rfloor> = 0" and "0 < silenceThreshold config"
    and "samples \<noteq> []" and "0 < \<lfloor>fl (rate * maxLeadingTrim config)\<rfloor>"
  shows "findSpeechStart samples rate config = None"
proof (cases "findSpeechStart samples rate config")
  case None
  then show ?thesis .
next
  case (Some r)
  then have "findSpeechStart_loop samples (silenceThreshold config) 0
               \<lfloor>fl (rate * maxLeadingTrim config)\<rfloor> \<lfloor>fl (rate * minSilenceDuration config)\<rfloor> 0 0 = Some r"
    by (simp add: findSpeechStart_def assms(1))
  from findSpeechStart_loop_zero_window_Some[OF this] assms show ?thesis by simp
qed

text \<open>\<open>k\<close> windows below the threshold, then a window that meets it.\<close>

lemma findSpeechStart_loop_onset:
  assumes "0 < w"
    and "\<forall>j<k. computeRMS samples (i + int j * w) w < thr"
    and "thr \<le> computeRMS samples (i + int k * w) w"
    and "i + int k * w < int (length samples)" "i + int k * w < M" "0 \<le> i"
  shows "findSpeechStart_loop samples thr w M S i s =
           Some (if S \<le> s + int k * w then max 0 (i + int k * w - w div 2) else 0)"
  using assms
proof (induction k arbitrary: i s)
  case 0
  then show ?case by (subst findSpeechStart_loop.simps) simp
next
  case (Suc k)
  have q: "computeRMS samples i w < thr" using Suc.prems(2) by force
  have a: "i < int (length samples)" "i < M"
    using Suc.prems(1,4,5,6) by (auto simp: algebra_simps intro: le_less_trans[rotated])
  have step: "findSpeechStart_loop samples thr w M S i s =
          findSpeechStart_loop samples thr w M S (i + w) (s + w)"
    using q a by (subst findSpeechStart_loop.simps) simp
  have e: "i + w + int k * w = i + int (Suc k) * w" by (simp add: algebra_simps)
  have "findSpeechStart_loop samples thr w M S (i + w) (s + w) =
          Some (if S \<le> s + w + int k * w then max 0 (i + w + int k * w - w div 2) else 0)"
  proof (rule Suc.IH)
    show "0 < w" by fact
    show "\<forall>j<k. computeRMS samples (i + w + int j * w) w < thr"
    proof (intro allI impI)
      fix j assume "j < k"
      then have "Suc j < Suc k" by simp
      from Suc.prems(2)[rule_format, OF this]
      have h: "computeRMS samples (i + int (Suc j) * w) w < thr" .
      have eq: "i + int (Suc j) * w = i + w + int j * w" by (simp add: algebra_simps)
      show "computeRMS samples (i + w + int j * w) w < thr" using h unfolding eq .
    qed
    show "thr \<le> computeRMS samples (i + w + int k * w) w" using Suc.prems(3) unfolding e .
    show "i + w + int k * w < int (length samples)" using Suc.prems(4) unfolding e .
    show "i + w + int k * w < M" using Suc.prems(5) unfolding e .
    show "0 \<le> i + w" using Suc.prems by simp
  qed
  then have "findSpeechStart_loop samples thr w M S (i + w) (s + w) =
          Some (if S \<le> s + int (Suc k) * w then max 0 (i + int (Suc k) * w - w div 2) else 0)"
    unfolding e by (simp add: algebra_simps)
  then show ?case using step by simp
qed

text \<open>
  Claim C4, as amended. For every sample buffer, scanned with a window of at least one
  sample, \<^verbatim>\<open>findSpeechStart\<close> returns an onset, and for a non-negative \<open>maxLeadingTrim\<close>
  the onset is not negative and not beyond \<open>maxLeadingTrim\<close> seconds' worth of samples
  (the whole number \<open>\<lfloor>fl (sampleRate * maxLeadingTrim)\<rfloor>\<close> that the code computes). When
  window \<open>k\<close> is the first window whose RMS meets \<open>silenceThreshold\<close> (it starts inside the
  buffer and before the leading-trim cap), the onset is the start of that window backed off
  by half a window if at least \<open>\<lfloor>fl (sampleRate * minSilenceDuration)\<rfloor>\<close> samples of silence
  precede it, and 0 if fewer do.
\<close>

theorem findSpeechStart_onset:
  assumes "w = \<lfloor>fl (rate * windowSize config)\<rfloor>" and "0 < w"
  shows "(\<exists>onset. findSpeechStart samples rate config = Some onset
            \<and> (0 \<le> \<lfloor>fl (rate * maxLeadingTrim config)\<rfloor>
                 \<longrightarrow> 0 \<le> onset \<and> onset \<le> \<lfloor>fl (rate * maxLeadingTrim config)\<rfloor>))
         \<and> ((\<forall>j<k. computeRMS samples (int j * w) w < silenceThreshold config)
              \<and> silenceThreshold config \<le> computeRMS samples (int k * w) w
              \<and> int k * w < int (length samples)
              \<and> int k * w < \<lfloor>fl (rate * maxLeadingTrim config)\<rfloor>
            \<longrightarrow> findSpeechStart samples rate config =
                  Some (if \<lfloor>fl (rate * minSilenceDuration config)\<rfloor> \<le> int k * w
                        then max 0 (int k * w - w div 2) else 0))"
proof (intro conjI impI)
  let ?M = "\<lfloor>fl (rate * maxLeadingTrim config)\<rfloor>"
  let ?S = "\<lfloor>fl (rate * minSilenceDuration config)\<rfloor>"
  obtain r where r: "findSpeechStart_loop samples (silenceThreshold config) w ?M ?S 0 0 = Some r"
    and b: "r \<le> max 0 ?M" "0 \<le> (0 :: int) \<and> 0 \<le> ?M \<longrightarrow> 0 \<le> r"
    using findSpeechStart_loop_total[OF assms(2)] by blast
  have f: "findSpeechStart samples rate config = Some r"
    using r by (simp add: findSpeechStart_def assms(1)[symmetric])
  have "0 \<le> r \<and> r \<le> ?M" if M: "0 \<le> ?M"
    using b M by simp
  then show "\<exists>onset. findSpeechStart samples rate config = Some onset
            \<and> (0 \<le> ?M \<longrightarrow> 0 \<le> onset \<and> onset \<le> ?M)"
    using f by blast
next
  let ?M = "\<lfloor>fl (rate * maxLeadingTrim config)\<rfloor>"
  let ?S = "\<lfloor>fl (rate * minSilenceDuration config)\<rfloor>"
  assume h: "(\<forall>j<k. computeRMS samples (int j * w) w < silenceThreshold config)
              \<and> silenceThreshold config \<le> computeRMS samples (int k * w) w
              \<and> int k * w < int (length samples)
              \<and> int k * w < ?M"
  have "findSpeechStart_loop samples (silenceThreshold config) w ?M ?S 0 0 =
          Some (if ?S \<le> 0 + int k * w then max 0 (0 + int k * w - w div 2) else 0)"
    by (rule findSpeechStart_loop_onset) (use assms h in simp_all)
  then show "findSpeechStart samples rate config =
           Some (if ?S \<le> int k * w then max 0 (int k * w - w div 2) else 0)"
    by (simp add: findSpeechStart_def assms(1)[symmetric])
qed

text \<open>
  A quarter of a second of silence, then speech, at 8000 Hz with the default
  configuration: the onset is window 5 (sample 2000) backed off by 200 samples.
\<close>

theorem findSpeechStart_onset_witness:
  "findSpeechStart (replicate 2000 0 @ replicate 6000 1) 8000 DEFAULT_CONFIG = Some 1800
   \<and> 1800 \<le> \<lfloor>fl (8000 * maxLeadingTrim DEFAULT_CONFIG)\<rfloor>"
proof -
  let ?samples = "replicate 2000 0 @ replicate 6000 (1 :: real)"
  have w: "(400 :: int) = \<lfloor>fl (8000 * windowSize DEFAULT_CONFIG)\<rfloor>"
    by (simp add: defaults_8000)
  have quiet: "\<forall>j<5. computeRMS ?samples (int j * 400) 400 < silenceThreshold DEFAULT_CONFIG"
  proof (intro allI impI)
    fix j :: nat assume "j < 5"
    then consider "j = 0" | "j = 1" | "j = 2" | "j = 3" | "j = 4" by linarith
    then show "computeRMS ?samples (int j * 400) 400 < silenceThreshold DEFAULT_CONFIG"
      by cases (simp_all add: computeRMS_def defaults_8000 sum_list_replicate)
  qed
  have loud: "silenceThreshold DEFAULT_CONFIG \<le> computeRMS ?samples (int 5 * 400) 400"
    by (simp add: computeRMS_def defaults_8000 sum_list_replicate)
  have range: "int 5 * 400 < int (length ?samples)"
    "int 5 * 400 < \<lfloor>fl (8000 * maxLeadingTrim DEFAULT_CONFIG)\<rfloor>"
    by (simp_all add: defaults_8000)
  note onset = findSpeechStart_onset[OF w, of ?samples 5]
  have s: "findSpeechStart ?samples 8000 DEFAULT_CONFIG =
           Some (if \<lfloor>fl (8000 * minSilenceDuration DEFAULT_CONFIG)\<rfloor> \<le> int 5 * 400
                 then max 0 (int 5 * 400 - 400 div 2) else 0)"
    using onset quiet loud range by simp
  then have v: "findSpeechStart ?samples 8000 DEFAULT_CONFIG = Some 1800"
    by (simp add: defaults_8000)
  have "0 \<le> \<lfloor>fl (8000 * maxLeadingTrim DEFAULT_CONFIG)\<rfloor>" by (simp add: defaults_8000)
  then have "1800 \<le> \<lfloor>fl (8000 * maxLeadingTrim DEFAULT_CONFIG)\<rfloor>"
    using onset v by auto
  then show ?thesis using v by simp
qed

text \<open>
  The claim as stated fails when less than \<open>minSilenceDuration\<close> of silence precedes the
  speech: with 50 ms of silence (one window) before the speech, the first window that meets
  the threshold starts at sample 400, and the onset returned is 0, not 400 - 200.
\<close>

theorem findSpeechStart_short_silence_counterexample:
  "computeRMS (replicate 400 0 @ replicate 7600 1) 0 400 < silenceThreshold DEFAULT_CONFIG
   \<and> silenceThreshold DEFAULT_CONFIG \<le> computeRMS (replicate 400 0 @ replicate 7600 1) 400 400
   \<and> findSpeechStart (replicate 400 0 @ replicate 7600 1) 8000 DEFAULT_CONFIG = Some 0
   \<and> findSpeechStart (replicate 400 0 @ replicate 7600 1) 8000 DEFAULT_CONFIG
       \<noteq> Some (400 - 400 div 2)"
  by (simp add: findSpeechStart_def findSpeechStart_loop.simps computeRMS_def defaults_8000
        sum_list_replicate)


section \<open>The backward scan\<close>

lemma scanStart_Suc: "scanStart samples w (Suc k) = scanStart samples w k - w"
  by (simp add: scanStart_def algebra_simps)

text \<open>While no iteration returns, the loop variables are those of \<open>scanStart\<close>.\<close>

lemma findSpeechEnd_loop_run:
  assumes "\<forall>j<k. 0 \<le> scanStart samples w j \<and> int j * w \<le> T \<and> \<not> scanStops samples E w j"
  shows "findSpeechEnd_loop samples E w S T P (int (length samples) - w) 0 0 =
         findSpeechEnd_loop samples E w S T P (scanStart samples w k) (int k * w)
           (scanPrevious samples w k)"
  using assms
proof (induction k)
  case 0
  then show ?case by (simp add: scanPrevious_def scanStart_def)
next
  case (Suc k)
  have IH: "findSpeechEnd_loop samples E w S T P (int (length samples) - w) 0 0 =
         findSpeechEnd_loop samples E w S T P (scanStart samples w k) (int k * w)
           (scanPrevious samples w k)"
    using Suc by simp
  have k: "0 \<le> scanStart samples w k" "int k * w \<le> T" "\<not> scanStops samples E w k"
    using Suc.prems by simp_all
  have e: "int k * w + w = int (Suc k) * w" by (simp add: algebra_simps)
  have "findSpeechEnd_loop samples E w S T P (scanStart samples w k) (int k * w)
           (scanPrevious samples w k) =
        findSpeechEnd_loop samples E w S T P (scanStart samples w k - w) (int k * w + w)
           (computeRMS samples (scanStart samples w k) w)"
    using k by (subst findSpeechEnd_loop.simps) (simp add: scanStops_def scanRMS_def)
  also have "\<dots> = findSpeechEnd_loop samples E w S T P (scanStart samples w (Suc k))
           (int (Suc k) * w) (scanPrevious samples w (Suc k))"
    unfolding e scanStart_Suc by (simp add: scanPrevious_def scanRMS_def)
  finally show ?case using IH by simp
qed

lemma findSpeechEnd_loop_detect:
  assumes "\<forall>j<k. 0 \<le> scanStart samples w j \<and> int j * w \<le> T \<and> \<not> scanStops samples E w j"
    and "0 \<le> scanStart samples w k" "int k * w \<le> T" "scanStops samples E w k"
  shows "findSpeechEnd_loop samples E w S T P (int (length samples) - w) 0 0 =
         Some (if S \<le> int k * w
               then min (int (length samples)) (scanStart samples w k + w + P)
               else int (length samples))"
proof -
  have "findSpeechEnd_loop samples E w S T P (scanStart samples w k) (int k * w)
           (scanPrevious samples w k) =
         Some (if S \<le> int k * w
               then min (int (length samples)) (scanStart samples w k + w + P)
               else int (length samples))"
    using assms(2-4)
    by (subst findSpeechEnd_loop.simps) (auto simp: scanStops_def scanRMS_def)
  then show ?thesis using findSpeechEnd_loop_run[OF assms(1)] by simp
qed

lemma findSpeechEnd_loop_cap:
  assumes "\<forall>j<k. 0 \<le> scanStart samples w j \<and> \<not> scanStops samples E w j"
    and "T < int k * w"
  shows "findSpeechEnd_loop samples E w S T P (int (length samples) - w) 0 0
           = Some (int (length samples))"
proof -
  define m where "m = (LEAST m. T < int m * w)"
  have m: "T < int m * w" unfolding m_def using assms(2) by (rule LeastI)
  have mk: "m \<le> k" unfolding m_def using assms(2) by (rule Least_le)
  have below: "\<forall>j<m. int j * w \<le> T"
  proof (intro allI impI)
    fix j assume "j < m"
    then have "\<not> T < int j * w" unfolding m_def by (rule not_less_Least)
    then show "int j * w \<le> T" by simp
  qed
  have "\<forall>j<m. 0 \<le> scanStart samples w j \<and> int j * w \<le> T \<and> \<not> scanStops samples E w j"
    using below assms(1) mk by auto
  from findSpeechEnd_loop_run[OF this]
  have "findSpeechEnd_loop samples E w S T P (int (length samples) - w) 0 0 =
         findSpeechEnd_loop samples E w S T P (scanStart samples w m) (int m * w)
           (scanPrevious samples w m)" .
  also have "\<dots> = Some (int (length samples))"
    using m by (subst findSpeechEnd_loop.simps) simp
  finally show ?thesis .
qed

text \<open>With a positive window the backward scan ends, at or before the end of the buffer.\<close>

lemma findSpeechEnd_loop_total:
  assumes "0 < w"
  shows "\<exists>r. findSpeechEnd_loop samples endThr w S T P i s p = Some r
              \<and> r \<le> int (length samples)"
proof (induction "nat (i + 1)" arbitrary: i s p rule: less_induct)
  case less
  show ?case
  proof (cases "0 \<le> i \<and> \<not> T < s \<and> \<not> (endThr \<le> computeRMS samples i w
                 \<or> isDecrescendo p (computeRMS samples i w) endThr)")
    case True
    have "nat (i - w + 1) < nat (i + 1)" using True assms by linarith
    from less[OF this, of "s + w" "computeRMS samples i w"] obtain r where
      "findSpeechEnd_loop samples endThr w S T P (i - w) (s + w) (computeRMS samples i w) = Some r"
      "r \<le> int (length samples)" by blast
    then show ?thesis using True by (subst findSpeechEnd_loop.simps) auto
  next
    case False
    then show ?thesis by (subst findSpeechEnd_loop.simps) auto
  qed
qed

lemma speechEndOf_total:
  assumes "0 < \<lfloor>fl (rate * windowSize cfg)\<rfloor>"
  shows "\<exists>e. speechEndOf samples rate cfg = Some e"
proof (cases "trimTrailing cfg")
  case True
  then show ?thesis
    using findSpeechEnd_loop_total[OF assms]
    unfolding speechEndOf_def findSpeechEnd_def Let_def by simp blast
next
  case False
  then show ?thesis by (simp add: speechEndOf_def)
qed

lemma speechEndOf_le_length:
  assumes "0 < \<lfloor>fl (rate * windowSize cfg)\<rfloor>"
  shows "\<exists>e. speechEndOf samples rate cfg = Some e \<and> e \<le> int (length samples)"
proof (cases "trimTrailing cfg")
  case True
  then show ?thesis
    using findSpeechEnd_loop_total[OF assms]
    unfolding speechEndOf_def findSpeechEnd_def Let_def by simp
next
  case False
  then show ?thesis by (simp add: speechEndOf_def)
qed

text \<open>
  The result of \<^verbatim>\<open>findSpeechEnd\<close> when iteration \<open>k\<close> is the first that returns from the
  loop body, and when the silence passes the trailing-trim cap first.
\<close>

lemma findSpeechEnd_detect:
  assumes "w = \<lfloor>fl (rate * windowSize config)\<rfloor>" and "0 < w"
    and "E = silenceThreshold config * endThresholdMultiplier config"
    and "\<forall>j<k. \<not> scanStops samples E w j"
    and "scanStops samples E w k"
    and "0 \<le> scanStart samples w k"
    and "int k * w \<le> \<lfloor>fl (rate * maxTrailingTrim config)\<rfloor>"
  shows "findSpeechEnd samples rate config =
           Some (if \<lfloor>fl (rate * minSilenceDuration config)\<rfloor> \<le> int k * w
                 then min (int (length samples))
                          (scanStart samples w k + w + \<lfloor>fl (rate * trailingPadding config)\<rfloor>)
                 else int (length samples))"
proof -
  let ?T = "\<lfloor>fl (rate * maxTrailingTrim config)\<rfloor>"
  have pre: "\<forall>j<k. 0 \<le> scanStart samples w j \<and> int j * w \<le> ?T \<and> \<not> scanStops samples E w j"
  proof (intro allI impI)
    fix j assume jk: "j < k"
    then have le: "int j * w \<le> int k * w" using assms(2) by simp
    then have "scanStart samples w k \<le> scanStart samples w j" by (simp add: scanStart_def)
    then show "0 \<le> scanStart samples w j \<and> int j * w \<le> ?T \<and> \<not> scanStops samples E w j"
      using assms(4,6,7) jk le by simp
  qed
  have "findSpeechEnd_loop samples E w \<lfloor>fl (rate * minSilenceDuration config)\<rfloor> ?T
          \<lfloor>fl (rate * trailingPadding config)\<rfloor> (int (length samples) - w) 0 0 =
        Some (if \<lfloor>fl (rate * minSilenceDuration config)\<rfloor> \<le> int k * w
               then min (int (length samples))
                        (scanStart samples w k + w + \<lfloor>fl (rate * trailingPadding config)\<rfloor>)
               else int (length samples))"
    by (rule findSpeechEnd_loop_detect[OF pre assms(6,7,5)])
  then show ?thesis
    by (simp add: findSpeechEnd_def assms(1)[symmetric] assms(3)[symmetric])
qed

lemma findSpeechEnd_cap:
  assumes "w = \<lfloor>fl (rate * windowSize config)\<rfloor>" and "0 < rate"
    and "E = silenceThreshold config * endThresholdMultiplier config"
    and "\<forall>j<k. 0 \<le> scanStart samples w j \<and> \<not> scanStops samples E w j"
    and "\<lfloor>fl (rate * maxTrailingTrim config)\<rfloor> < int k * w"
  shows "findSpeechEnd samples rate config = Some (int (length samples))"
proof -
  let ?T = "\<lfloor>fl (rate * maxTrailingTrim config)\<rfloor>"
  have T: "?T < int k * w" by (rule assms(5))
  have "findSpeechEnd_loop samples E w \<lfloor>fl (rate * minSilenceDuration config)\<rfloor> ?T
          \<lfloor>fl (rate * trailingPadding config)\<rfloor> (int (length samples) - w) 0 0
          = Some (int (length samples))"
    by (rule findSpeechEnd_loop_cap[OF assms(4) T])
  then show ?thesis
    by (simp add: findSpeechEnd_def assms(1)[symmetric] assms(3)[symmetric])
qed

lemma silent_window_not_stop:
  assumes "0 < E" and "scanRMS samples w j = 0"
  shows "\<not> scanStops samples E w j"
  using assms by (simp add: scanStops_def isDecrescendo_def)

text \<open>The loop condition in the words of the specification.\<close>

lemma scanStops_iff_speechOrFading:
  "scanStops samples E w j \<longleftrightarrow> speechOrFading samples E w j"
proof -
  have r: "0 \<le> scanRMS samples w j" by (simp add: scanRMS_def computeRMS_nonneg)
  show ?thesis
  proof (cases "j = 0")
    case True
    then show ?thesis
      by (simp add: scanStops_def speechOrFading_def scanPrevious_def isDecrescendo_def)
  next
    case False
    have p: "0 \<le> scanRMS samples w (j - 1)" by (simp add: scanRMS_def computeRMS_nonneg)
    show ?thesis
      using False r p
      by (auto simp: scanStops_def speechOrFading_def scanPrevious_def isDecrescendo_def
            fadingSpeech_def)
  qed
qed


text \<open>
  Claim C2, as amended. When trailing trim finds a speech end (iteration \<open>k\<close> is the first
  whose window is speech or a decrescendo, it lies inside the buffer, and the \<open>k\<close> silent
  windows scanned before it amount to at least \<open>\<lfloor>fl (sampleRate * minSilenceDuration)\<rfloor>\<close> and at
  most \<open>\<lfloor>fl (sampleRate * maxTrailingTrim)\<rfloor>\<close> samples), the end boundary is the end of that
  window plus \<open>\<lfloor>fl (sampleRate * trailingPadding)\<rfloor>\<close> samples, or the end of the buffer if that
  is nearer; and for a non-negative \<open>trailingPadding\<close> the trailing audio cut off is at
  most \<open>\<lfloor>fl (sampleRate * maxTrailingTrim)\<rfloor>\<close> samples. Every sample count is the one the
  code computes, the floor of a double product.
\<close>

theorem findSpeechEnd_keeps_padding:
  assumes "w = \<lfloor>fl (rate * windowSize config)\<rfloor>" and "0 < w" and "0 < rate"
    and "E = silenceThreshold config * endThresholdMultiplier config"
    and "\<forall>j<k. \<not> scanStops samples E w j"
    and "scanStops samples E w k"
    and "0 \<le> scanStart samples w k"
    and "\<lfloor>fl (rate * minSilenceDuration config)\<rfloor> \<le> int k * w"
    and "int k * w \<le> \<lfloor>fl (rate * maxTrailingTrim config)\<rfloor>"
    and "0 \<le> trailingPadding config"
  shows "\<exists>e. findSpeechEnd samples rate config = Some e
           \<and> e = min (int (length samples))
                     (scanStart samples w k + w + \<lfloor>fl (rate * trailingPadding config)\<rfloor>)
           \<and> e \<le> int (length samples)
           \<and> int (length samples) - e \<le> \<lfloor>fl (rate * maxTrailingTrim config)\<rfloor>"
proof -
  let ?len = "int (length samples)"
  let ?P = "\<lfloor>fl (rate * trailingPadding config)\<rfloor>"
  let ?T = "\<lfloor>fl (rate * maxTrailingTrim config)\<rfloor>"
  let ?e = "min ?len (scanStart samples w k + w + ?P)"
  have r: "findSpeechEnd samples rate config = Some ?e"
    using findSpeechEnd_detect[OF assms(1,2,4,5,6,7,9)] assms(8) by simp
  have "0 \<le> fl (rate * trailingPadding config)"
    using assms(3,10) by (intro fl_nonneg) simp
  then have P: "0 \<le> ?P" by simp
  have kw: "0 \<le> int k * w" using assms(2) by simp
  have "?len - ?e \<le> int k * w" using P kw by (simp add: scanStart_def min_def)
  then have "?len - ?e \<le> ?T" using assms(9) by simp
  then show ?thesis using r by simp
qed

text \<open>
  One second of speech and half a second of silence at 8000 Hz, default configuration with
  trailing trim: the boundary is 2800 samples after the speech, 1200 samples are cut off.
\<close>

theorem findSpeechEnd_keeps_padding_witness:
  "findSpeechEnd (replicate 8000 1 @ replicate 4000 0) 8000
     (DEFAULT_CONFIG\<lparr>trimTrailing := True\<rparr>) = Some 10800
   \<and> 12000 - 10800
       \<le> \<lfloor>fl (8000 * maxTrailingTrim (DEFAULT_CONFIG\<lparr>trimTrailing := True\<rparr>))\<rfloor>"
proof -
  let ?samples = "replicate 8000 1 @ replicate 4000 (0 :: real)"
  let ?cfg = "DEFAULT_CONFIG\<lparr>trimTrailing := True\<rparr>"
  have w: "(400 :: int) = \<lfloor>fl (8000 * windowSize ?cfg)\<rfloor>"
    by (simp add: defaults_8000)
  let ?E = "silenceThreshold ?cfg * endThresholdMultiplier ?cfg"
  have E: "?E = silenceThreshold ?cfg * endThresholdMultiplier ?cfg" by simp
  have quiet: "\<forall>j<10. \<not> scanStops ?samples ?E 400 j"
  proof (intro allI impI)
    fix j :: nat assume "j < 10"
    then have "int (length (replicate 8000 (1::real))) \<le> scanStart ?samples 400 j"
      by (simp add: scanStart_def)
    then have "scanRMS ?samples 400 j = 0"
      unfolding scanRMS_def by (rule computeRMS_silent_tail)
    then show "\<not> scanStops ?samples ?E 400 j"
      by (intro silent_window_not_stop) (simp_all add: amplitude_defaults)
  qed
  have pad: "0 \<le> trailingPadding ?cfg" by (simp add: trailingPadding_default)
  have speech: "scanStops ?samples ?E 400 10"
    by (simp add: scanStops_def scanRMS_def scanStart_def computeRMS_def sum_list_replicate
          amplitude_defaults)
  have "\<exists>e. findSpeechEnd ?samples 8000 ?cfg = Some e
           \<and> e = min (int (length ?samples))
                     (scanStart ?samples 400 10 + 400 + \<lfloor>fl (8000 * trailingPadding ?cfg)\<rfloor>)
           \<and> e \<le> int (length ?samples)
           \<and> int (length ?samples) - e \<le> \<lfloor>fl (8000 * maxTrailingTrim ?cfg)\<rfloor>"
    by (rule findSpeechEnd_keeps_padding[OF w _ _ E quiet speech _ _ _ pad])
       (simp_all add: scanStart_def defaults_8000)
  then show ?thesis by (auto simp: scanStart_def defaults_8000)
qed

text \<open>
  The claim as stated fails by the conversion of the padding to whole samples. At 44100 Hz
  with the default configuration and trailing trim, the code computes
  \<open>44100 * 0.35 = 15434.999999999998\<close> in double arithmetic and keeps 15434 samples. One
  second of speech followed by 15435 samples of silence (seven silent windows): the
  boundary is 59534, so less than \<open>trailingPadding\<close> seconds are kept after the speech
  window, although 0.35 seconds of audio follow it.
\<close>

theorem findSpeechEnd_padding_counterexample:
  "findSpeechEnd (replicate 44100 1 @ replicate 15435 0) 44100
     (DEFAULT_CONFIG\<lparr>trimTrailing := True\<rparr>) = Some 59534
   \<and> scanStart (replicate 44100 1 @ replicate 15435 0) 2205 7 + 2205 = 44100
   \<and> \<lfloor>fl (44100 * minSilenceDuration DEFAULT_CONFIG)\<rfloor> \<le> 7 * 2205
   \<and> 7 * 2205 \<le> \<lfloor>fl (44100 * maxTrailingTrim DEFAULT_CONFIG)\<rfloor>
   \<and> real_of_int (59534 - 44100) / 44100 < trailingPadding DEFAULT_CONFIG
   \<and> trailingPadding DEFAULT_CONFIG
       \<le> real_of_int (int (length (replicate 44100 (1 :: real) @ replicate 15435 0)) - 44100)
          / 44100"
proof -
  let ?samples = "replicate 44100 1 @ replicate 15435 (0 :: real)"
  let ?cfg = "DEFAULT_CONFIG\<lparr>trimTrailing := True\<rparr>"
  let ?E = "silenceThreshold ?cfg * endThresholdMultiplier ?cfg"
  have w: "(2205 :: int) = \<lfloor>fl (44100 * windowSize ?cfg)\<rfloor>"
    by (simp add: samples_44100)
  have quiet: "\<forall>j<7. \<not> scanStops ?samples ?E 2205 j"
  proof (intro allI impI)
    fix j :: nat assume "j < 7"
    then have "int (length (replicate 44100 (1::real))) \<le> scanStart ?samples 2205 j"
      by (simp add: scanStart_def)
    then have "scanRMS ?samples 2205 j = 0"
      unfolding scanRMS_def by (rule computeRMS_silent_tail)
    then show "\<not> scanStops ?samples ?E 2205 j"
      by (intro silent_window_not_stop) (simp_all add: amplitude_defaults)
  qed
  have speech: "scanStops ?samples ?E 2205 7"
    by (simp add: scanStops_def scanRMS_def scanStart_def computeRMS_def sum_list_replicate
          amplitude_defaults)
  have "findSpeechEnd ?samples 44100 ?cfg =
           Some (if \<lfloor>fl (44100 * minSilenceDuration ?cfg)\<rfloor> \<le> int 7 * 2205
                 then min (int (length ?samples))
                          (scanStart ?samples 2205 7 + 2205
                             + \<lfloor>fl (44100 * trailingPadding ?cfg)\<rfloor>)
                 else int (length ?samples))"
    by (rule findSpeechEnd_detect[OF w _ _ quiet speech])
       (simp_all add: scanStart_def samples_44100)
  then have "findSpeechEnd ?samples 44100 ?cfg = Some 59534"
    by (simp add: scanStart_def samples_44100)
  then show ?thesis
    by (simp add: scanStart_def samples_44100 trailingPadding_default)
qed




section \<open>WAV encoding: bytes and fields\<close>

text \<open>Reading back what the little-endian writes store.\<close>

lemma uint_drop_bit: "uint (drop_bit n w) = uint w div 2 ^ n"
proof -
  have "uint (drop_bit n w) = drop_bit n (take_bit LENGTH('a) (uint w))"
    by (rule unsigned_drop_bit_eq)
  also have "take_bit LENGTH('a) (uint w) = uint w"
    by (simp add: take_bit_int_eq_self)
  finally show ?thesis by (simp add: drop_bit_eq_div)
qed

lemma le16_read: "uint (le16 w ! 0) + 256 * uint (le16 w ! 1) = uint w"
proof -
  have b: "0 \<le> uint w" "uint w < 65536" using uint_lt2p[of w] by simp_all
  have "uint (ucast w :: 8 word) = uint w mod 256"
    by (simp add: unsigned_ucast_eq take_bit_eq_mod)
  moreover have "uint (ucast (drop_bit 8 w) :: 8 word) = uint w div 256 mod 256"
    by (simp add: unsigned_ucast_eq take_bit_eq_mod uint_drop_bit)
  ultimately show ?thesis using b by (simp add: le16_def)
qed

lemma le32_read:
  "uint (le32 w ! 0) + 256 * uint (le32 w ! 1) + 65536 * uint (le32 w ! 2)
     + 16777216 * uint (le32 w ! 3) = uint w"
proof -
  have b: "0 \<le> uint w" "uint w < 4294967296" using uint_lt2p[of w] by simp_all
  have 0: "uint (ucast w :: 8 word) = uint w mod 256"
    by (simp add: unsigned_ucast_eq take_bit_eq_mod)
  have 1: "uint (ucast (drop_bit 8 w) :: 8 word) = uint w div 256 mod 256"
    by (simp add: unsigned_ucast_eq take_bit_eq_mod uint_drop_bit)
  have 2: "uint (ucast (drop_bit 16 w) :: 8 word) = uint w div 65536 mod 256"
    by (simp add: unsigned_ucast_eq take_bit_eq_mod uint_drop_bit)
  have 3: "uint (ucast (drop_bit 24 w) :: 8 word) = uint w div 16777216 mod 256"
    by (simp add: unsigned_ucast_eq take_bit_eq_mod uint_drop_bit)
  define x where "x = uint w"
  define a where "a = x div 256"
  define b' where "b' = a div 256"
  define c where "c = b' div 256"
  have d2: "x div 65536 = b'"
    using zdiv_zmult2_eq[of 256 x 256] by (simp add: a_def b'_def)
  have d3: "x div 16777216 = c"
    using zdiv_zmult2_eq[of 256 x 65536] d2 by (simp add: c_def)
  have c: "0 \<le> c" "c < 256" using b d3 by (simp_all add: x_def[symmetric])
  have x: "x = x mod 256 + 256 * a" by (simp add: a_def)
  have a: "a = a mod 256 + 256 * b'" by (simp add: b'_def)
  have b2: "b' = b' mod 256 + 256 * c" by (simp add: c_def)
  have "x mod 256 + 256 * (a mod 256) + 65536 * (b' mod 256) + 16777216 * (c mod 256) = x"
    using x a b2 c by simp
  then show ?thesis
    unfolding le32_def by (simp add: 0 1 2 3 x_def[symmetric] a_def[symmetric] d2 d3)
qed

text \<open>A clamped and scaled sample fits in sixteen signed bits.\<close>

lemma ToInteger_intSample_range:
  "- 32768 \<le> ToInteger (intSample x) \<and> ToInteger (intSample x) \<le> 32767"
proof -
  define s where "s = max (- 1) (min 1 x)"
  have s: "- 1 \<le> s" "s \<le> 1" by (simp_all add: s_def)
  show ?thesis
  proof (cases "s < 0")
    case True
    define y where "y = s * 32768"
    have y: "- 32768 \<le> y" "y < 0" using s True by (simp_all add: y_def)
    have "intSample x = y" using True by (simp add: intSample_def s_def y_def Let_def)
    moreover have "ToInteger y = \<lceil>y\<rceil>" using y by (simp add: ToInteger_def)
    moreover have "- 32768 \<le> \<lceil>y\<rceil>" "\<lceil>y\<rceil> \<le> 0" using y by linarith+
    ultimately show ?thesis by simp
  next
    case False
    define y where "y = s * 32767"
    have y: "0 \<le> y" "y \<le> 32767" using s False by (simp_all add: y_def)
    have "intSample x = y" using False by (simp add: intSample_def s_def y_def Let_def)
    moreover have "ToInteger y = \<lfloor>y\<rfloor>" using y by (simp add: ToInteger_def)
    moreover have "0 \<le> \<lfloor>y\<rfloor>" "\<lfloor>y\<rfloor> \<le> 32767" using y by linarith+
    ultimately show ?thesis by simp
  qed
qed

lemma sint_ToInt16_intSample: "sint (ToInt16 (intSample x)) = ToInteger (intSample x)"
  using ToInteger_intSample_range[of x]
  by (simp add: ToInt16_def int_word_sint)

text \<open>Writes into the still untouched (zero) rest of the buffer.\<close>

lemma length_le16 [simp]: "length (le16 w) = 2"
  by (simp add: le16_def)

lemma length_le32 [simp]: "length (le32 w) = 4"
  by (simp add: le32_def)

lemma length_charCodes [simp]: "length (charCodes str) = length str"
  by (simp add: charCodes_def)

lemma setBytes_fresh:
  assumes "offset = length pre" and "length bytes \<le> n"
  shows "setBytes (pre @ replicate n 0) offset bytes
           = Inr ((pre @ bytes) @ replicate (n - length bytes) 0)"
  using assms by (simp add: setBytes_def)

lemma writeString_fresh:
  assumes "offset = length pre" and "length str \<le> n"
  shows "writeString (pre @ replicate n 0) offset str
           = Inr ((pre @ charCodes str) @ replicate (n - length str) 0)"
  using assms
proof (induction str arbitrary: pre n offset)
  case Nil
  then show ?case by (simp add: charCodes_def)
next
  case (Cons c str)
  have "setUint8 (pre @ replicate n 0) offset (real (of_char c))
          = Inr ((pre @ [ToUint8 (real (of_char c))]) @ replicate (n - 1) 0)"
    unfolding setUint8_def using Cons.prems by (subst setBytes_fresh) simp_all
  moreover have "writeString ((pre @ [ToUint8 (real (of_char c))]) @ replicate (n - 1) 0)
                   (Suc offset) str
          = Inr (((pre @ [ToUint8 (real (of_char c))]) @ charCodes str)
                 @ replicate (n - 1 - length str) 0)"
    using Cons.prems by (intro Cons.IH) simp_all
  ultimately show ?case by (simp add: bindE_def charCodes_def)
qed

lemma writeSamples_fresh:
  assumes "offset = length pre" and "2 * length xs \<le> n"
  shows "writeSamples (pre @ replicate n 0) offset xs
           = Inr ((pre @ concat (map (\<lambda>x. le16 (ToInt16 (intSample x))) xs))
                  @ replicate (n - 2 * length xs) 0)"
  using assms
proof (induction xs arbitrary: pre n offset)
  case Nil
  then show ?case by simp
next
  case (Cons x xs)
  let ?b = "le16 (ToInt16 (intSample x))"
  have "setInt16 (pre @ replicate n 0) offset (intSample x)
          = Inr ((pre @ ?b) @ replicate (n - 2) 0)"
    unfolding setInt16_def using Cons.prems by (subst setBytes_fresh) simp_all
  moreover have "writeSamples ((pre @ ?b) @ replicate (n - 2) 0) (offset + 2) xs
          = Inr (((pre @ ?b) @ concat (map (\<lambda>x. le16 (ToInt16 (intSample x))) xs))
                 @ replicate (n - 2 - 2 * length xs) 0)"
    using Cons.prems by (intro Cons.IH) simp_all
  ultimately show ?case by (simp add: bindE_def)
qed

lemma length_interleaved [simp]:
  "length (interleaved buffer) = frameCount buffer * numberOfChannels buffer"
  by (simp add: interleaved_def length_concat comp_def sum_list_triv)

lemma bindE_Inr [simp]: "bindE (Inr v) f = f v"
  by (simp add: bindE_def)

lemma bindE_Inl [simp]: "bindE (Inl e) f = Inl e"
  by (simp add: bindE_def)

text \<open>The writes of \<^verbatim>\<open>audioBufferToWav\<close> all fit, and leave the header followed by the data.\<close>

lemma audioBufferToWav_layout:
  "audioBufferToWav buffer = Inr (Blob (wavHeader buffer @ wavData buffer) ''audio/wav'')"
proof -
  let ?n = "numberOfChannels buffer"
  let ?d = "frameCount buffer * (?n * 2)"
  let ?r = "sampleRate buffer"
  have s1: "writeString (replicate (44 + ?d) 0) 0 ''RIFF''
              = Inr (charCodes ''RIFF'' @ replicate (40 + ?d) 0)"
    using writeString_fresh[of 0 "[]" "''RIFF''" "44 + ?d"] by simp
  define p1 where "p1 = charCodes ''RIFF''"
  define p2 where "p2 = p1 @ le32 (ToUint32 (real (44 + ?d) - 8))"
  define p3 where "p3 = p2 @ charCodes ''WAVE''"
  define p4 where "p4 = p3 @ charCodes ''fmt ''"
  define p5 where "p5 = p4 @ le32 (ToUint32 16)"
  define p6 where "p6 = p5 @ le16 (ToUint16 1)"
  define p7 where "p7 = p6 @ le16 (ToUint16 (real ?n))"
  define p8 where "p8 = p7 @ le32 (ToUint32 ?r)"
  define p9 where "p9 = p8 @ le32 (ToUint32 (fl (?r * real (?n * 2))))"
  define p10 where "p10 = p9 @ le16 (ToUint16 (real (?n * 2)))"
  define p11 where "p11 = p10 @ le16 (ToUint16 16)"
  define p12 where "p12 = p11 @ charCodes ''data''"
  define p13 where "p13 = p12 @ le32 (ToUint32 (real ?d))"
  have l: "length p1 = 4" "length p2 = 8" "length p3 = 12" "length p4 = 16" "length p5 = 20"
    "length p6 = 22" "length p7 = 24" "length p8 = 28" "length p9 = 32" "length p10 = 34"
    "length p11 = 36" "length p12 = 40" "length p13 = 44"
    by (simp_all add: p1_def p2_def p3_def p4_def p5_def p6_def p7_def p8_def p9_def p10_def
          p11_def p12_def p13_def)
  have w1: "writeString (replicate (44 + ?d) 0) 0 ''RIFF'' = Inr (p1 @ replicate (40 + ?d) 0)"
    using s1 by (simp add: p1_def)
  have w2: "setUint32 (p1 @ replicate (40 + ?d) 0) 4 (real (44 + ?d) - 8)
              = Inr (p2 @ replicate (36 + ?d) 0)"
    unfolding setUint32_def p2_def by (subst setBytes_fresh) (simp_all add: l)
  have w3: "writeString (p2 @ replicate (36 + ?d) 0) 8 ''WAVE'' = Inr (p3 @ replicate (32 + ?d) 0)"
    unfolding p3_def by (subst writeString_fresh) (simp_all add: l)
  have w4: "writeString (p3 @ replicate (32 + ?d) 0) 12 ''fmt '' = Inr (p4 @ replicate (28 + ?d) 0)"
    unfolding p4_def by (subst writeString_fresh) (simp_all add: l)
  have w5: "setUint32 (p4 @ replicate (28 + ?d) 0) 16 16 = Inr (p5 @ replicate (24 + ?d) 0)"
    unfolding setUint32_def p5_def by (subst setBytes_fresh) (simp_all add: l)
  have w6: "setUint16 (p5 @ replicate (24 + ?d) 0) 20 1 = Inr (p6 @ replicate (22 + ?d) 0)"
    unfolding setUint16_def p6_def by (subst setBytes_fresh) (simp_all add: l)
  have w7: "setUint16 (p6 @ replicate (22 + ?d) 0) 22 (real ?n) = Inr (p7 @ replicate (20 + ?d) 0)"
    unfolding setUint16_def p7_def by (subst setBytes_fresh) (simp_all add: l)
  have w8: "setUint32 (p7 @ replicate (20 + ?d) 0) 24 ?r = Inr (p8 @ replicate (16 + ?d) 0)"
    unfolding setUint32_def p8_def by (subst setBytes_fresh) (simp_all add: l)
  have w9: "setUint32 (p8 @ replicate (16 + ?d) 0) 28 (fl (?r * real (?n * 2)))
              = Inr (p9 @ replicate (12 + ?d) 0)"
    unfolding setUint32_def p9_def by (subst setBytes_fresh) (simp_all add: l)
  have w10: "setUint16 (p9 @ replicate (12 + ?d) 0) 32 (real (?n * 2))
              = Inr (p10 @ replicate (10 + ?d) 0)"
    unfolding setUint16_def p10_def by (subst setBytes_fresh) (simp_all add: l)
  have w11: "setUint16 (p10 @ replicate (10 + ?d) 0) 34 16 = Inr (p11 @ replicate (8 + ?d) 0)"
    unfolding setUint16_def p11_def by (subst setBytes_fresh) (simp_all add: l)
  have w12: "writeString (p11 @ replicate (8 + ?d) 0) 36 ''data'' = Inr (p12 @ replicate (4 + ?d) 0)"
    unfolding p12_def by (subst writeString_fresh) (simp_all add: l)
  have w13: "setUint32 (p12 @ replicate (4 + ?d) 0) 40 (real ?d) = Inr (p13 @ replicate ?d 0)"
    unfolding setUint32_def p13_def by (subst setBytes_fresh) (simp_all add: l)
  have w14: "writeSamples (p13 @ replicate ?d 0) 44 (interleaved buffer)
               = Inr (p13 @ wavData buffer)"
    unfolding wavData_def by (subst writeSamples_fresh) (simp_all add: l mult.assoc)
  have h: "p13 = wavHeader buffer"
    by (simp add: p1_def p2_def p3_def p4_def p5_def p6_def p7_def p8_def p9_def p10_def
          p11_def p12_def p13_def wavHeader_def)
  show ?thesis
    unfolding audioBufferToWav_def Let_def
    by (simp add: w1 w2 w3 w4 w5 w6 w7 w8 w9 w10 w11 w12 w13[unfolded h] w14[unfolded h]
          del: of_nat_add of_nat_mult writeString.simps writeSamples.simps)
qed

lemma ToInteger_of_nat [simp]: "ToInteger (real n) = int n"
  by (simp add: ToInteger_def)

lemma ToInteger_of_int: "0 \<le> m \<Longrightarrow> ToInteger (real_of_int m) = m"
  by (simp add: ToInteger_def)

lemma readUint16_le16:
  assumes "take 2 (drop offset bytes) = le16 w"
  shows "readUint16 bytes offset = uint w"
proof -
  have "length (take 2 (drop offset bytes)) = 2" using assms by simp
  then have len: "offset + 2 \<le> length bytes" by simp
  have "bytes ! offset = take 2 (drop offset bytes) ! 0"
       "bytes ! (offset + 1) = take 2 (drop offset bytes) ! 1"
    using len by simp_all
  then show ?thesis using le16_read[of w] by (simp add: readUint16_def assms)
qed

lemma readUint32_le32:
  assumes "take 4 (drop offset bytes) = le32 w"
  shows "readUint32 bytes offset = uint w"
proof -
  have "length (take 4 (drop offset bytes)) = 4" using assms by simp
  then have len: "offset + 4 \<le> length bytes" by simp
  have "bytes ! offset = take 4 (drop offset bytes) ! 0"
       "bytes ! (offset + 1) = take 4 (drop offset bytes) ! 1"
       "bytes ! (offset + 2) = take 4 (drop offset bytes) ! 2"
       "bytes ! (offset + 3) = take 4 (drop offset bytes) ! 3"
    using len by simp_all
  then show ?thesis using le32_read[of w] by (simp add: readUint32_def assms)
qed

lemma header_fields:
  "take 2 (drop 32 (wavHeader buffer @ rest))
     = le16 (ToUint16 (real (numberOfChannels buffer * 2)))"
  "take 4 (drop 28 (wavHeader buffer @ rest))
     = le32 (ToUint32 (fl (sampleRate buffer * real (numberOfChannels buffer * 2))))"
  "take 4 (drop 24 (wavHeader buffer @ rest)) = le32 (ToUint32 (sampleRate buffer))"
  by (simp_all add: wavHeader_def del: of_nat_mult)

lemma length_wavHeader [simp]: "length (wavHeader buffer) = 44"
  by (simp add: wavHeader_def)

lemma length_wavData [simp]:
  "length (wavData buffer) = 2 * numberOfChannels buffer * frameCount buffer"
  by (simp add: wavData_def length_concat comp_def sum_list_triv)

lemma wav_fields:
  "readUint16 (wavHeader buffer @ rest) 32 = (2 * int (numberOfChannels buffer)) mod 2 ^ 16"
  "readUint32 (wavHeader buffer @ rest) 28
     = ToInteger (fl (sampleRate buffer * real (2 * numberOfChannels buffer))) mod 2 ^ 32"
  "readUint32 (wavHeader buffer @ rest) 24 = ToInteger (sampleRate buffer) mod 2 ^ 32"
proof -
  let ?n = "numberOfChannels buffer"
  have "readUint16 (wavHeader buffer @ rest) 32 = uint (ToUint16 (real (?n * 2)))"
    by (rule readUint16_le16[OF header_fields(1)])
  also have "\<dots> = int (?n * 2) mod 2 ^ 16"
    unfolding ToUint16_def ToInteger_of_nat uint_word_of_int by simp
  also have "int (?n * 2) = 2 * int ?n" by simp
  finally show "readUint16 (wavHeader buffer @ rest) 32 = (2 * int ?n) mod 2 ^ 16" .
  have "readUint32 (wavHeader buffer @ rest) 28
          = uint (ToUint32 (fl (sampleRate buffer * real (?n * 2))))"
    by (rule readUint32_le32[OF header_fields(2)])
  also have "\<dots> = ToInteger (fl (sampleRate buffer * real (?n * 2))) mod 2 ^ 32"
    unfolding ToUint32_def uint_word_of_int by simp
  also have "?n * 2 = 2 * ?n" by simp
  finally show "readUint32 (wavHeader buffer @ rest) 28
     = ToInteger (fl (sampleRate buffer * real (2 * ?n))) mod 2 ^ 32" .
  have "readUint32 (wavHeader buffer @ rest) 24 = uint (ToUint32 (sampleRate buffer))"
    by (rule readUint32_le32[OF header_fields(3)])
  also have "\<dots> = ToInteger (sampleRate buffer) mod 2 ^ 32"
    unfolding ToUint32_def uint_word_of_int by simp
  finally show "readUint32 (wavHeader buffer @ rest) 24 = ToInteger (sampleRate buffer) mod 2 ^ 32" .
qed

text \<open>The encoded word of frame \<open>i\<close> and channel \<open>ch\<close>.\<close>

lemma concat_nth_fixed:
  assumes "\<forall>xs\<in>set xss. length xs = n" and "i < length xss" and "j < n"
  shows "concat xss ! (i * n + j) = xss ! i ! j"
  using assms
proof (induction xss arbitrary: i)
  case Nil
  then show ?case by simp
next
  case (Cons xs xss)
  show ?case
  proof (cases i)
    case 0
    then show ?thesis using Cons.prems by (simp add: nth_append)
  next
    case (Suc i')
    have "concat (xs # xss) ! (i * n + j) = concat xss ! (i' * n + j)"
      using Cons.prems Suc by (simp add: nth_append)
    then show ?thesis using Cons.IH[of i'] Cons.prems Suc by simp
  qed
qed

lemma interleaved_index:
  assumes "i < frameCount b" and "ch < numberOfChannels b"
  shows "i * numberOfChannels b + ch < length (interleaved b)"
proof -
  have "i * numberOfChannels b + ch < Suc i * numberOfChannels b" using assms(2) by simp
  also have "\<dots> \<le> frameCount b * numberOfChannels b"
    using assms(1) by (intro mult_le_mono1) simp
  finally show ?thesis by (simp add: mult.commute)
qed

lemma interleaved_nth:
  assumes "i < frameCount b" and "ch < numberOfChannels b"
  shows "interleaved b ! (i * numberOfChannels b + ch) = sampleAt (channelData b ! ch) (int i)"
  unfolding interleaved_def
  by (subst concat_nth_fixed[where n = "numberOfChannels b"]) (use assms in simp_all)

lemma sint16_uint:
  "sint (w :: 16 word) = (if uint w < 32768 then uint w else uint w - 65536)"
proof -
  have b: "0 \<le> uint w" "uint w < 65536" using uint_lt2p[of w] by simp_all
  have "sint w = sint (word_of_int (uint w) :: 16 word)" by simp
  also have "\<dots> = (uint w + 32768) mod 65536 - 32768"
    by (subst int_word_sint) simp
  also have "\<dots> = (if uint w < 32768 then uint w else uint w - 65536)"
  proof (cases "uint w < 32768")
    case True
    then show ?thesis using b by simp
  next
    case False
    have e: "uint w + 32768 = (uint w - 32768) + 65536 * 1" by simp
    have "(uint w + 32768) mod 65536 = (uint w - 32768) mod 65536"
      unfolding e by (rule mod_mult_self2)
    also have "\<dots> = uint w - 32768" using False b by simp
    finally show ?thesis using False by simp
  qed
  finally show ?thesis .
qed

lemma wavData_word:
  assumes "k < length (interleaved b)"
  shows "readInt16 (wavHeader b @ wavData b) (44 + 2 * k)
           = sint (ToInt16 (intSample (interleaved b ! k)))"
proof -
  let ?f = "\<lambda>x. le16 (ToInt16 (intSample x))"
  let ?w = "ToInt16 (intSample (interleaved b ! k))"
  have all2: "\<forall>xs\<in>set (map ?f (interleaved b)). length xs = 2" by simp
  have n: "\<And>j. j < 2 \<Longrightarrow> wavData b ! (k * 2 + j) = le16 ?w ! j"
    unfolding wavData_def
    by (subst concat_nth_fixed[OF all2]) (use assms in simp_all)
  have "(wavHeader b @ wavData b) ! (44 + 2 * k) = wavData b ! (k * 2 + 0)"
    by (simp add: nth_append mult.commute)
  then have b0: "(wavHeader b @ wavData b) ! (44 + 2 * k) = le16 ?w ! 0" using n[of 0] by simp
  have "(wavHeader b @ wavData b) ! (44 + 2 * k + 1) = wavData b ! (k * 2 + 1)"
    by (simp add: nth_append mult.commute)
  then have b1: "(wavHeader b @ wavData b) ! (44 + 2 * k + 1) = le16 ?w ! 1"
    using n[of 1] by simp
  have "readUint16 (wavHeader b @ wavData b) (44 + 2 * k) = uint ?w"
    unfolding readUint16_def b0 b1 by (rule le16_read)
  then show ?thesis by (simp add: readInt16_def sint16_uint)
qed

lemma pcm16_intSample: "ToInteger (intSample x) = pcm16 x"
proof -
  let ?c = "if x < - 1 then - 1 else if 1 < x then 1 else x"
  have c: "max (- 1) (min 1 x) = ?c" by (simp add: max_def min_def)
  show ?thesis
  proof (cases "?c < 0")
    case True
    then have "?c * 32768 < 0" by (simp add: mult_less_0_iff)
    then show ?thesis using True
      unfolding intSample_def pcm16_def Let_def c ToInteger_def by simp
  next
    case False
    then have "0 \<le> ?c * 32767" by simp
    then show ?thesis using False
      unfolding intSample_def pcm16_def Let_def c ToInteger_def by simp
  qed
qed

text \<open>
  Claim C10, as amended. The blob has \<open>44 + 2 * numberOfChannels * frameCount\<close> bytes. The
  sixteen-bit word of frame \<open>i\<close> and channel \<open>ch\<close>, at offset
  \<open>44 + 2 * (i * numberOfChannels + ch)\<close>, is the sample \<^verbatim>\<open>channels[ch][i]\<close> clamped to
  \<open>[-1, 1]\<close> and scaled by 32768 (negative) or 32767 (otherwise); that value lies in
  \<open>[-32768, 32767]\<close> and is stored without wrap-around. The block-align field holds
  \<open>2 * numberOfChannels\<close>, the sample-rate field the integer part of the sample rate and the
  byte-rate field the integer part of \<open>sampleRate * blockAlign\<close>, each reduced modulo the
  width of the field. For a whole-number sample rate, fewer than 32768 channels and a byte
  rate below \<open>2^32\<close>, the fields are \<open>blockAlign = 2 * numberOfChannels\<close> and
  \<open>byteRate = sampleRate * blockAlign\<close>.
\<close>

theorem audioBufferToWav_encoding:
  "\<exists>bytes. audioBufferToWav buffer = Inr (Blob bytes ''audio/wav'')
     \<and> length bytes = 44 + 2 * numberOfChannels buffer * frameCount buffer
     \<and> (\<forall>i<frameCount buffer. \<forall>ch<numberOfChannels buffer.
           i < length (channelData buffer ! ch) \<longrightarrow>
             readInt16 bytes (44 + 2 * (i * numberOfChannels buffer + ch))
               = pcm16 (channelData buffer ! ch ! i)
             \<and> - 32768 \<le> pcm16 (channelData buffer ! ch ! i)
             \<and> pcm16 (channelData buffer ! ch ! i) \<le> 32767)
     \<and> readUint16 bytes 32 = (2 * int (numberOfChannels buffer)) mod 2 ^ 16
     \<and> readUint32 bytes 24 = ToInteger (sampleRate buffer) mod 2 ^ 32
     \<and> readUint32 bytes 28
         = ToInteger (fl (sampleRate buffer * real (2 * numberOfChannels buffer))) mod 2 ^ 32
     \<and> (0 < numberOfChannels buffer \<and> numberOfChannels buffer < 32768 \<and> 0 \<le> rate
          \<and> sampleRate buffer = real_of_int rate
          \<and> rate * (2 * int (numberOfChannels buffer)) < 2 ^ 32
         \<longrightarrow> readUint16 bytes 32 = 2 * int (numberOfChannels buffer)
             \<and> readUint32 bytes 24 = rate
             \<and> real_of_int (readUint32 bytes 28)
                 = sampleRate buffer * real_of_int (readUint16 bytes 32))"
proof -
  let ?n = "int (numberOfChannels buffer)"
  let ?bytes = "wavHeader buffer @ wavData buffer"
  have samples: "\<forall>i<frameCount buffer. \<forall>ch<numberOfChannels buffer.
           i < length (channelData buffer ! ch) \<longrightarrow>
             readInt16 ?bytes (44 + 2 * (i * numberOfChannels buffer + ch))
               = pcm16 (channelData buffer ! ch ! i)
             \<and> - 32768 \<le> pcm16 (channelData buffer ! ch ! i)
             \<and> pcm16 (channelData buffer ! ch ! i) \<le> 32767"
  proof (intro allI impI)
    fix i ch
    assume i: "i < frameCount buffer" and ch: "ch < numberOfChannels buffer"
      and l: "i < length (channelData buffer ! ch)"
    let ?x = "channelData buffer ! ch ! i"
    have x: "interleaved buffer ! (i * numberOfChannels buffer + ch) = ?x"
      using interleaved_nth[OF i ch] l by (simp add: sampleAt_def)
    have "readInt16 ?bytes (44 + 2 * (i * numberOfChannels buffer + ch))
            = sint (ToInt16 (intSample ?x))"
      using wavData_word[OF interleaved_index[OF i ch]] unfolding x .
    also have "\<dots> = pcm16 ?x"
      by (simp only: sint_ToInt16_intSample pcm16_intSample)
    finally have v: "readInt16 ?bytes (44 + 2 * (i * numberOfChannels buffer + ch)) = pcm16 ?x" .
    have "- 32768 \<le> pcm16 ?x \<and> pcm16 ?x \<le> 32767"
      using ToInteger_intSample_range[of ?x] unfolding pcm16_intSample by simp
    then show "readInt16 ?bytes (44 + 2 * (i * numberOfChannels buffer + ch)) = pcm16 ?x
             \<and> - 32768 \<le> pcm16 ?x \<and> pcm16 ?x \<le> 32767"
      using v by simp
  qed
  have exact: "readUint16 ?bytes 32 = 2 * ?n \<and> readUint32 ?bytes 24 = rate
                \<and> real_of_int (readUint32 ?bytes 28)
                    = sampleRate buffer * real_of_int (readUint16 ?bytes 32)"
    if h: "numberOfChannels buffer < 32768" "0 \<le> rate" "sampleRate buffer = real_of_int rate"
      "rate * (2 * ?n) < 2 ^ 32" and pos: "0 < numberOfChannels buffer"
  proof -
    have a: "readUint16 ?bytes 32 = 2 * ?n" using h(1) by (simp add: wav_fields)
    have "rate * 1 \<le> rate * (2 * ?n)" using h(2) pos by (intro mult_left_mono) simp_all
    then have r: "rate < 2 ^ 32" using h(4) by linarith
    have pos2: "0 \<le> rate * (2 * ?n)" using h(2) by simp
    have "\<bar>rate * (2 * ?n)\<bar> < 2 ^ 53" using pos2 h(4) by simp
    then have exact_product: "fl (real_of_int (rate * (2 * ?n))) = real_of_int (rate * (2 * ?n))"
      by (rule fl_of_int)
    have eq: "sampleRate buffer * real (2 * numberOfChannels buffer)
               = real_of_int (rate * (2 * ?n))" using h(3) by simp
    have p: "fl (sampleRate buffer * real (2 * numberOfChannels buffer))
               = real_of_int (rate * (2 * ?n))"
      unfolding eq by (rule exact_product)
    have c: "readUint32 ?bytes 28 = rate * (2 * ?n)"
      unfolding wav_fields p using pos2 h(4) by (simp only: ToInteger_of_int) simp
    have b: "readUint32 ?bytes 24 = rate"
      unfolding wav_fields h(3) using h(2) r by (simp only: ToInteger_of_int) simp
    show ?thesis using a b c h(3) by simp
  qed
  have f1: "audioBufferToWav buffer = Inr (Blob ?bytes ''audio/wav'')"
    by (rule audioBufferToWav_layout)
  have f2: "length ?bytes = 44 + 2 * numberOfChannels buffer * frameCount buffer" by simp
  have f7: "0 < numberOfChannels buffer \<and> numberOfChannels buffer < 32768 \<and> 0 \<le> rate
             \<and> sampleRate buffer = real_of_int rate
             \<and> rate * (2 * int (numberOfChannels buffer)) < 2 ^ 32
            \<longrightarrow> readUint16 ?bytes 32 = 2 * int (numberOfChannels buffer)
                \<and> readUint32 ?bytes 24 = rate
                \<and> real_of_int (readUint32 ?bytes 28)
                    = sampleRate buffer * real_of_int (readUint16 ?bytes 32)"
    using exact by blast
  show ?thesis
    by (intro conjI exI[of _ ?bytes] samples f1 f2 wav_fields f7)
qed

text \<open>
  A stereo buffer of two frames at 48000 Hz, with samples inside and outside \<open>[-1, 1]\<close>:
  0.5 becomes 16383, -0.5 becomes -16384, -2 is clamped and becomes -32768, and 1
  becomes 32767.
\<close>

theorem audioBufferToWav_encoding_witness:
  "\<exists>bytes. audioBufferToWav
       \<lparr> frameCount = 2, sampleRate = 48000,
         channelData = [[0.5, - 2], [- 0.5, 1]] \<rparr> = Inr (Blob bytes ''audio/wav'')
     \<and> length bytes = 52
     \<and> readInt16 bytes 44 = 16383 \<and> readInt16 bytes 46 = - 16384
     \<and> readInt16 bytes 48 = - 32768 \<and> readInt16 bytes 50 = 32767
     \<and> readUint16 bytes 32 = 4 \<and> readUint32 bytes 24 = 48000 \<and> readUint32 bytes 28 = 192000"
proof -
  let ?b = "\<lparr> frameCount = 2, sampleRate = 48000,
              channelData = [[0.5, - 2], [- 0.5, 1 :: real]] \<rparr>"
  have h: "0 < numberOfChannels ?b \<and> numberOfChannels ?b < 32768 \<and> (0 :: int) \<le> 48000
             \<and> sampleRate ?b = real_of_int 48000
             \<and> 48000 * (2 * int (numberOfChannels ?b)) < 2 ^ 32"
    by (simp add: numberOfChannels_def)
  from audioBufferToWav_encoding[of ?b 48000] obtain bytes where
    b: "audioBufferToWav ?b = Inr (Blob bytes ''audio/wav'')"
    and l: "length bytes = 44 + 2 * numberOfChannels ?b * frameCount ?b"
    and d: "\<forall>i<frameCount ?b. \<forall>ch<numberOfChannels ?b.
           i < length (channelData ?b ! ch) \<longrightarrow>
             readInt16 bytes (44 + 2 * (i * numberOfChannels ?b + ch))
               = pcm16 (channelData ?b ! ch ! i)
             \<and> - 32768 \<le> pcm16 (channelData ?b ! ch ! i)
             \<and> pcm16 (channelData ?b ! ch ! i) \<le> 32767"
    and f: "0 < numberOfChannels ?b \<and> numberOfChannels ?b < 32768 \<and> (0 :: int) \<le> 48000
             \<and> sampleRate ?b = real_of_int 48000
             \<and> 48000 * (2 * int (numberOfChannels ?b)) < 2 ^ 32
            \<longrightarrow> readUint16 bytes 32 = 2 * int (numberOfChannels ?b)
                \<and> readUint32 bytes 24 = 48000
                \<and> real_of_int (readUint32 bytes 28)
                    = sampleRate ?b * real_of_int (readUint16 bytes 32)"
    by blast
  from f h have "readUint16 bytes 32 = 2 * int (numberOfChannels ?b)"
    "readUint32 bytes 24 = 48000"
    "real_of_int (readUint32 bytes 28) = sampleRate ?b * real_of_int (readUint16 bytes 32)"
    by blast+
  then have "readUint16 bytes 32 = 4" "readUint32 bytes 24 = 48000"
    "real_of_int (readUint32 bytes 28) = real_of_int 192000"
    by (simp_all add: numberOfChannels_def)
  then have hdr: "readUint16 bytes 32 = 4 \<and> readUint32 bytes 24 = 48000
               \<and> readUint32 bytes 28 = 192000" by linarith
  have s00: "readInt16 bytes 44 = 16383"
    using d[rule_format, of 0 0] by (simp add: numberOfChannels_def pcm16_def)
  have s01: "readInt16 bytes 46 = - 16384"
    using d[rule_format, of 0 1] by (simp add: numberOfChannels_def pcm16_def)
  have s10: "readInt16 bytes 48 = - 32768"
    using d[rule_format, of 1 0] by (simp add: numberOfChannels_def pcm16_def)
  have s11: "readInt16 bytes 50 = 32767"
    using d[rule_format, of 1 1] by (simp add: numberOfChannels_def pcm16_def)
  have "length bytes = 52" using l by (simp add: numberOfChannels_def)
  then show ?thesis using b hdr s00 s01 s10 s11 by blast
qed

text \<open>
  The claim as stated fails for a sample rate that is not a whole number (the sample rate
  of an \<^verbatim>\<open>AudioBuffer\<close> is a float): a mono buffer at 22050.75 Hz has the byte-rate field
  44101, which is neither \<open>sampleRate * blockAlign = 44101.5\<close> nor the product 44100 of the
  sample-rate field and the block-align field.
\<close>

theorem audioBufferToWav_byteRate_counterexample:
  "\<exists>bytes. audioBufferToWav \<lparr> frameCount = 1, sampleRate = 22050.75, channelData = [[0]] \<rparr>
              = Inr (Blob bytes ''audio/wav'')
     \<and> readUint16 bytes 32 = 2 \<and> readUint32 bytes 24 = 22050 \<and> readUint32 bytes 28 = 44101
     \<and> real_of_int (readUint32 bytes 28) \<noteq> 22050.75 * real_of_int (readUint16 bytes 32)
     \<and> readUint32 bytes 28 \<noteq> readUint32 bytes 24 * readUint16 bytes 32"
proof -
  let ?b = "\<lparr> frameCount = 1, sampleRate = 22050.75, channelData = [[0 :: real]] \<rparr>"
  let ?bytes = "wavHeader ?b @ wavData ?b"
  have p: "fl (sampleRate ?b * real (2 * numberOfChannels ?b)) = 44101.5"
    by (rule fl_eqI[where k = 15 and m = "88203 * 2 ^ 36", THEN trans])
       (simp_all add: roundTiesToEven_def power_int_minus Let_def numberOfChannels_def)
  have a: "readUint16 ?bytes 32 = 2" by (simp add: wav_fields numberOfChannels_def)
  have b: "readUint32 ?bytes 24 = 22050" by (simp add: wav_fields ToInteger_def)
  have c: "readUint32 ?bytes 28 = 44101" unfolding wav_fields p by (simp add: ToInteger_def)
  have d: "real_of_int (readUint32 ?bytes 28) \<noteq> 22050.75 * real_of_int (readUint16 ?bytes 32)"
    unfolding a c by simp
  have e: "readUint32 ?bytes 28 \<noteq> readUint32 ?bytes 24 * readUint16 ?bytes 32"
    unfolding a b c by simp
  have la: "audioBufferToWav ?b = Inr (Blob ?bytes ''audio/wav'')"
    by (rule audioBufferToWav_layout)
  show ?thesis by (intro exI[of _ ?bytes] conjI la a b c d e)
qed

section \<open>The trimmed buffer\<close>

lemma length_channelData [simp]: "length (channelData b) = numberOfChannels b"
  by (simp add: numberOfChannels_def)

lemma numberOfChannels_update [simp]:
  "numberOfChannels (b\<lparr>channelData := cs\<rparr>) = length cs"
  by (simp add: numberOfChannels_def)

lemma numberOfChannels_record [simp]:
  "numberOfChannels \<lparr> frameCount = n, sampleRate = r, channelData = cs \<rparr> = length cs"
  by (simp add: numberOfChannels_def)

text \<open>The copy loops keep the shape of the target buffer, and succeed on every channel.\<close>

lemma copyChannels_fields:
  "copyChannels a t s n chs = Inr t' \<Longrightarrow>
     numberOfChannels t' = numberOfChannels t \<and> frameCount t' = frameCount t
     \<and> sampleRate t' = sampleRate t \<and> length (channelData t') = length (channelData t)"
proof (induction chs arbitrary: t)
  case Nil
  then show ?case by simp
next
  case (Cons ch chs)
  from Cons.prems obtain original target where
    o: "getChannelData a ch = Inr original" and g: "getChannelData t ch = Inr target"
    and r: "copyChannels a
       (t\<lparr>channelData := (channelData t)
          [ch := fold (\<lambda>i t. t[i := sampleAt original (s + int i)]) [0 ..< nat n] target]\<rparr>)
       s n chs = Inr t'"
    by (auto simp: bindE_def split: sum.splits)
  from Cons.IH[OF r] show ?case by simp
qed

lemma copyChannels_ok:
  assumes "\<forall>ch\<in>set chs. ch < numberOfChannels a \<and> ch < numberOfChannels t"
  shows "\<exists>t'. copyChannels a t s n chs = Inr t'"
  using assms
proof (induction chs arbitrary: t)
  case Nil
  then show ?case by simp
next
  case (Cons ch chs)
  have o: "getChannelData a ch = Inr (channelData a ! ch)"
    and g: "getChannelData t ch = Inr (channelData t ! ch)"
    using Cons.prems by (simp_all add: getChannelData_def)
  let ?t = "t\<lparr>channelData := (channelData t)
          [ch := fold (\<lambda>i t. t[i := sampleAt (channelData a ! ch) (s + int i)]) [0 ..< nat n]
                   (channelData t ! ch)]\<rparr>"
  have "\<exists>t'. copyChannels a ?t s n chs = Inr t'"
    by (rule Cons.IH) (use Cons.prems in simp)
  then show ?case by (simp add: o g)
qed

text \<open>
  What the part of \<^verbatim>\<open>trimSilence\<close> after the scans returns: the passthrough, or the
  encoding of a buffer of \<open>speechEnd - speechStart\<close> frames.
\<close>

lemma trimBetween_cases:
  assumes "trimBetween audioBlob a samples cfg s e = Inr r"
  shows "r = passthrough audioBlob
         \<or> (\<exists>tb. audioBufferToWav tb = Inr (blob r)
              \<and> sampleRate tb = sampleRate a \<and> numberOfChannels tb = numberOfChannels a
              \<and> int (frameCount tb) = e - s
              \<and> \<lfloor>fl (sampleRate a * minAudioDuration cfg)\<rfloor> \<le> e - s
              \<and> \<not> (s = 0 \<and> e = int (length samples))
              \<and> trimmedLeadingMs r = Math_round (fl (fl (real_of_int s / sampleRate a) * 1000))
              \<and> trimmedTrailingMs r
                  = max 0 (Math_round (fl (fl (real_of_int (int (length samples) - e)
                                        / sampleRate a) * 1000))))"
proof (cases "e - s < \<lfloor>fl (sampleRate a * minAudioDuration cfg)\<rfloor> \<or> (s = 0 \<and> e = int (length samples))")
  case True
  then have "trimBetween audioBlob a samples cfg s e = Inr (passthrough audioBlob)"
    unfolding trimBetween_def Let_def by auto
  then show ?thesis using assms by simp
next
  case False
  from assms False obtain t0 t1 wav where
    c: "createBuffer (numberOfChannels a) (e - s) (sampleRate a) = Inr t0"
    and p: "copyChannels a t0 s (e - s) [0 ..< numberOfChannels a] = Inr t1"
    and w: "audioBufferToWav t1 = Inr wav"
    and r: "r = \<lparr> blob = wav,
              trimmedLeadingMs = Math_round (fl (fl (real_of_int s / sampleRate a) * 1000)),
              trimmedTrailingMs = max 0 (Math_round (fl (fl (real_of_int (int (length samples) - e)
                                        / sampleRate a) * 1000))) \<rparr>"
    by (auto simp: trimBetween_def Let_def bindE_def split: sum.splits if_splits)
  from c have t0: "numberOfChannels t0 = numberOfChannels a" "sampleRate t0 = sampleRate a"
    "int (frameCount t0) = e - s"
    by (auto simp: createBuffer_def split: if_splits)
  from copyChannels_fields[OF p] t0 have "numberOfChannels t1 = numberOfChannels a"
    "sampleRate t1 = sampleRate a" "int (frameCount t1) = e - s" by simp_all
  then show ?thesis using w r False by auto
qed

lemma trimBetween_extremes:
  "trimBetween audioBlob a samples cfg 0 (int (length samples)) = Inr (passthrough audioBlob)"
  by (simp add: trimBetween_def Let_def)

lemma trimBetween_short:
  "e - s < \<lfloor>fl (sampleRate a * minAudioDuration cfg)\<rfloor> \<Longrightarrow>
   trimBetween audioBlob a samples cfg s e = Inr (passthrough audioBlob)"
  by (simp add: trimBetween_def Let_def)

lemma trimBetween_reencoded:
  assumes "wellFormed a" and "0 < e - s" and "\<lfloor>fl (sampleRate a * minAudioDuration cfg)\<rfloor> \<le> e - s"
    and "\<not> (s = 0 \<and> e = int (length samples))"
  shows "\<exists>bytes. trimBetween audioBlob a samples cfg s e =
           Inr \<lparr> blob = Blob bytes ''audio/wav'',
                 trimmedLeadingMs = Math_round (fl (fl (real_of_int s / sampleRate a) * 1000)),
                 trimmedTrailingMs = max 0 (Math_round (fl (fl (real_of_int (int (length samples) - e)
                                        / sampleRate a) * 1000))) \<rparr>
         \<and> length bytes = 44 + 2 * numberOfChannels a * nat (e - s)"
proof -
  let ?t0 = "\<lparr> frameCount = nat (e - s), sampleRate = sampleRate a,
               channelData = replicate (numberOfChannels a) (replicate (nat (e - s)) 0) \<rparr>"
  have c: "createBuffer (numberOfChannels a) (e - s) (sampleRate a) = Inr ?t0"
    using assms(1,2) by (simp add: createBuffer_def wellFormed_def)
  have "\<exists>t1. copyChannels a ?t0 s (e - s) [0 ..< numberOfChannels a] = Inr t1"
    by (rule copyChannels_ok) (use assms(1) in \<open>simp add: wellFormed_def\<close>)
  then obtain t1 where p: "copyChannels a ?t0 s (e - s) [0 ..< numberOfChannels a] = Inr t1" ..
  from copyChannels_fields[OF p] have f: "numberOfChannels t1 = numberOfChannels a"
    "frameCount t1 = nat (e - s)" by simp_all
  have w: "audioBufferToWav t1 = Inr (Blob (wavHeader t1 @ wavData t1) ''audio/wav'')"
    by (rule audioBufferToWav_layout)
  have "length (wavHeader t1 @ wavData t1) = 44 + 2 * numberOfChannels a * nat (e - s)"
    using f by simp
  moreover have "trimBetween audioBlob a samples cfg s e =
           Inr \<lparr> blob = Blob (wavHeader t1 @ wavData t1) ''audio/wav'',
                 trimmedLeadingMs = Math_round (fl (fl (real_of_int s / sampleRate a) * 1000)),
                 trimmedTrailingMs = max 0 (Math_round (fl (fl (real_of_int (int (length samples) - e)
                                        / sampleRate a) * 1000))) \<rparr>"
    using assms(3,4) by (auto simp: trimBetween_def Let_def c p w)
  ultimately show ?thesis by blast
qed

section \<open>\<^verbatim>\<open>trimSilence\<close> and \<^verbatim>\<open>trimLeadingSilence\<close>\<close>

lemma trimSilence_cfg_decoded:
  assumes "decodeAudioData audioBlob = Inr a" and "monoSamples a = Inr samples"
    and "findSpeechStart samples (sampleRate a) cfg = Some s"
    and "speechEndOf samples (sampleRate a) cfg = Some e"
  shows "trimSilence_cfg decodeAudioData audioBlob cfg =
           Some (case trimBetween audioBlob a samples cfg s e of
                   Inl err \<Rightarrow> passthrough audioBlob | Inr r \<Rightarrow> r)"
  using assms by (simp add: trimSilence_cfg_def trimSilence_try_def split: sum.splits)

lemma passthrough_fields [simp]:
  "blob (passthrough b) = b" "trimmedLeadingMs (passthrough b) = 0"
  "trimmedTrailingMs (passthrough b) = 0"
  by (simp_all add: passthrough_def)

lemma spread_trimTrailing_False:
  "spread DEFAULT_CONFIG (config\<lparr>opt_trimTrailing := Some False\<rparr>)
     = (spread DEFAULT_CONFIG config)\<lparr>trimTrailing := False\<rparr>"
  by (simp add: spread_def orElse_def)

lemma findSpeechStart_trimTrailing [simp]:
  "findSpeechStart samples rate (cfg\<lparr>trimTrailing := v\<rparr>) = findSpeechStart samples rate cfg"
  by (simp add: findSpeechStart_def)

lemma trimSilence_cfg_cases:
  assumes "trimSilence_cfg decodeAudioData audioBlob cfg = Some r"
  shows "r = passthrough audioBlob
         \<or> (\<exists>a samples s e tb. decodeAudioData audioBlob = Inr a \<and> monoSamples a = Inr samples
              \<and> findSpeechStart samples (sampleRate a) cfg = Some s
              \<and> speechEndOf samples (sampleRate a) cfg = Some e
              \<and> audioBufferToWav tb = Inr (blob r)
              \<and> sampleRate tb = sampleRate a \<and> int (frameCount tb) = e - s
              \<and> \<lfloor>fl (sampleRate a * minAudioDuration cfg)\<rfloor> \<le> e - s
              \<and> trimmedLeadingMs r = Math_round (fl (fl (real_of_int s / sampleRate a) * 1000))
              \<and> trimmedTrailingMs r
                  = max 0 (Math_round (fl (fl (real_of_int (int (length samples) - e)
                                        / sampleRate a) * 1000))))"
proof (cases "trimSilence_try decodeAudioData audioBlob cfg")
  case None
  then show ?thesis using assms by (simp add: trimSilence_cfg_def)
next
  case (Some out)
  show ?thesis
  proof (cases out)
    case (Inl err)
    then show ?thesis using assms Some by (simp add: trimSilence_cfg_def)
  next
    case (Inr res)
    then have rr: "r = res" using assms Some by (simp add: trimSilence_cfg_def)
    from Some Inr obtain a samples s e where
      d: "decodeAudioData audioBlob = Inr a" and m: "monoSamples a = Inr samples"
      and s: "findSpeechStart samples (sampleRate a) cfg = Some s"
      and e: "speechEndOf samples (sampleRate a) cfg = Some e"
      and t: "trimBetween audioBlob a samples cfg s e = Inr res"
      by (auto simp: trimSilence_try_def split: sum.splits option.splits)
    from trimBetween_cases[OF t] show ?thesis
      unfolding rr using d m s e by blast
  qed
qed

lemma Math_round_0 [simp]: "Math_round 0 = 0"
  by (simp add: Math_round_def)

lemma trimSilence_mono_reencoded:
  assumes "decodeAudioData audioBlob =
             Inr \<lparr> frameCount = length samples, sampleRate = rate,
                   channelData = [samples] \<rparr>"
    and "0 < rate" and "cfg = spread DEFAULT_CONFIG config"
    and "findSpeechStart samples rate cfg = Some s"
    and "speechEndOf samples rate cfg = Some e"
    and "0 < e - s" and "\<lfloor>fl (rate * minAudioDuration cfg)\<rfloor> \<le> e - s"
    and "\<not> (s = 0 \<and> e = int (length samples))"
  shows "\<exists>bytes. trimSilence decodeAudioData audioBlob config =
           Some \<lparr> blob = Blob bytes ''audio/wav'',
                  trimmedLeadingMs = Math_round (fl (fl (real_of_int s / rate) * 1000)),
                  trimmedTrailingMs = max 0 (Math_round
                     (fl (fl (real_of_int (int (length samples) - e) / rate) * 1000))) \<rparr>
         \<and> length bytes = 44 + 2 * nat (e - s)"
proof -
  let ?a = "\<lparr> frameCount = length samples, sampleRate = rate,
                   channelData = [samples] \<rparr>"
  have wf: "wellFormed ?a" using assms(2) by (simp add: wellFormed_def)
  have m: "monoSamples ?a = Inr samples" by (simp add: monoSamples_def getChannelData_def)
  have s: "findSpeechStart samples (sampleRate ?a) cfg = Some s" using assms(4) by simp
  have e: "speechEndOf samples (sampleRate ?a) cfg = Some e" using assms(5) by simp
  from trimBetween_reencoded[OF wf assms(6), of cfg samples audioBlob] assms(7,8)
  obtain bytes where
    t: "trimBetween audioBlob ?a samples cfg s e =
           Inr \<lparr> blob = Blob bytes ''audio/wav'',
                 trimmedLeadingMs = Math_round (fl (fl (real_of_int s / rate) * 1000)),
                 trimmedTrailingMs = max 0 (Math_round
                     (fl (fl (real_of_int (int (length samples) - e) / rate) * 1000))) \<rparr>"
    and l: "length bytes = 44 + 2 * nat (e - s)"
    by auto
  have "trimSilence decodeAudioData audioBlob config =
           Some (case trimBetween audioBlob ?a samples cfg s e of
                   Inl err \<Rightarrow> passthrough audioBlob | Inr r \<Rightarrow> r)"
    unfolding trimSilence_def assms(3)[symmetric]
    using assms(1) m s e by (rule trimSilence_cfg_decoded)
  then show ?thesis using t l by simp
qed

lemmas start_eval = findSpeechStart_def findSpeechStart_loop.simps computeRMS_def
  sum_list_replicate spread_def defaults_8000 emptyConfig_def orElse_def

text \<open>
  A call that never returns: \<open>windowSize = 0\<close> on one second of speech. No exception is
  raised, and no result is produced.
\<close>

lemma trimSilence_zero_window_never_returns:
  "trimSilence
     (\<lambda>b. Inr \<lparr> frameCount = 8000, sampleRate = 8000, channelData = [replicate 8000 1] \<rparr>)
     (Blob [] ''audio/webm'') (emptyConfig\<lparr>opt_windowSize := Some 0\<rparr>) = None"
proof -
  let ?cfg = "spread DEFAULT_CONFIG (emptyConfig\<lparr>opt_windowSize := Some 0\<rparr>)"
  have "findSpeechStart (replicate 8000 1) 8000 ?cfg = None"
    by (rule findSpeechStart_zero_window)
       (simp_all add: spread_def defaults_8000 emptyConfig_def orElse_def)
  then show ?thesis
    by (simp add: trimSilence_def trimSilence_cfg_def trimSilence_try_def monoSamples_def
          getChannelData_def numberOfChannels_def)
qed

text \<open>
  A negative \<open>maxLeadingTrim\<close> makes the speech start negative: with
  \<open>maxLeadingTrim = -1\<close> and \<open>minSilenceDuration = 0\<close> the forward scan returns
  \<open>Math.min(0, -8000)\<close>, and 0.9 seconds of speech at 8000 Hz are encoded as 15200 frames.
\<close>

lemma trimSilence_negative_cap:
  "\<exists>bytes. trimSilence
       (\<lambda>b. Inr \<lparr> frameCount = 7200, sampleRate = 8000, channelData = [replicate 7200 1] \<rparr>)
       (Blob [] ''audio/webm'')
       (emptyConfig\<lparr>opt_maxLeadingTrim := Some (- 1), opt_minSilenceDuration := Some 0\<rparr>)
     = Some \<lparr> blob = Blob bytes ''audio/wav'', trimmedLeadingMs = - 1000,
              trimmedTrailingMs = 0 \<rparr>
     \<and> length bytes = 44 + 2 * 15200"
proof -
  let ?samples = "replicate 7200 (1 :: real)"
  let ?config = "emptyConfig\<lparr>opt_maxLeadingTrim := Some (- 1), opt_minSilenceDuration := Some 0\<rparr>"
  let ?cfg = "spread DEFAULT_CONFIG ?config"
  let ?decode = "\<lambda>b :: blob. (Inr \<lparr> frameCount = 7200, sampleRate = 8000,
                    channelData = [?samples] \<rparr> :: js_error + AudioBuffer)"
  have M: "fl (- 8000) = - 8000"
    by (rule fl_eqI[where k = 12 and m = "- 8000 * 2 ^ 40", THEN trans])
       (simp_all add: roundTiesToEven_def power_int_minus Let_def)
  have ms: "fl (fl (- 1) * 1000) = - 1000"
  proof -
    have "fl (- 1) = - 1"
      by (rule fl_eqI[where k = 0 and m = "- (2 ^ 52)", THEN trans])
         (simp_all add: roundTiesToEven_def power_int_minus Let_def)
    moreover have "fl (- 1000) = - 1000"
      by (rule fl_eqI[where k = 9 and m = "- 1000 * 2 ^ 43", THEN trans])
         (simp_all add: roundTiesToEven_def power_int_minus Let_def)
    ultimately show ?thesis by simp
  qed
  have s: "findSpeechStart ?samples 8000 ?cfg = Some (- 8000)"
    by (simp add: findSpeechStart_def findSpeechStart_loop.simps spread_def emptyConfig_def
          orElse_def M)
  have e: "speechEndOf ?samples 8000 ?cfg = Some 7200"
    by (simp add: speechEndOf_def spread_def emptyConfig_def orElse_def trimTrailing_default)
  from trimSilence_mono_reencoded[of ?decode "Blob [] ''audio/webm''" ?samples 8000 ?cfg ?config
        "- 8000" 7200, OF _ _ _ s e]
  show ?thesis
    by (simp add: spread_def emptyConfig_def orElse_def samples_8000 Math_round_def ms)
qed




text \<open>
  Claim C3. \<^verbatim>\<open>trimSilence\<close> never raises: when the decoder fails, and whenever the
  \<^verbatim>\<open>try\<close> block completes, by a normal return or by an exception, \<^verbatim>\<open>trimSilence\<close>
  returns a result; after an exception the result is the original blob with
  \<open>trimmedLeadingMs = 0\<close> and \<open>trimmedTrailingMs = 0\<close>.
\<close>

theorem trimSilence_never_raises:
  "(decodeAudioData audioBlob = Inl e \<longrightarrow>
      trimSilence decodeAudioData audioBlob config = Some (passthrough audioBlob))
   \<and> (\<forall>outcome. trimSilence_try decodeAudioData audioBlob (spread DEFAULT_CONFIG config)
                   = Some outcome \<longrightarrow>
        (\<exists>r. trimSilence decodeAudioData audioBlob config = Some r
            \<and> (\<forall>err. outcome = Inl err \<longrightarrow> r = passthrough audioBlob)
            \<and> (\<forall>result. outcome = Inr result \<longrightarrow> r = result)))
   \<and> passthrough audioBlob
       = \<lparr> blob = audioBlob, trimmedLeadingMs = 0, trimmedTrailingMs = 0 \<rparr>"
  by (auto simp: trimSilence_def trimSilence_cfg_def trimSilence_try_def passthrough_def
        split: sum.splits)

text \<open>
  A decoder that rejects the blob; and a processing failure: for a quarter of a second of
  pure silence and \<open>minAudioDuration = 0\<close> the trimmed length is 0, \<^verbatim>\<open>createBuffer\<close>
  throws, and the original blob comes back.
\<close>

theorem trimSilence_never_raises_witness:
  "trimSilence (\<lambda>b. Inl DecodeError) (Blob [1, 2, 3] ''audio/webm'') emptyConfig
     = Some \<lparr> blob = Blob [1, 2, 3] ''audio/webm'', trimmedLeadingMs = 0,
              trimmedTrailingMs = 0 \<rparr>
   \<and> trimSilence_try
       (\<lambda>b. Inr \<lparr> frameCount = 2000, sampleRate = 8000,
                    channelData = [replicate 2000 0] \<rparr>)
       (Blob [1, 2, 3] ''audio/webm'')
       (spread DEFAULT_CONFIG (emptyConfig\<lparr>opt_minAudioDuration := Some 0\<rparr>))
     = Some (Inl NotSupportedError)
   \<and> trimSilence
       (\<lambda>b. Inr \<lparr> frameCount = 2000, sampleRate = 8000,
                    channelData = [replicate 2000 0] \<rparr>)
       (Blob [1, 2, 3] ''audio/webm'') (emptyConfig\<lparr>opt_minAudioDuration := Some 0\<rparr>)
     = Some \<lparr> blob = Blob [1, 2, 3] ''audio/webm'', trimmedLeadingMs = 0,
              trimmedTrailingMs = 0 \<rparr>"
proof -
  let ?blob = "Blob [1, 2, 3] ''audio/webm''"
  let ?fail = "\<lambda>b :: blob. (Inl DecodeError :: js_error + AudioBuffer)"
  let ?a = "\<lparr> frameCount = 2000, sampleRate = 8000,
              channelData = [replicate 2000 (0 :: real)] \<rparr>"
  let ?decode = "\<lambda>b :: blob. (Inr ?a :: js_error + AudioBuffer)"
  let ?config = "emptyConfig\<lparr>opt_minAudioDuration := Some 0\<rparr>"
  have thrown: "trimSilence_try ?decode ?blob (spread DEFAULT_CONFIG ?config)
                  = Some (Inl NotSupportedError)"
    by (simp add: trimSilence_try_def monoSamples_def getChannelData_def speechEndOf_def
          trimBetween_def createBuffer_def start_eval)
  have 1: "trimSilence ?fail ?blob emptyConfig = Some (passthrough ?blob)"
    using trimSilence_never_raises[of ?fail ?blob DecodeError emptyConfig] by simp
  have 2: "trimSilence ?decode ?blob ?config = Some (passthrough ?blob)"
    using trimSilence_never_raises[of ?decode ?blob DecodeError ?config] thrown by auto
  show ?thesis using 1 2 thrown by (simp add: passthrough_def)
qed

text \<open>
  Claim C8. When the backward scan has counted more than \<open>maxTrailingTrim\<close> seconds of
  silence (\<open>k\<close> windows, none of them speech or decrescendo, that amount to more than the
  \<open>\<lfloor>fl (sampleRate * maxTrailingTrim)\<rfloor>\<close> samples that the code compares with)
  \<^verbatim>\<open>findSpeechEnd\<close> returns the number of samples, and \<^verbatim>\<open>trimSilence\<close> reports zero
  trailing trim.
\<close>

theorem findSpeechEnd_over_cap:
  assumes "decodeAudioData audioBlob = Inr audioBuffer"
    and "monoSamples audioBuffer = Inr samples"
    and "rate = sampleRate audioBuffer" and "0 < rate"
    and "cfg = spread DEFAULT_CONFIG config" and "trimTrailing cfg"
    and "w = \<lfloor>fl (rate * windowSize cfg)\<rfloor>" and "0 < w"
    and "E = silenceThreshold cfg * endThresholdMultiplier cfg"
    and "\<forall>j<k. 0 \<le> scanStart samples w j \<and> \<not> scanStops samples E w j"
    and "\<lfloor>fl (rate * maxTrailingTrim cfg)\<rfloor> < int k * w"
  shows "findSpeechEnd samples rate cfg = Some (int (length samples))
         \<and> (\<exists>r. trimSilence decodeAudioData audioBlob config = Some r
                \<and> trimmedTrailingMs r = 0)"
proof -
  have e: "findSpeechEnd samples rate cfg = Some (int (length samples))"
    by (rule findSpeechEnd_cap[OF assms(7,4,9,10,11)])
  then have e': "speechEndOf samples (sampleRate audioBuffer) cfg = Some (int (length samples))"
    using assms(3,6) by (simp add: speechEndOf_def)
  obtain s where s: "findSpeechStart samples (sampleRate audioBuffer) cfg = Some s"
    using findSpeechStart_total[of "sampleRate audioBuffer" cfg samples] assms(3,7,8) by auto
  let ?out = "trimBetween audioBlob audioBuffer samples cfg s (int (length samples))"
  let ?r = "case ?out of Inl err \<Rightarrow> passthrough audioBlob | Inr r \<Rightarrow> r"
  have r: "trimSilence decodeAudioData audioBlob config = Some ?r"
    unfolding trimSilence_def assms(5)[symmetric]
    using assms(1,2) s e' by (rule trimSilence_cfg_decoded)
  have "trimmedTrailingMs ?r = 0"
  proof (cases ?out)
    case (Inl err)
    then show ?thesis by simp
  next
    case (Inr res)
    from trimBetween_cases[OF this] show ?thesis unfolding Inr by auto
  qed
  then show ?thesis using e r by blast
qed

text \<open>
  One second of speech and 8.05 seconds of silence at 8000 Hz, default configuration with
  trailing trim: 161 silent windows pass the cap of 8 seconds.
\<close>

theorem findSpeechEnd_over_cap_witness:
  "findSpeechEnd (replicate 8000 1 @ replicate 64400 0) 8000
      (spread DEFAULT_CONFIG (emptyConfig\<lparr>opt_trimTrailing := Some True\<rparr>)) = Some 72400
   \<and> (\<exists>r. trimSilence
            (\<lambda>b. Inr \<lparr> frameCount = 72400, sampleRate = 8000,
                         channelData = [replicate 8000 1 @ replicate 64400 0] \<rparr>)
            (Blob [] ''audio/webm'') (emptyConfig\<lparr>opt_trimTrailing := Some True\<rparr>) = Some r
          \<and> trimmedTrailingMs r = 0)"
proof -
  let ?samples = "replicate 8000 1 @ replicate 64400 (0 :: real)"
  let ?buffer = "\<lparr> frameCount = 72400, sampleRate = 8000,
                   channelData = [?samples] \<rparr>"
  let ?config = "emptyConfig\<lparr>opt_trimTrailing := Some True\<rparr>"
  let ?cfg = "spread DEFAULT_CONFIG ?config"
  let ?E = "silenceThreshold ?cfg * endThresholdMultiplier ?cfg"
  have cfg: "silenceThreshold ?cfg = silenceThreshold DEFAULT_CONFIG"
    "endThresholdMultiplier ?cfg = endThresholdMultiplier DEFAULT_CONFIG"
    by (simp_all add: spread_def emptyConfig_def orElse_def)
  have quiet: "\<forall>j<161. 0 \<le> scanStart ?samples 400 j \<and> \<not> scanStops ?samples ?E 400 j"
  proof (intro allI impI)
    fix j :: nat assume j: "j < 161"
    then have "int (length (replicate 8000 (1::real))) \<le> scanStart ?samples 400 j"
      by (simp add: scanStart_def)
    then have "scanRMS ?samples 400 j = 0"
      unfolding scanRMS_def by (rule computeRMS_silent_tail)
    then have "\<not> scanStops ?samples ?E 400 j"
      by (intro silent_window_not_stop) (simp_all add: cfg amplitude_defaults)
    moreover have "0 \<le> scanStart ?samples 400 j" using j by (simp add: scanStart_def)
    ultimately show "0 \<le> scanStart ?samples 400 j \<and> \<not> scanStops ?samples ?E 400 j" by simp
  qed
  have "findSpeechEnd ?samples 8000 ?cfg = Some (int (length ?samples))
         \<and> (\<exists>r. trimSilence (\<lambda>b. Inr ?buffer) (Blob [] ''audio/webm'') ?config = Some r
                \<and> trimmedTrailingMs r = 0)"
    by (rule findSpeechEnd_over_cap[where audioBuffer = ?buffer and w = 400 and E = ?E
          and k = 161, OF _ _ _ _ _ _ _ _ _ quiet])
       (simp_all add: spread_def emptyConfig_def orElse_def monoSamples_def getChannelData_def
          defaults_8000)
  then show ?thesis by simp
qed

text \<open>
  Claim C9. \<^verbatim>\<open>trimLeadingSilence\<close> returns the blob and the leading trim of
  \<^verbatim>\<open>trimSilence\<close> run on the merged configuration with \<open>trimTrailing\<close> forced to false,
  whatever the caller's \<open>trimTrailing\<close>; in that run the trailing trim is zero, and the
  result is the original blob or the encoding of all frames from the speech start to the
  end of the samples.
\<close>

theorem trimLeadingSilence_keeps_tail:
  "trimLeadingSilence decodeAudioData audioBlob config
     = map_option (\<lambda>r. (blob r, trimmedLeadingMs r))
         (trimSilence_cfg decodeAudioData audioBlob
            ((spread DEFAULT_CONFIG config)\<lparr>trimTrailing := False\<rparr>))
   \<and> trimLeadingSilence decodeAudioData audioBlob (config\<lparr>opt_trimTrailing := Some True\<rparr>)
       = trimLeadingSilence decodeAudioData audioBlob config
   \<and> (\<forall>r. trimSilence decodeAudioData audioBlob (config\<lparr>opt_trimTrailing := Some False\<rparr>)
             = Some r \<longrightarrow>
          trimmedTrailingMs r = 0
          \<and> (r = passthrough audioBlob
             \<or> (\<exists>audioBuffer samples speechStart trimmedBuffer.
                   decodeAudioData audioBlob = Inr audioBuffer
                 \<and> monoSamples audioBuffer = Inr samples
                 \<and> findSpeechStart samples (sampleRate audioBuffer)
                      (spread DEFAULT_CONFIG config) = Some speechStart
                 \<and> audioBufferToWav trimmedBuffer = Inr (blob r)
                 \<and> int (frameCount trimmedBuffer) = int (length samples) - speechStart)))"
proof (intro conjI allI impI)
  show "trimLeadingSilence decodeAudioData audioBlob config
     = map_option (\<lambda>r. (blob r, trimmedLeadingMs r))
         (trimSilence_cfg decodeAudioData audioBlob
            ((spread DEFAULT_CONFIG config)\<lparr>trimTrailing := False\<rparr>))"
    by (simp add: trimLeadingSilence_def trimSilence_def spread_trimTrailing_False)
  show "trimLeadingSilence decodeAudioData audioBlob (config\<lparr>opt_trimTrailing := Some True\<rparr>)
       = trimLeadingSilence decodeAudioData audioBlob config"
    by (simp add: trimLeadingSilence_def)
  fix r
  assume "trimSilence decodeAudioData audioBlob (config\<lparr>opt_trimTrailing := Some False\<rparr>)
             = Some r"
  then have c: "trimSilence_cfg decodeAudioData audioBlob
                  ((spread DEFAULT_CONFIG config)\<lparr>trimTrailing := False\<rparr>) = Some r"
    by (simp add: trimSilence_def spread_trimTrailing_False)
  from trimSilence_cfg_cases[OF c]
  show "trimmedTrailingMs r = 0"
    by (auto simp: speechEndOf_def)
  from trimSilence_cfg_cases[OF c]
  show "r = passthrough audioBlob
             \<or> (\<exists>audioBuffer samples speechStart trimmedBuffer.
                   decodeAudioData audioBlob = Inr audioBuffer
                 \<and> monoSamples audioBuffer = Inr samples
                 \<and> findSpeechStart samples (sampleRate audioBuffer)
                      (spread DEFAULT_CONFIG config) = Some speechStart
                 \<and> audioBufferToWav trimmedBuffer = Inr (blob r)
                 \<and> int (frameCount trimmedBuffer) = int (length samples) - speechStart)"
    by (auto simp: speechEndOf_def)
qed

text \<open>
  Leading silence, speech and trailing silence at 8000 Hz, with the caller asking for
  trailing trim: the 12200 frames from sample 1800 to the end are encoded.
\<close>

theorem trimLeadingSilence_keeps_tail_witness:
  "\<exists>r. trimSilence
          (\<lambda>b. Inr \<lparr> frameCount = 14000, sampleRate = 8000,
                       channelData = [replicate 2000 0 @ replicate 8000 1 @ replicate 4000 0] \<rparr>)
          (Blob [] ''audio/webm'')
          (emptyConfig\<lparr>opt_trimTrailing := Some True, opt_trimTrailing := Some False\<rparr>) = Some r
      \<and> trimmedLeadingMs r = 225 \<and> trimmedTrailingMs r = 0
      \<and> length (blob_bytes (blob r)) = 44 + 2 * 12200
      \<and> trimLeadingSilence
          (\<lambda>b. Inr \<lparr> frameCount = 14000, sampleRate = 8000,
                       channelData = [replicate 2000 0 @ replicate 8000 1 @ replicate 4000 0] \<rparr>)
          (Blob [] ''audio/webm'') (emptyConfig\<lparr>opt_trimTrailing := Some True\<rparr>)
          = Some (blob r, 225)"
proof -
  let ?samples = "replicate 2000 0 @ replicate 8000 1 @ replicate 4000 (0 :: real)"
  let ?a = "\<lparr> frameCount = 14000, sampleRate = 8000,
              channelData = [?samples] \<rparr>"
  let ?decode = "\<lambda>b :: blob. (Inr ?a :: js_error + AudioBuffer)"
  let ?blob = "Blob [] ''audio/webm''"
  let ?config = "emptyConfig\<lparr>opt_trimTrailing := Some True\<rparr>"
  let ?forced = "?config\<lparr>opt_trimTrailing := Some False\<rparr>"
  let ?cfg = "spread DEFAULT_CONFIG ?forced"
  have s: "findSpeechStart ?samples 8000 ?cfg = Some 1800" by (simp add: start_eval)
  have e: "speechEndOf ?samples 8000 ?cfg = Some 14000" by (simp add: speechEndOf_def start_eval)
  from trimSilence_mono_reencoded[of ?decode ?blob ?samples 8000 ?cfg ?forced 1800 14000,
        OF _ _ _ s e]
  obtain bytes where
    r: "trimSilence ?decode ?blob ?forced =
           Some \<lparr> blob = Blob bytes ''audio/wav'',
                  trimmedLeadingMs = Math_round (fl (fl (real_of_int 1800 / 8000) * 1000)),
                  trimmedTrailingMs = max 0 (Math_round
                     (fl (fl (real_of_int (int (length ?samples) - 14000) / 8000) * 1000))) \<rparr>"
    and l: "length bytes = 44 + 2 * nat (14000 - 1800)"
    by (auto simp: start_eval)
  let ?r = "\<lparr> blob = Blob bytes ''audio/wav'',
                  trimmedLeadingMs = Math_round (fl (fl (real_of_int 1800 / 8000) * 1000)),
                  trimmedTrailingMs = max 0 (Math_round
                     (fl (fl (real_of_int (int (length ?samples) - 14000) / 8000) * 1000))) \<rparr>"
  note keeps = trimLeadingSilence_keeps_tail[of ?decode ?blob ?config]
  from keeps r have tail: "trimmedTrailingMs ?r = 0" by blast
  from keeps have "trimLeadingSilence ?decode ?blob ?config
       = map_option (\<lambda>r. (blob r, trimmedLeadingMs r)) (trimSilence ?decode ?blob ?forced)"
    by (simp add: trimLeadingSilence_def)
  then have lead: "trimLeadingSilence ?decode ?blob ?config = Some (blob ?r, 225)"
    unfolding r by (simp add: Math_round_def ms_1800_8000)
  have "trimmedLeadingMs ?r = 225" by (simp add: Math_round_def ms_1800_8000)
  then show ?thesis using r tail lead l by (intro exI[of _ ?r]) simp
qed





section \<open>The merged configuration\<close>

text \<open>
  On numbers the embedding with NaN is the embedding above: the two scans, the end of the
  \<^verbatim>\<open>try\<close> block, and \<^verbatim>\<open>trimSilence\<close> itself.
\<close>

lemma liftJS_simps [simp]:
  "liftJS f (Some a) (Some b) = Some (f a b)"
  "liftJS f None y = None"
  "liftJS f x None = None"
  by (simp_all add: liftJS_def split: option.splits)

lemma lessJS_simps [simp]:
  "lessJS (Some a) (Some b) \<longleftrightarrow> a < b"
  "lessJS None y \<longleftrightarrow> False"
  "lessJS x None \<longleftrightarrow> False"
  by (simp_all add: lessJS_def split: option.splits)

lemma lessEqJS_simps [simp]:
  "lessEqJS (Some a) (Some b) \<longleftrightarrow> a \<le> b"
  "lessEqJS None y \<longleftrightarrow> False"
  "lessEqJS x None \<longleftrightarrow> False"
  by (simp_all add: lessEqJS_def split: option.splits)

lemma computeRMS_JS_Some [simp]:
  "computeRMS_JS samples (Some i) (Some w) = Some (computeRMS samples i w)"
  by (simp add: computeRMS_JS_def)

lemma isDecrescendo_JS_Some [simp]:
  "isDecrescendo_JS (Some p) (Some r) (Some E) \<longleftrightarrow> isDecrescendo p r E"
  by (simp add: isDecrescendo_JS_def isDecrescendo_def)

lemma start_JS_of_numbers:
  assumes "findSpeechStart_loop samples thr w M S i s = Some r"
  shows "findSpeechStart_loop_JS samples (Some thr) (Some w) (Some M) (Some S) (Some i) (Some s)
           = Some (Some r)"
  using assms
proof (induction rule: findSpeechStart_loop.raw_induct[rotated 1, consumes 1])
  case (1 loop samples thr w M S i s r)
  show ?case
    by (subst findSpeechStart_loop_JS.simps) (use 1 in \<open>auto split: if_splits\<close>)
qed

lemma start_numbers_of_JS:
  assumes "findSpeechStart_loop_JS samples thr' w' M' S' i' s' = Some r'"
  shows "\<forall>thr w M S i s. thr' = Some thr \<and> w' = Some w \<and> M' = Some M \<and> S' = Some S
            \<and> i' = Some i \<and> s' = Some s
          \<longrightarrow> (\<exists>r. r' = Some r \<and> findSpeechStart_loop samples thr w M S i s = Some r)"
  using assms
proof (induction rule: findSpeechStart_loop_JS.raw_induct[rotated 1, consumes 1])
  case (1 loop samples thr' w' M' S' i' s' r')
  show ?case
  proof (intro allI impI)
    fix thr w M S i s
    assume h: "thr' = Some thr \<and> w' = Some w \<and> M' = Some M \<and> S' = Some S
            \<and> i' = Some i \<and> s' = Some s"
    show "\<exists>r. r' = Some r \<and> findSpeechStart_loop samples thr w M S i s = Some r"
      by (subst findSpeechStart_loop.simps) (use 1 h in \<open>auto split: if_splits\<close>)
  qed
qed

lemma findSpeechStart_loop_JS_numbers:
  "findSpeechStart_loop_JS samples (Some thr) (Some w) (Some M) (Some S) (Some i) (Some s)
     = map_option Some (findSpeechStart_loop samples thr w M S i s)"
proof (cases "findSpeechStart_loop samples thr w M S i s")
  case (Some r)
  then show ?thesis by (simp add: start_JS_of_numbers)
next
  case None
  show ?thesis
  proof (cases "findSpeechStart_loop_JS samples (Some thr) (Some w) (Some M) (Some S)
                  (Some i) (Some s)")
    case None
    then show ?thesis using \<open>findSpeechStart_loop samples thr w M S i s = None\<close> by simp
  next
    case (Some r')
    from start_numbers_of_JS[OF this] \<open>findSpeechStart_loop samples thr w M S i s = None\<close>
    show ?thesis by simp
  qed
qed


lemma end_JS_of_numbers:
  assumes "findSpeechEnd_loop samples E w S T P i s p = Some r"
  shows "findSpeechEnd_loop_JS samples (Some E) (Some w) (Some S) (Some T) (Some P)
           (Some i) (Some s) (Some p) = Some (Some r)"
  using assms
proof (induction rule: findSpeechEnd_loop.raw_induct[rotated 1, consumes 1])
  case (1 loop samples E w S T P i s p r)
  show ?case
    by (subst findSpeechEnd_loop_JS.simps) (use 1 in \<open>auto split: if_splits\<close>)
qed

lemma end_numbers_of_JS:
  assumes "findSpeechEnd_loop_JS samples E' w' S' T' P' i' s' p' = Some r'"
  shows "\<forall>E w S T P i s p. E' = Some E \<and> w' = Some w \<and> S' = Some S \<and> T' = Some T
            \<and> P' = Some P \<and> i' = Some i \<and> s' = Some s \<and> p' = Some p
          \<longrightarrow> (\<exists>r. r' = Some r \<and> findSpeechEnd_loop samples E w S T P i s p = Some r)"
  using assms
proof (induction rule: findSpeechEnd_loop_JS.raw_induct[rotated 1, consumes 1])
  case (1 loop samples E' w' S' T' P' i' s' p' r')
  show ?case
  proof (intro allI impI)
    fix E w S T P i s p
    assume h: "E' = Some E \<and> w' = Some w \<and> S' = Some S \<and> T' = Some T
            \<and> P' = Some P \<and> i' = Some i \<and> s' = Some s \<and> p' = Some p"
    show "\<exists>r. r' = Some r \<and> findSpeechEnd_loop samples E w S T P i s p = Some r"
      by (subst findSpeechEnd_loop.simps) (use 1 h in \<open>auto split: if_splits\<close>)
  qed
qed

lemma findSpeechEnd_loop_JS_numbers:
  "findSpeechEnd_loop_JS samples (Some E) (Some w) (Some S) (Some T) (Some P)
       (Some i) (Some s) (Some p)
     = map_option Some (findSpeechEnd_loop samples E w S T P i s p)"
proof (cases "findSpeechEnd_loop samples E w S T P i s p")
  case (Some r)
  then show ?thesis by (simp add: end_JS_of_numbers)
next
  case None
  show ?thesis
  proof (cases "findSpeechEnd_loop_JS samples (Some E) (Some w) (Some S) (Some T) (Some P)
                  (Some i) (Some s) (Some p)")
    case None
    then show ?thesis using \<open>findSpeechEnd_loop samples E w S T P i s p = None\<close> by simp
  next
    case (Some r')
    from end_numbers_of_JS[OF this] \<open>findSpeechEnd_loop samples E w S T P i s p = None\<close>
    show ?thesis by simp
  qed
qed

text \<open>The fields of a merged configuration that holds numbers.\<close>

lemma numbers_fields:
  assumes "numbers m = Some cfg"
  shows "cfg_silenceThreshold m = Some (silenceThreshold cfg)"
    "cfg_endThresholdMultiplier m = Some (endThresholdMultiplier cfg)"
    "cfg_windowSize m = Some (windowSize cfg)"
    "cfg_minSilenceDuration m = Some (minSilenceDuration cfg)"
    "cfg_maxLeadingTrim m = Some (maxLeadingTrim cfg)"
    "cfg_maxTrailingTrim m = Some (maxTrailingTrim cfg)"
    "cfg_trailingPadding m = Some (trailingPadding cfg)"
    "cfg_minAudioDuration m = Some (minAudioDuration cfg)"
    "trimTrailing cfg \<longleftrightarrow> cfg_trimTrailing m = Some True"
  using assms by (auto simp: numbers_def split: option.splits)

lemma findSpeechStart_JS_fields:
  assumes "cfg_silenceThreshold m = Some (silenceThreshold cfg)"
    and "cfg_windowSize m = Some (windowSize cfg)"
    and "cfg_maxLeadingTrim m = Some (maxLeadingTrim cfg)"
    and "cfg_minSilenceDuration m = Some (minSilenceDuration cfg)"
  shows "findSpeechStart_JS samples rate m = map_option Some (findSpeechStart samples rate cfg)"
  by (simp add: findSpeechStart_JS_def findSpeechStart_def floorTimesJS_def Let_def
        assms findSpeechStart_loop_JS_numbers)

lemma findSpeechStart_JS_numbers:
  assumes "numbers m = Some cfg"
  shows "findSpeechStart_JS samples rate m = map_option Some (findSpeechStart samples rate cfg)"
  by (rule findSpeechStart_JS_fields) (simp_all add: numbers_fields[OF assms])

lemma speechEndOf_JS_numbers:
  assumes "numbers m = Some cfg"
  shows "speechEndOf_JS samples rate m = map_option Some (speechEndOf samples rate cfg)"
  by (simp add: speechEndOf_JS_def speechEndOf_def findSpeechEnd_JS_def findSpeechEnd_def
        floorTimesJS_def Let_def numbers_fields[OF assms] findSpeechEnd_loop_JS_numbers)

lemma trimBetween_JS_numbers:
  assumes "numbers m = Some cfg"
  shows "trimBetween_JS audioBlob a samples m (Some s) (Some e)
           = trimBetween audioBlob a samples cfg s e"
  by (simp add: trimBetween_JS_def trimBetween_def reencode_def floorTimesJS_def Let_def
        numbers_fields[OF assms])

lemma trimSilence_try_JS_numbers:
  assumes "numbers m = Some cfg"
  shows "trimSilence_try_JS decodeAudioData audioBlob m
           = trimSilence_try decodeAudioData audioBlob cfg"
  by (simp add: trimSilence_try_JS_def trimSilence_try_def findSpeechStart_JS_numbers[OF assms]
        speechEndOf_JS_numbers[OF assms] trimBetween_JS_numbers[OF assms]
      split: sum.splits option.splits)

lemma trimSilence_JS_numbers:
  assumes "numbers (spreadObject DEFAULT_CONFIG config) = Some cfg"
  shows "trimSilence_JS decodeAudioData audioBlob config
           = trimSilence_cfg decodeAudioData audioBlob cfg"
  by (simp add: trimSilence_JS_def trimSilence_cfg_def trimSilence_try_JS_numbers[OF assms])

lemma numbers_objectOf:
  "numbers (spreadObject DEFAULT_CONFIG (objectOf config)) = Some (spread DEFAULT_CONFIG config)"
  by (simp add: numbers_def spreadObject_def objectOf_def spread_def spreadProperty_def
        propertyOf_def orElse_def trimTrailing_default split: option.splits)

lemma trimSilence_JS_objectOf:
  "trimSilence_JS decodeAudioData audioBlob (objectOf config)
     = trimSilence decodeAudioData audioBlob config"
  unfolding trimSilence_def by (rule trimSilence_JS_numbers[OF numbers_objectOf])

text \<open>The \<^verbatim>\<open>catch\<close> clause covers every configuration object.\<close>

lemma trimSilence_JS_never_raises:
  "(decodeAudioData audioBlob = Inl e \<longrightarrow>
      trimSilence_JS decodeAudioData audioBlob config = Some (passthrough audioBlob))
   \<and> (trimSilence_try_JS decodeAudioData audioBlob (spreadObject DEFAULT_CONFIG config)
         = Some (Inl err) \<longrightarrow>
      trimSilence_JS decodeAudioData audioBlob config = Some (passthrough audioBlob))"
  by (simp add: trimSilence_JS_def trimSilence_try_JS_def)

text \<open>
  A window size that is \<^verbatim>\<open>undefined\<close>: the window length, then the RMS, then the loop
  variables are NaN, the forward scan leaves its loop after one iteration and returns 0,
  and the blob comes back as it is.
\<close>

lemma trimSilence_JS_undefined_window:
  "findSpeechStart_JS (replicate 8000 1) 8000
     (spreadObject DEFAULT_CONFIG (emptyObject\<lparr>prop_windowSize := Undefined\<rparr>)) = Some (Some 0)
   \<and> trimSilence_JS
       (\<lambda>b. Inr \<lparr> frameCount = 8000, sampleRate = 8000, channelData = [replicate 8000 1] \<rparr>)
       (Blob [] ''audio/webm'') (emptyObject\<lparr>prop_windowSize := Undefined\<rparr>)
     = Some \<lparr> blob = Blob [] ''audio/webm'', trimmedLeadingMs = 0, trimmedTrailingMs = 0 \<rparr>"
proof -
  let ?m = "spreadObject DEFAULT_CONFIG (emptyObject\<lparr>prop_windowSize := Undefined\<rparr>)"
  have f: "cfg_windowSize ?m = None" "cfg_trimTrailing ?m = Some False"
    "cfg_maxLeadingTrim ?m = Some (maxLeadingTrim DEFAULT_CONFIG)"
    "cfg_minSilenceDuration ?m = Some (minSilenceDuration DEFAULT_CONFIG)"
    "cfg_silenceThreshold ?m = Some (silenceThreshold DEFAULT_CONFIG)"
    by (simp_all add: spreadObject_def spreadProperty_def emptyObject_def trimTrailing_default)
  have s: "findSpeechStart_JS (replicate 8000 1) 8000 ?m = Some (Some 0)"
    by (simp add: findSpeechStart_JS_def floorTimesJS_def f findSpeechStart_loop_JS.simps
          computeRMS_JS_def samples_8000)
  then show ?thesis
    by (simp add: trimSilence_JS_def trimSilence_try_JS_def monoSamples_def getChannelData_def
          numberOfChannels_def speechEndOf_JS_def f trimBetween_JS_def passthrough_def)
qed

text \<open>The re-encoding succeeds on a buffer of the platform and a positive length.\<close>

lemma trimBetween_reencode:
  assumes "\<lfloor>fl (sampleRate a * minAudioDuration cfg)\<rfloor> \<le> e - s"
    and "\<not> (s = 0 \<and> e = int (length samples))"
  shows "trimBetween audioBlob a samples cfg s e = reencode audioBlob a samples s e"
  using assms by (auto simp: trimBetween_def reencode_def Let_def)

lemma reencode_ok:
  assumes "wellFormed a" and "0 < e - s" and "\<not> (s = 0 \<and> e = int (length samples))"
  shows "\<exists>bytes. reencode audioBlob a samples s e =
           Inr \<lparr> blob = Blob bytes ''audio/wav'',
                 trimmedLeadingMs = Math_round (fl (fl (real_of_int s / sampleRate a) * 1000)),
                 trimmedTrailingMs = max 0 (Math_round
                   (fl (fl (real_of_int (int (length samples) - e) / sampleRate a) * 1000))) \<rparr>
         \<and> length bytes = 44 + 2 * numberOfChannels a * nat (e - s)"
proof -
  let ?cfg = "DEFAULT_CONFIG\<lparr>minAudioDuration := 0\<rparr>"
  have f: "\<lfloor>fl (sampleRate a * minAudioDuration ?cfg)\<rfloor> \<le> e - s" using assms(2) by simp
  show ?thesis
    using trimBetween_reencoded[OF assms(1,2) f assms(3), of audioBlob]
    unfolding trimBetween_reencode[OF f assms(3)] .
qed

text \<open>
  A quarter of a second of silence and 1.25 seconds of speech at 8000 Hz, run with the
  defaults: 225 ms are trimmed and 10200 frames are encoded.
\<close>

lemma trimSilence_cfg_default_run:
  "\<exists>bytes. trimSilence_cfg
       (\<lambda>b. Inr \<lparr> frameCount = 12000, sampleRate = 8000,
                    channelData = [replicate 2000 0 @ replicate 10000 1] \<rparr>)
       (Blob [] ''audio/webm'') DEFAULT_CONFIG
     = Some \<lparr> blob = Blob bytes ''audio/wav'', trimmedLeadingMs = 225,
              trimmedTrailingMs = 0 \<rparr>
     \<and> length bytes = 44 + 2 * 10200"
proof -
  let ?samples = "replicate 2000 0 @ replicate 10000 (1 :: real)"
  let ?decode = "\<lambda>b :: blob. (Inr \<lparr> frameCount = 12000, sampleRate = 8000,
                    channelData = [?samples] \<rparr> :: js_error + AudioBuffer)"
  let ?blob = "Blob [] ''audio/webm''"
  have d: "spread DEFAULT_CONFIG emptyConfig = DEFAULT_CONFIG"
    by (simp add: spread_def emptyConfig_def orElse_def)
  have s: "findSpeechStart ?samples 8000 DEFAULT_CONFIG = Some 1800"
    by (simp add: findSpeechStart_def findSpeechStart_loop.simps computeRMS_def
          sum_list_replicate defaults_8000)
  have e: "speechEndOf ?samples 8000 DEFAULT_CONFIG = Some 12000"
    by (simp add: speechEndOf_def trimTrailing_default)
  from trimSilence_mono_reencoded[of ?decode ?blob ?samples 8000 DEFAULT_CONFIG emptyConfig
        1800 12000, OF _ _ _ s e]
  show ?thesis
    by (simp add: d trimSilence_def samples_8000 Math_round_def ms_1800_8000)
qed




section \<open>Text similarity and duplicates in the segment buffer\<close>

text \<open>
  \<^verbatim>\<open>includes\<close> is the substring relation, and \<^verbatim>\<open>areSimilarTexts\<close> the predicate of
  the specification.
\<close>

lemma str_includes_sublist: "str_includes s t \<longleftrightarrow> sublist t s"
  by (induction s) (auto simp: sublist_Cons_right)

lemma ratio_iff:
  "0 < m \<Longrightarrow> (real k / real m > 0.8) = (real k > 0.8 * real m)"
  by (simp add: field_simps)

lemma areSimilarTexts_iff: "areSimilarTexts a b \<longleftrightarrow> fuzzyDuplicate a b"
proof -
  define n1 where "n1 = normalizeForComparison a"
  define n2 where "n2 = normalizeForComparison b"
  have code: "areSimilarTexts a b \<longleftrightarrow>
      n1 = n2 \<or> ((str_includes n1 n2 \<or> str_includes n2 n1)
         \<and> real (length (if length n1 < length n2 then n1 else n2))
             / real (length (if length n1 \<ge> length n2 then n1 else n2)) > 0.8)"
    unfolding areSimilarTexts_def Let_def n1_def n2_def by auto
  have spec: "fuzzyDuplicate a b \<longleftrightarrow>
      n1 = n2 \<or> ((sublist n1 n2 \<or> sublist n2 n1)
         \<and> real (min (length n1) (length n2)) > 0.8 * real (max (length n1) (length n2)))"
    unfolding fuzzyDuplicate_def n1_def n2_def ..
  show ?thesis
  proof (cases "n1 = n2")
    case True
    then show ?thesis using code spec by simp
  next
    case False
    then have pos: "0 < max (length n1) (length n2)" by (cases n1; cases n2) auto
    have sel: "length (if length n1 < length n2 then n1 else n2) = min (length n1) (length n2)"
      "length (if length n1 \<ge> length n2 then n1 else n2) = max (length n1) (length n2)"
      by (simp_all add: min_def max_def)
    have "areSimilarTexts a b \<longleftrightarrow>
        ((sublist n2 n1 \<or> sublist n1 n2)
         \<and> real (min (length n1) (length n2)) / real (max (length n1) (length n2)) > 0.8)"
      unfolding code sel using False by (simp add: str_includes_sublist)
    also have "\<dots> \<longleftrightarrow> ((sublist n1 n2 \<or> sublist n2 n1)
         \<and> real (min (length n1) (length n2)) > 0.8 * real (max (length n1) (length n2)))"
      unfolding ratio_iff[OF pos] by blast
    finally show ?thesis using spec False by simp
  qed
qed

lemma fuzzyDuplicate_sym: "fuzzyDuplicate a b \<longleftrightarrow> fuzzyDuplicate b a"
  by (auto simp: fuzzyDuplicate_def min.commute max.commute)

text \<open>Normalization absorbs \<^verbatim>\<open>trim\<close>.\<close>

lemma isWhitespace_toLowerChar [simp]: "isWhitespace (toLowerChar c) = isWhitespace c"
proof (cases "isUpperCase c")
  case True
  then have l: "toLowerChar c = char_of ((of_char c :: nat) + 32)"
    by (simp add: toLowerChar_def)
  have "(of_char c :: nat) + 32 < 256" using True by (auto simp: isUpperCase_def)
  then have "(of_char (toLowerChar c) :: nat) = of_char c + 32"
    unfolding l by simp
  then show ?thesis using True by (auto simp: isWhitespace_def isUpperCase_def)
next
  case False
  then have "toLowerChar c = c" unfolding toLowerChar_def by (simp only: if_False)
  then show ?thesis by simp
qed

lemma dropWhile_toLowerCase:
  "dropWhile isWhitespace (toLowerCase s) = toLowerCase (dropWhile isWhitespace s)"
  by (simp add: toLowerCase_def dropWhile_map comp_def)

lemma toLowerCase_rev: "toLowerCase (rev s) = rev (toLowerCase s)"
  by (simp add: toLowerCase_def rev_map)

lemma trim_toLowerCase: "trim (toLowerCase s) = toLowerCase (trim s)"
  by (simp add: trim_def dropWhile_toLowerCase toLowerCase_rev[symmetric])

lemma trim_no_leading: "dropWhile isWhitespace (trim s) = trim s"
proof -
  define y where "y = dropWhile isWhitespace s"
  define z where "z = dropWhile isWhitespace (rev y)"
  have t: "trim s = rev z" by (simp add: trim_def y_def z_def)
  show ?thesis
  proof (cases "z = []")
    case True
    then show ?thesis by (simp add: t)
  next
    case False
    have "rev y = takeWhile isWhitespace (rev y) @ z" by (simp add: z_def)
    then have "last (rev y) = last z" using False by (metis last_appendR)
    moreover have "y \<noteq> []" using False z_def by auto
    ultimately have "last z = hd y" by (simp add: last_rev)
    moreover have "\<not> isWhitespace (hd y)"
      using \<open>y \<noteq> []\<close> unfolding y_def by (rule hd_dropWhile)
    ultimately have "\<not> isWhitespace (hd (rev z))" using False by (simp add: hd_rev)
    then show ?thesis by (simp add: t dropWhile_eq_self_iff)
  qed
qed

lemma trim_idem [simp]: "trim (trim s) = trim s"
proof -
  have "trim (trim s) = rev (dropWhile isWhitespace (rev (trim s)))"
    unfolding trim_def[of "trim s"] by (simp add: trim_no_leading)
  also have "rev (trim s) = dropWhile isWhitespace (rev (dropWhile isWhitespace s))"
    by (simp add: trim_def)
  finally show ?thesis by (simp add: trim_def)
qed

lemma normalize_trim [simp]: "normalizeForComparison (trim s) = normalizeForComparison s"
  by (simp add: normalizeForComparison_def trim_toLowerCase)

lemma fuzzyDuplicate_trim [simp]: "fuzzyDuplicate (trim a) (trim b) = fuzzyDuplicate a b"
  by (simp add: fuzzyDuplicate_def)

text \<open>
  The handling of a final result: the segments stay, or one segment is appended and the
  text is remembered.
\<close>

lemma step_final_cases:
  "handleResult_step (finalResult t) refs = refs'
   \<Longrightarrow> (finalSegments refs' = finalSegments refs \<and> lastFinalText refs' = lastFinalText refs)
       \<or> ((\<exists>textToAdd. finalSegments refs' = finalSegments refs @ [textToAdd])
          \<and> lastFinalText refs' = trim t \<and> \<not> areSimilarTexts (trim t) (lastFinalText refs))"
  by (auto simp: handleResult_step_def finalResult_def Let_def split: if_splits prod.splits)

lemma step_final_duplicate:
  "areSimilarTexts (trim t) (lastFinalText refs)
   \<Longrightarrow> finalSegments (handleResult_step (finalResult t) refs) = finalSegments refs"
  by (simp add: handleResult_step_def finalResult_def Let_def)

lemma normalize_Nil [simp]: "normalizeForComparison [] = []"
  by (simp add: normalizeForComparison_def trim_def toLowerCase_def)

lemma fuzzyDuplicate_Nil: "fuzzyDuplicate a [] \<longleftrightarrow> normalizeForComparison a = []"
  by (auto simp: fuzzyDuplicate_def)

lemma fuzzyDuplicate_empty_left:
  "normalizeForComparison a = [] \<Longrightarrow> fuzzyDuplicate a b \<longleftrightarrow> normalizeForComparison b = []"
  by (auto simp: fuzzyDuplicate_def)

lemma trim_Nil [simp]: "trim [] = []"
  by (simp add: trim_def)

lemma step_final_appended:
  assumes "length (finalSegments refs) < length (finalSegments (handleResult_step (finalResult t) refs))"
  shows "lastFinalText (handleResult_step (finalResult t) refs) = trim t"
  using step_final_cases[OF refl, of t refs] assms by auto

lemma step_final_after_accepted:
  assumes "fuzzyDuplicate A B" and "lastFinalText refs = trim A"
  shows "finalSegments (handleResult_step (finalResult B) refs) = finalSegments refs"
proof -
  have "areSimilarTexts (trim B) (lastFinalText refs)"
    using assms by (simp add: areSimilarTexts_iff fuzzyDuplicate_sym[of A B])
  then show ?thesis by (rule step_final_duplicate)
qed

lemma step_final_fresh:
  assumes "finalSegments refs = []" and "lastFinalText refs = []"
  shows "if normalizeForComparison t = []
         then finalSegments (handleResult_step (finalResult t) refs) = []
              \<and> lastFinalText (handleResult_step (finalResult t) refs) = []
         else lastFinalText (handleResult_step (finalResult t) refs) = trim t"
proof (cases "normalizeForComparison t = []")
  case True
  then have "areSimilarTexts (trim t) []" by (simp add: areSimilarTexts_iff fuzzyDuplicate_Nil)
  then show ?thesis using True assms
    by (simp add: handleResult_step_def finalResult_def Let_def)
next
  case False
  then have n: "\<not> areSimilarTexts (trim t) []"
    by (simp add: areSimilarTexts_iff fuzzyDuplicate_Nil)
  have "trim t \<noteq> []" using False normalize_trim[of t] by (metis normalize_Nil)
  then show ?thesis using False n assms
    by (simp add: handleResult_step_def finalResult_def Let_def getOverlapWithLastSegment_def)
qed






end
